theory Spec2Isabelle
  imports Main "HOL-Library.Sublist" "HOL-Library.AList"
begin

text \<open>
  A model of the scripts of react-native-skia-binaries that fetch a release archive
  and stage its payload: \<open>generate-packages.ts\<close>, \<open>download-binaries.ts\<close> and
  \<open>postinstall.mjs\<close>.  Each function of the scripts is a function here, with the
  file system, the network and the spawned commands made explicit; the properties
  follow the definitions.
\<close>

section \<open>JavaScript values shared by the scripts\<close>

text \<open>
  An \<open>Error\<close> object as the scripts read it: the message, the optional
  \<open>statusCode\<close> that \<open>downloadToFile\<close> attaches to an HTTP failure, and the
  optional \<open>code\<close> of a system error (\<open>ENOENT\<close>, \<open>ECONNRESET\<close>, ...).
  A field that is \<open>undefined\<close> in JavaScript is \<open>None\<close>.
\<close>

record js_error =
  message :: string
  statusCode :: "nat option"
  code :: "string option"

definition Error :: "string \<Rightarrow> js_error" where
  "Error msg = \<lparr>message = msg, statusCode = None, code = None\<rparr>"

definition digit_char :: "nat \<Rightarrow> char" where
  "digit_char d = char_of (48 + d)"

text \<open>The decimal text of a number, as a template literal prints it.\<close>

fun show_nat :: "nat \<Rightarrow> string" where
  "show_nat n = (if n < 10 then [digit_char n] else show_nat (n div 10) @ [digit_char (n mod 10)])"

declare show_nat.simps [simp del]

text \<open>\<open>String.prototype.includes\<close>: the needle occurs as a contiguous run.\<close>

fun str_includes :: "string \<Rightarrow> string \<Rightarrow> bool" where
  "str_includes [] needle = (needle = [])"
| "str_includes (c # cs) needle = (prefix needle (c # cs) \<or> str_includes cs needle)"

section \<open>generate-packages.ts: deriving the npm version\<close>

definition isDigit :: "char \<Rightarrow> bool" where
  "isDigit c = (48 \<le> (of_char c :: nat) \<and> (of_char c :: nat) \<le> 57)"

definition isLowerAZ :: "char \<Rightarrow> bool" where
  "isLowerAZ c = (97 \<le> (of_char c :: nat) \<and> (of_char c :: nat) \<le> 122)"

text \<open>
  The regular expression \<open>/^m(\d+)([a-z])?$/\<close>: the two capture groups when the
  whole string matches, \<open>None\<close> when \<open>match\<close> returns \<open>null\<close>.  The digits are
  taken greedily; no letter is a digit, so no other split can match.
\<close>

definition match_version :: "string \<Rightarrow> (string \<times> char option) option" where
  "match_version s =
     (case s of
        [] \<Rightarrow> None
      | c # rest \<Rightarrow>
          if c \<noteq> CHR ''m'' then None
          else
            (let major = takeWhile isDigit rest; after = dropWhile isDigit rest in
             if major = [] then None
             else
               (case after of
                  [] \<Rightarrow> Some (major, None)
                | [l] \<Rightarrow> if isLowerAZ l then Some (major, Some l) else None
                | _ \<Rightarrow> None)))"

definition deriveNpmVersion :: "string \<Rightarrow> js_error + string" where
  "deriveNpmVersion skiaVersion =
     (case match_version skiaVersion of
        None \<Rightarrow>
          Inl (Error (''Invalid skia version format: '' @ skiaVersion @
                      ''. Expected format: m144 or m144a''))
      | Some (major, sfx) \<Rightarrow>
          (let minor = (case sfx of
                          Some l \<Rightarrow> (of_char l :: nat) - (of_char CHR ''a'' :: nat) + 1
                        | None \<Rightarrow> 0)
           in Inr (major @ ''.'' @ show_nat minor @ ''.0'')))"

section \<open>The file system\<close>

text \<open>
  A file-system tree.  A directory lists its entries by name in the order
  \<open>readdirSync\<close> reports them; the special kinds are the four that \<open>copyDir\<close> tests
  for.  Symbolic links are not part of this model, so \<open>statSync\<close> and
  \<open>lstatSync\<close> agree.  A path is the list of its components below the root, and
  \<open>path.join(dir, name)\<close> is \<open>dir @ [name]\<close>: the names joined by the scripts
  (asset names, architecture names, directory entries) hold no separator.
\<close>

datatype node =
    File string
  | Dir "(string \<times> node) list"
  | Socket
  | FIFO
  | CharacterDevice
  | BlockDevice

type_synonym path = "string list"

fun isDirectory :: "node \<Rightarrow> bool" where
  "isDirectory (Dir es) = True"
| "isDirectory n = False"

text \<open>\<open>stat.isSocket() || stat.isFIFO() || stat.isCharacterDevice() || stat.isBlockDevice()\<close>\<close>

fun isSpecial :: "node \<Rightarrow> bool" where
  "isSpecial Socket = True"
| "isSpecial FIFO = True"
| "isSpecial CharacterDevice = True"
| "isSpecial BlockDevice = True"
| "isSpecial n = False"

text \<open>
  A system error raised by \<open>fs\<close>: its \<open>code\<close> is set; of Node's message text only
  the leading code is kept.
\<close>

definition sys_error :: "string \<Rightarrow> js_error" where
  "sys_error c = \<lparr>message = c, statusCode = None, code = Some c\<rparr>"

fun lookup :: "node \<Rightarrow> path \<Rightarrow> node option" where
  "lookup n [] = Some n"
| "lookup (Dir es) (x # p) = (case map_of es x of None \<Rightarrow> None | Some c \<Rightarrow> lookup c p)"
| "lookup n (x # p) = None"

definition existsSync :: "node \<Rightarrow> path \<Rightarrow> bool" where
  "existsSync fs p = (lookup fs p \<noteq> None)"

definition statSync :: "node \<Rightarrow> path \<Rightarrow> js_error + node" where
  "statSync fs p = (case lookup fs p of None \<Rightarrow> Inl (sys_error ''ENOENT'') | Some n \<Rightarrow> Inr n)"

definition lstatSync :: "node \<Rightarrow> path \<Rightarrow> js_error + node" where
  "lstatSync fs p = (case lookup fs p of None \<Rightarrow> Inl (sys_error ''ENOENT'') | Some n \<Rightarrow> Inr n)"

definition readdirSync :: "node \<Rightarrow> path \<Rightarrow> js_error + string list" where
  "readdirSync fs p =
     (case lookup fs p of
        None \<Rightarrow> Inl (sys_error ''ENOENT'')
      | Some (Dir es) \<Rightarrow> Inr (map fst es)
      | Some n \<Rightarrow> Inl (sys_error ''ENOTDIR''))"

text \<open>
  \<open>readdirSync(p, { withFileTypes: true })\<close>: each \<open>Dirent\<close> is the name with the
  node it named when the directory was read; \<open>entry.isDirectory()\<close> reads its kind.
\<close>

definition readdirSync_withFileTypes :: "node \<Rightarrow> path \<Rightarrow> js_error + (string \<times> node) list" where
  "readdirSync_withFileTypes fs p =
     (case lookup fs p of
        None \<Rightarrow> Inl (sys_error ''ENOENT'')
      | Some (Dir es) \<Rightarrow> Inr es
      | Some n \<Rightarrow> Inl (sys_error ''ENOTDIR''))"

text \<open>
  Storing a node at a path whose parent is a directory; elsewhere the tree is left
  as it is (the callers test the parent first).
\<close>

fun put :: "node \<Rightarrow> path \<Rightarrow> node \<Rightarrow> node" where
  "put n [] v = v"
| "put (Dir es) (x # p) v =
     (case map_of es x of
        None \<Rightarrow> (if p = [] then Dir (AList.update x v es) else Dir es)
      | Some c \<Rightarrow> Dir (AList.update x (put c p v) es))"
| "put n (x # p) v = n"

fun remove :: "node \<Rightarrow> path \<Rightarrow> node" where
  "remove n [] = n"
| "remove (Dir es) [x] = Dir (AList.delete x es)"
| "remove (Dir es) (x # p) =
     (case map_of es x of
        None \<Rightarrow> Dir es
      | Some c \<Rightarrow> Dir (AList.update x (remove c p) es))"
| "remove n (x # p) = n"

text \<open>
  \<open>rmSync(p, { recursive: true, force: true })\<close>: the subtree at the path is gone
  afterwards and a missing path is no error.  Failures by permissions or busy files
  are outside this model.
\<close>

definition rmSync :: "node \<Rightarrow> path \<Rightarrow> node" where
  "rmSync fs p = remove fs p"

text \<open>\<open>fs.unlink\<close> as the download uses it: the callback drops the outcome.\<close>

definition unlink :: "node \<Rightarrow> path \<Rightarrow> node" where
  "unlink fs p = (case lookup fs p of Some (Dir es) \<Rightarrow> fs | _ \<Rightarrow> remove fs p)"

fun fresh_dirs :: "path \<Rightarrow> node" where
  "fresh_dirs [] = Dir []"
| "fresh_dirs (x # p) = Dir [(x, fresh_dirs p)]"

text \<open>\<open>mkdirSync(p, { recursive: true })\<close>\<close>

fun mkdirSync :: "node \<Rightarrow> path \<Rightarrow> js_error + node" where
  "mkdirSync (Dir es) [] = Inr (Dir es)"
| "mkdirSync n [] = Inl (sys_error ''EEXIST'')"
| "mkdirSync (Dir es) (x # p) =
     (case map_of es x of
        None \<Rightarrow> Inr (Dir (AList.update x (fresh_dirs p) es))
      | Some c \<Rightarrow>
          (case mkdirSync c p of
             Inl e \<Rightarrow> Inl e
           | Inr c' \<Rightarrow> Inr (Dir (AList.update x c' es))))"
| "mkdirSync n (x # p) = Inl (sys_error ''ENOTDIR'')"

text \<open>\<open>path.dirname\<close> and \<open>path.basename\<close> on component lists.\<close>

definition dirname :: "path \<Rightarrow> path" where
  "dirname p = butlast p"

definition basename :: "path \<Rightarrow> string" where
  "basename p = (if p = [] then [] else last p)"

text \<open>
  Writing a regular file: the parent must be a directory and the target must not be
  one.  An existing special file takes the bytes and the tree stays as it is.
\<close>

definition writeFile :: "node \<Rightarrow> path \<Rightarrow> string \<Rightarrow> js_error + node" where
  "writeFile fs dest bytes =
     (if dest = [] then Inl (sys_error ''EISDIR'')
      else
        (case lookup fs (dirname dest) of
           None \<Rightarrow> Inl (sys_error ''ENOENT'')
         | Some (Dir es) \<Rightarrow>
             (case lookup fs dest of
                None \<Rightarrow> Inr (put fs dest (File bytes))
              | Some (File old) \<Rightarrow> Inr (put fs dest (File bytes))
              | Some (Dir ds) \<Rightarrow> Inl (sys_error ''EISDIR'')
              | Some special \<Rightarrow> Inr fs)
         | Some n \<Rightarrow> Inl (sys_error ''ENOTDIR'')))"

text \<open>
  What the platform does when \<open>copyFileSync\<close> is handed a source that is neither a
  regular file nor a directory is not fixed by Node: opening a FIFO blocks until a
  writer appears, a socket cannot be opened, a device yields whatever it holds.  It
  is a parameter of the model: \<open>None\<close> is a call that never returns, \<open>Inl\<close> the
  error raised, \<open>Inr\<close> the bytes that reach the destination.
\<close>

type_synonym special_reader = "node \<Rightarrow> (js_error + string) option"

text \<open>
  A synchronous \<open>fs\<close> call that changes the tree: whether it returned or threw,
  with the tree it leaves behind.
\<close>

type_synonym fs_outcome = "((js_error + unit) \<times> node) option"

definition copyFileSync :: "special_reader \<Rightarrow> node \<Rightarrow> path \<Rightarrow> path \<Rightarrow> fs_outcome" where
  "copyFileSync rd fs src dest =
     (case lookup fs src of
        None \<Rightarrow> Some (Inl (sys_error ''ENOENT''), fs)
      | Some (File bytes) \<Rightarrow>
          (case writeFile fs dest bytes of
             Inl e \<Rightarrow> Some (Inl e, fs)
           | Inr fs1 \<Rightarrow> Some (Inr (), fs1))
      | Some (Dir es) \<Rightarrow> Some (Inl (sys_error ''EISDIR''), fs)
      | Some special \<Rightarrow>
          (case rd special of
             None \<Rightarrow> None
           | Some (Inl e) \<Rightarrow> Some (Inl e, fs)
           | Some (Inr bytes) \<Rightarrow>
               (case writeFile fs dest bytes of
                  Inl e \<Rightarrow> Some (Inl e, fs)
                | Inr fs1 \<Rightarrow> Some (Inr (), fs1))))"

text \<open>
  \<open>copyDir\<close> and its \<open>for\<close> loop.  The recursion follows the tree that is read
  while it is written, so it is bounded by a depth: a run that needs more is \<open>None\<close>.
  The entries are read once per directory; \<open>lstatSync\<close> and the recursive call read
  the tree as it is by then.
\<close>

fun copyDir :: "special_reader \<Rightarrow> nat \<Rightarrow> node \<Rightarrow> path \<Rightarrow> path \<Rightarrow> fs_outcome"
  and copyDir_entries ::
    "special_reader \<Rightarrow> nat \<Rightarrow> node \<Rightarrow> path \<Rightarrow> path \<Rightarrow> (string \<times> node) list \<Rightarrow> fs_outcome"
where
  "copyDir rd 0 fs src dest = None"
| "copyDir rd (Suc depth) fs src dest =
     (case mkdirSync fs dest of
        Inl e \<Rightarrow> Some (Inl e, fs)
      | Inr fs1 \<Rightarrow>
          (case readdirSync_withFileTypes fs1 src of
             Inl e \<Rightarrow> Some (Inl e, fs1)
           | Inr entries \<Rightarrow> copyDir_entries rd depth fs1 src dest entries))"
| "copyDir_entries rd depth fs src dest [] = Some (Inr (), fs)"
| "copyDir_entries rd depth fs src dest (entry # entries) =
     (let srcPath = src @ [fst entry]; destPath = dest @ [fst entry] in
      case lstatSync fs srcPath of
        Inl e \<Rightarrow> Some (Inl e, fs)
      | Inr stat \<Rightarrow>
          if isSpecial stat then copyDir_entries rd depth fs src dest entries
          else
            (case (if isDirectory (snd entry) then copyDir rd depth fs srcPath destPath
                   else copyFileSync rd fs srcPath destPath) of
               None \<Rightarrow> None
             | Some (Inl e, fs1) \<Rightarrow> Some (Inl e, fs1)
             | Some (Inr u, fs1) \<Rightarrow> copyDir_entries rd depth fs1 src dest entries))"

section \<open>The world a script runs in\<close>

text \<open>
  What one call of \<open>https.get\<close> leads to.  The call itself throws when Node refuses
  the URL it is given: one that the URL parser rejects, as it does a relative
  reference, or one whose scheme is not \<open>https\<close>; then no request is made.
  Otherwise the request fails (\<open>error\<close> event on the request), or a response arrives
  with its status line, its \<open>Location\<close> header (\<open>None\<close> when absent) and what
  becomes of the body while it is piped to the file: it is written and closed,
  closing the file fails, or one of the two streams fails.  Which URLs Node takes
  is not written in the scripts, so the world says it call by call.
\<close>

datatype body_outcome =
    Finished string
  | CloseFailed js_error
  | StreamFailed js_error

record response =
  status :: nat
  statusMessage :: string
  location :: "string option"
  body :: body_outcome

datatype http_event =
    GetThrows js_error
  | RequestError js_error
  | Response response

text \<open>
  The state threaded through a run: the file system, what the calls of
  \<open>https.get\<close> still to come lead to (one entry per call, in order), and a record
  of what the run did: the URLs requested, the download attempts started, the delays
  handed to \<open>sleep\<close> (in milliseconds) each with the error that led to it, and the
  commands spawned.
\<close>

record world =
  fs :: node
  net :: "http_event list"
  requests :: "string list"
  attempts :: nat
  retries :: "(js_error \<times> nat) list"
  spawned :: "string list"

text \<open>
  An awaited call ends with \<open>Inr\<close> when its promise resolves and \<open>Inl\<close> when it
  rejects or the call throws; \<open>None\<close> is a call that never ends: its promise never
  settles, or an exception that nobody catches ends the process before it does.
\<close>

type_synonym 'a outcome = "((js_error + 'a) \<times> world) option"

section \<open>downloadToFile\<close>

text \<open>\<open>res.statusCode && [301, 302, 303, 307, 308].includes(res.statusCode)\<close>\<close>

definition is_redirect :: "nat \<Rightarrow> bool" where
  "is_redirect s = (s \<noteq> 0 \<and> s \<in> set [301, 302, 303, 307, 308])"

text \<open>A string used as a condition: \<open>undefined\<close> and the empty string are falsy.\<close>

fun truthy :: "string option \<Rightarrow> bool" where
  "truthy None = False"
| "truthy (Some s) = (s \<noteq> [])"

definition status_error :: "response \<Rightarrow> js_error" where
  "status_error res =
     \<lparr>message = ''Failed to download: '' @ show_nat (status res) @ '' '' @ statusMessage res,
      statusCode = Some (status res), code = None\<rparr>"

text \<open>
  \<open>request(currentUrl)\<close> inside \<open>attemptDownload\<close>.  Each call of \<open>https.get\<close>
  takes the next entry of the world; with none left no callback ever fires.  The
  result is \<open>Inl\<close> when \<open>https.get\<close> throws, and the call of \<open>request\<close> with it,
  and \<open>Inr\<close> when the call returns, with what becomes of the promise of the
  attempt.  A redirect calls \<open>request(location)\<close> inside the callback of the
  response: what that call throws is caught by nobody, neither \<open>resolve\<close> nor
  \<open>reject\<close> is ever called, and the exception ends the process.
\<close>

function request :: "path \<Rightarrow> string \<Rightarrow> world \<Rightarrow> js_error \<times> world + unit outcome" where
  "request destPath currentUrl w =
     (case net w of
        [] \<Rightarrow> Inr None
      | ev # evs \<Rightarrow>
          (let w1 = w\<lparr>net := evs, requests := requests w @ [currentUrl]\<rparr> in
           case ev of
             GetThrows e \<Rightarrow> Inl (e, w\<lparr>net := evs\<rparr>)
           | RequestError e \<Rightarrow> Inr (Some (Inl e, w1))
           | Response res \<Rightarrow>
               if is_redirect (status res) then
                 (if truthy (location res) then
                    (case request destPath (the (location res)) w1 of
                       Inl uncaught \<Rightarrow> Inr None
                     | Inr promise \<Rightarrow> Inr promise)
                  else Inr (Some (Inl (Error (''Redirect without location for '' @ currentUrl)), w1)))
               else if status res \<noteq> 200 then Inr (Some (Inl (status_error res), w1))
               else
                 (case body res of
                    Finished bytes \<Rightarrow>
                      (case writeFile (fs w1) destPath bytes of
                         Inl e \<Rightarrow> Inr (Some (Inl e, w1\<lparr>fs := unlink (fs w1) destPath\<rparr>))
                       | Inr fs1 \<Rightarrow> Inr (Some (Inr (), w1\<lparr>fs := fs1\<rparr>)))
                  | CloseFailed err \<Rightarrow> Inr (Some (Inl err, w1\<lparr>fs := unlink (fs w1) destPath\<rparr>))
                  | StreamFailed err \<Rightarrow> Inr (Some (Inl err, w1\<lparr>fs := unlink (fs w1) destPath\<rparr>)))))"
  by pat_completeness auto
termination
  by (relation "measure (\<lambda>(destPath, currentUrl, w). length (net w))") auto

declare request.simps [simp del]

text \<open>
  \<open>new Promise((resolve, reject) => { ...; request(url); })\<close>: what the executor
  throws rejects the promise.
\<close>

definition attemptDownload :: "string \<Rightarrow> path \<Rightarrow> world \<Rightarrow> unit outcome" where
  "attemptDownload url destPath w =
     (case request destPath url (w\<lparr>attempts := attempts w + 1\<rparr>) of
        Inl (e, w1) \<Rightarrow> Some (Inl e, w1)
      | Inr promise \<Rightarrow> promise)"

text \<open>Whether the next call of \<open>https.get\<close> takes the URL it is given.\<close>

fun accepted :: "http_event list \<Rightarrow> bool" where
  "accepted (GetThrows e # evs) = False"
| "accepted evs = True"

definition isRateLimit :: "js_error \<Rightarrow> bool" where
  "isRateLimit error = (statusCode error = Some 403 \<or> str_includes (message error) ''rate limit'')"

definition shouldRetry :: "nat \<Rightarrow> nat \<Rightarrow> js_error \<Rightarrow> bool" where
  "shouldRetry maxRetries retryCount error =
     (retryCount < maxRetries \<and>
      (isRateLimit error \<or> code error = Some ''ECONNRESET'' \<or> code error = Some ''ETIMEDOUT''))"

function downloadWithRetry :: "string \<Rightarrow> path \<Rightarrow> nat \<Rightarrow> nat \<Rightarrow> world \<Rightarrow> unit outcome" where
  "downloadWithRetry url destPath maxRetries retryCount w =
     (case attemptDownload url destPath w of
        None \<Rightarrow> None
      | Some (Inr u, w1) \<Rightarrow> Some (Inr u, w1)
      | Some (Inl error, w1) \<Rightarrow>
          if shouldRetry maxRetries retryCount error then
            (let delay = 2 ^ retryCount * 1000 in
             downloadWithRetry url destPath maxRetries (retryCount + 1)
               (w1\<lparr>retries := retries w1 @ [(error, delay)]\<rparr>))
          else Some (Inl error, w1))"
  by pat_completeness auto
termination
  by (relation "measure (\<lambda>(url, destPath, maxRetries, retryCount, w). maxRetries - retryCount)")
     (auto simp: shouldRetry_def)

declare downloadWithRetry.simps [simp del]

definition downloadToFile :: "string \<Rightarrow> path \<Rightarrow> nat \<Rightarrow> world \<Rightarrow> unit outcome" where
  "downloadToFile url destPath maxRetries w =
     (case mkdirSync (fs w) (dirname destPath) of
        Inl e \<Rightarrow> Some (Inl e, w)
      | Inr fs1 \<Rightarrow> downloadWithRetry url destPath maxRetries 0 (w\<lparr>fs := fs1\<rparr>))"

text \<open>
  The failure classes the retry policy names: HTTP status 403, a message containing
  ``rate limit'', a connection reset, a connection timeout.
\<close>

definition retryable :: "js_error \<Rightarrow> bool" where
  "retryable e =
     (statusCode e = Some 403 \<or> str_includes (message e) ''rate limit'' \<or>
      code e = Some ''ECONNRESET'' \<or> code e = Some ''ETIMEDOUT'')"

section \<open>The platform\<close>

text \<open>
  What a run takes from its platform: \<open>process.platform === "win32"\<close>, the
  environment variable \<open>SystemRoot\<close>, \<open>os.tmpdir()\<close>, the characters \<open>mkdtempSync\<close>
  appends to its prefix, what a spawned command does to the file system and how it
  ends, what reading a special file gives, and the recursion depth available to
  \<open>copyDir\<close>.
\<close>

datatype child_result =
    ChildError js_error
  | ChildClosed "nat option"

record platform =
  win32 :: bool
  SystemRoot :: "string option"
  tmpdir :: path
  mkdtemp_suffix :: "node \<Rightarrow> string"
  spawn :: "string \<Rightarrow> string list \<Rightarrow> node \<Rightarrow> child_result \<times> node"
  read_special :: special_reader
  max_depth :: nat

definition backslash :: string where
  "backslash = [char_of (92 :: nat)]"

text \<open>The text of a path, as it is passed to a command.\<close>

definition path_string :: "platform \<Rightarrow> path \<Rightarrow> string" where
  "path_string pf p = concat (map (\<lambda>c. (if win32 pf then backslash else ''/'') @ c) p)"

section \<open>runCommand and extractTarGz\<close>

text \<open>The exit code in a template literal: a child killed by a signal has \<open>null\<close>.\<close>

fun show_code :: "nat option \<Rightarrow> string" where
  "show_code None = ''null''"
| "show_code (Some n) = show_nat n"

definition runCommand :: "platform \<Rightarrow> string \<Rightarrow> string list \<Rightarrow> world \<Rightarrow> (js_error + unit) \<times> world" where
  "runCommand pf command args w =
     (let (r, fs1) = spawn pf command args (fs w);
          w1 = w\<lparr>fs := fs1, spawned := spawned w @ [command]\<rparr>
      in case r of
           ChildError e \<Rightarrow> (Inl e, w1)
         | ChildClosed c \<Rightarrow>
             if c = Some 0 then (Inr (), w1)
             else (Inl (Error (''Command '' @ command @ '' exited with code '' @ show_code c)), w1))"

text \<open>
  The \<open>for\<close> loop of \<open>extractTarGz\<close> over the candidates, with \<open>lastError\<close>: \<open>Inr\<close>
  is the \<open>return\<close> after a command that succeeded, \<open>Inl\<close> is the loop running to
  its end.
\<close>

fun extract_loop ::
  "platform \<Rightarrow> string list \<Rightarrow> string list \<Rightarrow> js_error option \<Rightarrow> world \<Rightarrow>
   (js_error option + unit) \<times> world" where
  "extract_loop pf args [] lastError w = (Inl lastError, w)"
| "extract_loop pf args (candidate # candidates) lastError w =
     (case runCommand pf candidate args w of
        (Inr u, w1) \<Rightarrow> (Inr (), w1)
      | (Inl err, w1) \<Rightarrow>
          if code err = Some ''ENOENT''
          then extract_loop pf args candidates (Some (Error (''Command '' @ candidate @ '' not found''))) w1
          else extract_loop pf args candidates (Some err) w1)"

text \<open>\<open>lastError?.message ?? "unknown error"\<close>\<close>

fun last_message :: "js_error option \<Rightarrow> string" where
  "last_message None = ''unknown error''"
| "last_message (Some e) = message e"

text \<open>
  \<open>path.join(process.env.SystemRoot ?? "C:\\Windows", "System32", "tar.exe")\<close>, as
  the segments joined by backslashes.
\<close>

definition system_tar :: "platform \<Rightarrow> string" where
  "system_tar pf =
     (case SystemRoot pf of None \<Rightarrow> ''C:'' @ backslash @ ''Windows'' | Some r \<Rightarrow> r) @
     backslash @ ''System32'' @ backslash @ ''tar.exe''"

text \<open>\<open>extractTarGz\<close> of generate-packages.ts and download-binaries.ts.\<close>

definition candidates :: "platform \<Rightarrow> string list" where
  "candidates pf = (if win32 pf then [''tar.exe'', system_tar pf] else [''tar''])"

definition extractTarGz :: "platform \<Rightarrow> path \<Rightarrow> path \<Rightarrow> world \<Rightarrow> (js_error + unit) \<times> world" where
  "extractTarGz pf archivePath destDir w =
     (case mkdirSync (fs w) destDir of
        Inl e \<Rightarrow> (Inl e, w)
      | Inr fs1 \<Rightarrow>
          (let args = [''-xzf'', path_string pf archivePath, ''-C'', path_string pf destDir] in
           case extract_loop pf args (candidates pf) None (w\<lparr>fs := fs1\<rparr>) of
             (Inr u, w1) \<Rightarrow> (Inr (), w1)
           | (Inl lastError, w1) \<Rightarrow>
               (Inl (Error (''Failed to extract: '' @ last_message lastError)), w1)))"

text \<open>\<open>extractTarGz\<close> of postinstall.mjs: two more candidates, a longer message.\<close>

definition candidates_postinstall :: "platform \<Rightarrow> string list" where
  "candidates_postinstall pf =
     (if win32 pf then [''tar.exe'', system_tar pf, ''bsdtar.exe'', ''bsdtar''] else [''tar''])"

definition extractTarGz_postinstall ::
  "platform \<Rightarrow> path \<Rightarrow> path \<Rightarrow> world \<Rightarrow> (js_error + unit) \<times> world" where
  "extractTarGz_postinstall pf archivePath destDir w =
     (case mkdirSync (fs w) destDir of
        Inl e \<Rightarrow> (Inl e, w)
      | Inr fs1 \<Rightarrow>
          (let args = [''-xzf'', path_string pf archivePath, ''-C'', path_string pf destDir] in
           case extract_loop pf args (candidates_postinstall pf) None (w\<lparr>fs := fs1\<rparr>) of
             (Inr u, w1) \<Rightarrow> (Inr (), w1)
           | (Inl lastError, w1) \<Rightarrow>
               (Inl (Error (''Failed to extract '' @ basename archivePath @
                            ''. Please install a compatible tar binary. Last error: '' @
                            last_message lastError)), w1)))"

section \<open>downloadAndExtractAsset and downloadArtifact\<close>

text \<open>
  \<open>mkdtempSync(path.join(os.tmpdir(), "skia-download-"))\<close>: a new directory under
  the temporary directory, or the error when it cannot be made.
\<close>

definition mkdtempSync :: "platform \<Rightarrow> node \<Rightarrow> js_error + (path \<times> node)" where
  "mkdtempSync pf tree =
     (let tempDir = tmpdir pf @ [''skia-download-'' @ mkdtemp_suffix pf tree] in
      case lookup tree (tmpdir pf) of
        None \<Rightarrow> Inl (sys_error ''ENOENT'')
      | Some (Dir es) \<Rightarrow>
          (if existsSync tree tempDir then Inl (sys_error ''EEXIST'')
           else Inr (tempDir, put tree tempDir (Dir [])))
      | Some n \<Rightarrow> Inl (sys_error ''ENOTDIR''))"

text \<open>
  ``Navigate to source directory'' in \<open>downloadAndExtractAsset\<close>: the payload root
  for the listing of the extraction directory.
\<close>

definition sourceDir_of :: "node \<Rightarrow> path \<Rightarrow> string list \<Rightarrow> string option \<Rightarrow> js_error + path" where
  "sourceDir_of tree extractDir extractedContents srcSubdir =
     (if length extractedContents = 1 then
        (case statSync tree (extractDir @ [extractedContents ! 0]) of
           Inl e \<Rightarrow> Inl e
         | Inr st \<Rightarrow>
             if isDirectory st then
               (let sourceDir = extractDir @ [extractedContents ! 0] in
                if truthy srcSubdir \<and> existsSync tree (sourceDir @ [the srcSubdir]) then
                  (case statSync tree (sourceDir @ [the srcSubdir]) of
                     Inl e \<Rightarrow> Inl e
                   | Inr sub \<Rightarrow>
                       if isDirectory sub then Inr (sourceDir @ [the srcSubdir])
                       else Inr sourceDir)
                else Inr sourceDir)
             else Inr extractDir)
      else Inr extractDir)"

text \<open>The same block in \<open>downloadArtifact\<close>: the subdirectory is only tested to exist.\<close>

definition sourceDir_of_artifact :: "node \<Rightarrow> path \<Rightarrow> string list \<Rightarrow> string option \<Rightarrow> js_error + path" where
  "sourceDir_of_artifact tree extractDir extractedContents srcSubdir =
     (if length extractedContents = 1 then
        (case statSync tree (extractDir @ [extractedContents ! 0]) of
           Inl e \<Rightarrow> Inl e
         | Inr st \<Rightarrow>
             if isDirectory st then
               (let sourceDir = extractDir @ [extractedContents ! 0] in
                if truthy srcSubdir \<and> existsSync tree (sourceDir @ [the srcSubdir])
                then Inr (sourceDir @ [the srcSubdir])
                else Inr sourceDir)
             else Inr extractDir)
      else Inr extractDir)"

text \<open>The \<open>for (const item of items)\<close> loop that copies the payload.\<close>

fun copy_items :: "platform \<Rightarrow> path \<Rightarrow> path \<Rightarrow> string list \<Rightarrow> node \<Rightarrow> fs_outcome" where
  "copy_items pf sourceDir destDir [] tree = Some (Inr (), tree)"
| "copy_items pf sourceDir destDir (item # items) tree =
     (let srcPath = sourceDir @ [item]; destPath = destDir @ [item] in
      case statSync tree srcPath of
        Inl e \<Rightarrow> Some (Inl e, tree)
      | Inr st \<Rightarrow>
          (case (if isDirectory st then copyDir (read_special pf) (max_depth pf) tree srcPath destPath
                 else copyFileSync (read_special pf) tree srcPath destPath) of
             None \<Rightarrow> None
           | Some (Inl e, fs1) \<Rightarrow> Some (Inl e, fs1)
           | Some (Inr u, fs1) \<Rightarrow> copy_items pf sourceDir destDir items fs1))"

text \<open>``Copy contents to destination'': \<open>mkdirSync\<close>, \<open>readdirSync\<close> and the loop.\<close>

definition copy_contents :: "platform \<Rightarrow> path \<Rightarrow> path \<Rightarrow> world \<Rightarrow> unit outcome" where
  "copy_contents pf sourceDir destDir w =
     (case mkdirSync (fs w) destDir of
        Inl e \<Rightarrow> Some (Inl e, w)
      | Inr fs1 \<Rightarrow>
          (case readdirSync fs1 sourceDir of
             Inl e \<Rightarrow> Some (Inl e, w\<lparr>fs := fs1\<rparr>)
           | Inr items \<Rightarrow>
               (case copy_items pf sourceDir destDir items fs1 of
                  None \<Rightarrow> None
                | Some (r, fs2) \<Rightarrow> Some (r, w\<lparr>fs := fs2\<rparr>))))"

text \<open>
  The \<open>try\<close> block of \<open>downloadAndExtractAsset\<close> from ``Find the extracted
  content'' on, up to the cleanup.
\<close>

definition place_contents :: "platform \<Rightarrow> path \<Rightarrow> path \<Rightarrow> string option \<Rightarrow> world \<Rightarrow> unit outcome" where
  "place_contents pf extractDir destDir srcSubdir w =
     (case readdirSync (fs w) extractDir of
        Inl e \<Rightarrow> Some (Inl e, w)
      | Inr extractedContents \<Rightarrow>
          if length extractedContents = 0
          then Some (Inl (Error ''Archive extracted but no contents found''), w)
          else
            (case sourceDir_of (fs w) extractDir extractedContents srcSubdir of
               Inl e \<Rightarrow> Some (Inl e, w)
             | Inr sourceDir \<Rightarrow> copy_contents pf sourceDir destDir w))"

text \<open>The same stretch of \<open>downloadArtifact\<close>, which has no test for an empty listing.\<close>

definition place_contents_artifact ::
  "platform \<Rightarrow> path \<Rightarrow> path \<Rightarrow> string option \<Rightarrow> world \<Rightarrow> unit outcome" where
  "place_contents_artifact pf extractDir destDir srcSubdir w =
     (case readdirSync (fs w) extractDir of
        Inl e \<Rightarrow> Some (Inl e, w)
      | Inr extractedContents \<Rightarrow>
          (case sourceDir_of_artifact (fs w) extractDir extractedContents srcSubdir of
             Inl e \<Rightarrow> Some (Inl e, w)
           | Inr sourceDir \<Rightarrow> copy_contents pf sourceDir destDir w))"

text \<open>
  The whole \<open>try\<close> block, given the function that extracts and the one that places:
  download with the default \<open>maxRetries = 5\<close>, extract, place.
\<close>

definition try_block ::
  "(path \<Rightarrow> path \<Rightarrow> world \<Rightarrow> (js_error + unit) \<times> world) \<Rightarrow> (world \<Rightarrow> unit outcome) \<Rightarrow>
   string \<Rightarrow> path \<Rightarrow> path \<Rightarrow> world \<Rightarrow> unit outcome" where
  "try_block extract place downloadUrl archivePath extractDir w =
     (case downloadToFile downloadUrl archivePath 5 w of
        None \<Rightarrow> None
      | Some (Inl e, w1) \<Rightarrow> Some (Inl e, w1)
      | Some (Inr u, w1) \<Rightarrow>
          (case extract archivePath extractDir w1 of
             (Inl e, w2) \<Rightarrow> Some (Inl e, w2)
           | (Inr u, w2) \<Rightarrow> place w2))"

text \<open>
  \<open>try { ... rmSync(tempDir) } catch (error) { rmSync(tempDir); throw error; }\<close>:
  both ways out remove the scratch directory and keep the result.
\<close>

definition with_cleanup :: "path \<Rightarrow> unit outcome \<Rightarrow> unit outcome" where
  "with_cleanup tempDir r =
     (case r of
        None \<Rightarrow> None
      | Some (Inr u, w1) \<Rightarrow> Some (Inr u, w1\<lparr>fs := rmSync (fs w1) tempDir\<rparr>)
      | Some (Inl error, w1) \<Rightarrow> Some (Inl error, w1\<lparr>fs := rmSync (fs w1) tempDir\<rparr>))"

definition github_url :: "string \<Rightarrow> string \<Rightarrow> string \<Rightarrow> string" where
  "github_url repo releaseTag assetName =
     ''https://github.com/'' @ repo @ ''/releases/download/'' @ releaseTag @ ''/'' @ assetName"

definition REPO :: string where
  "REPO = ''shopify/react-native-skia''"

text \<open>\<open>downloadAndExtractAsset\<close> of generate-packages.ts.\<close>

definition downloadAndExtractAsset ::
  "platform \<Rightarrow> string \<Rightarrow> string \<Rightarrow> path \<Rightarrow> string option \<Rightarrow> world \<Rightarrow> unit outcome" where
  "downloadAndExtractAsset pf artifact releaseTag destDir srcSubdir w =
     (let assetName = artifact @ ''-'' @ releaseTag @ ''.tar.gz'';
          downloadUrl = github_url REPO releaseTag assetName
      in case mkdtempSync pf (fs w) of
           Inl e \<Rightarrow> Some (Inl e, w)
         | Inr (tempDir, fs1) \<Rightarrow>
             (let archivePath = tempDir @ [assetName];
                  extractDir = tempDir @ [''extracted'']
              in with_cleanup tempDir
                   (try_block (extractTarGz pf) (place_contents pf extractDir destDir srcSubdir)
                      downloadUrl archivePath extractDir (w\<lparr>fs := fs1\<rparr>))))"

text \<open>\<open>downloadArtifact\<close> of download-binaries.ts.\<close>

record ArchConfig =
  artifact :: string
  destSubdir :: string
  srcSubdir :: string

definition downloadArtifact ::
  "platform \<Rightarrow> ArchConfig \<Rightarrow> string \<Rightarrow> path \<Rightarrow> bool \<Rightarrow> world \<Rightarrow> unit outcome" where
  "downloadArtifact pf archConfig skiaVersion outputDir graphite w =
     (let releaseTag = (if graphite then ''skia-graphite-'' @ skiaVersion else ''skia-'' @ skiaVersion);
          assetName = artifact archConfig @ ''-'' @ releaseTag @ ''.tar.gz'';
          downloadUrl = github_url REPO releaseTag assetName;
          destDir = (if destSubdir archConfig \<noteq> [] then outputDir @ [destSubdir archConfig]
                     else outputDir)
      in case mkdtempSync pf (fs w) of
           Inl e \<Rightarrow> Some (Inl e, w)
         | Inr (tempDir, fs1) \<Rightarrow>
             (let archivePath = tempDir @ [assetName];
                  extractDir = tempDir @ [''extracted'']
              in with_cleanup tempDir
                   (try_block (extractTarGz pf)
                      (place_contents_artifact pf extractDir destDir (Some (srcSubdir archConfig)))
                      downloadUrl archivePath extractDir (w\<lparr>fs := fs1\<rparr>))))"

text \<open>
  For stating what the loop of \<open>extractTarGz\<close> does: what is kept as \<open>lastError\<close>
  after a candidate failed, and the results of running candidates one after the
  other, each in the world its predecessor left.
\<close>

definition recorded :: "string \<Rightarrow> js_error \<Rightarrow> js_error" where
  "recorded candidate err =
     (if code err = Some ''ENOENT'' then Error (''Command '' @ candidate @ '' not found'') else err)"

fun outcomes :: "platform \<Rightarrow> string list \<Rightarrow> string list \<Rightarrow> world \<Rightarrow> ((js_error + unit) \<times> world) list" where
  "outcomes pf args [] w = []"
| "outcomes pf args (c # cs) w =
     runCommand pf c args w # outcomes pf args cs (snd (runCommand pf c args w))"

section \<open>postinstall.mjs\<close>

text \<open>
  The \<open>skia\<close> object of the package's \<open>package.json\<close>, as generate-packages.ts
  writes it; an optional field that is absent is \<open>None\<close>.
\<close>

record AndroidArch =
  arch :: string
  arch_assetName :: string
  arch_srcSubdir :: "string option"

record SkiaMetadata =
  repo :: string
  releaseTag :: string
  platform_name :: string
  androidArchs :: "AndroidArch list option"
  assetName :: "string option"
  libSubdir :: "string option"

text \<open>\<open>String.prototype.endsWith\<close>\<close>

definition endsWith :: "string \<Rightarrow> string \<Rightarrow> bool" where
  "endsWith s e = suffix e s"

text \<open>
  \<open>androidArchs.some((arch) => ...)\<close> in \<open>isInstalled\<close>: the first architecture
  whose directory lists a file ending in \<open>.a\<close> ends the search; \<open>readdirSync\<close>
  throws on a path that exists and is no directory.
\<close>

fun some_arch_installed :: "node \<Rightarrow> path \<Rightarrow> AndroidArch list \<Rightarrow> js_error + bool" where
  "some_arch_installed tree libsDir [] = Inr False"
| "some_arch_installed tree libsDir (a # rest) =
     (let archDir = libsDir @ [arch a] in
      if \<not> existsSync tree archDir then some_arch_installed tree libsDir rest
      else
        (case readdirSync tree archDir of
           Inl e \<Rightarrow> Inl e
         | Inr files \<Rightarrow>
             if list_ex (\<lambda>f. endsWith f ''.a'') files then Inr True
             else some_arch_installed tree libsDir rest))"

definition TypeError :: "string \<Rightarrow> js_error" where
  "TypeError msg = \<lparr>message = msg, statusCode = None, code = None\<rparr>"

definition isInstalled :: "SkiaMetadata \<Rightarrow> path \<Rightarrow> node \<Rightarrow> js_error + bool" where
  "isInstalled skia libsDir tree =
     (if \<not> existsSync tree libsDir then Inr False
      else
        (case readdirSync tree libsDir of
           Inl e \<Rightarrow> Inl e
         | Inr entries \<Rightarrow>
             if length entries = 0 then Inr False
             else if platform_name skia = ''android'' then
               (case androidArchs skia of
                  None \<Rightarrow> Inl (TypeError ''Cannot read properties of undefined (reading 'some')'')
                | Some archs \<Rightarrow> some_arch_installed tree libsDir archs)
             else if platform_name skia = ''apple''
               then Inr (list_ex (\<lambda>e. endsWith e ''.xcframework'') entries)
             else Inr (length entries > 0)))"

text \<open>\<open>downloadAndExtractAsset\<close> of postinstall.mjs.\<close>

definition downloadAndExtractAsset_postinstall ::
  "platform \<Rightarrow> SkiaMetadata \<Rightarrow> string \<Rightarrow> path \<Rightarrow> string option \<Rightarrow> world \<Rightarrow> unit outcome" where
  "downloadAndExtractAsset_postinstall pf skia name destDir subdir w =
     (case mkdtempSync pf (fs w) of
        Inl e \<Rightarrow> Some (Inl e, w)
      | Inr (tempDir, fs1) \<Rightarrow>
          (let downloadUrl = github_url (repo skia) (releaseTag skia) name;
               archivePath = tempDir @ [name];
               extractDir = tempDir @ [''extracted'']
           in with_cleanup tempDir
                (try_block (extractTarGz_postinstall pf) (place_contents pf extractDir destDir subdir)
                   downloadUrl archivePath extractDir (w\<lparr>fs := fs1\<rparr>))))"

text \<open>The loop of \<open>main\<close> over the Android architectures.\<close>

fun install_archs :: "platform \<Rightarrow> SkiaMetadata \<Rightarrow> path \<Rightarrow> AndroidArch list \<Rightarrow> world \<Rightarrow> unit outcome" where
  "install_archs pf skia libsDir [] w = Some (Inr (), w)"
| "install_archs pf skia libsDir (a # rest) w =
     (case downloadAndExtractAsset_postinstall pf skia (arch_assetName a) (libsDir @ [arch a])
             (arch_srcSubdir a) w of
        None \<Rightarrow> None
      | Some (Inl e, w1) \<Rightarrow> Some (Inl e, w1)
      | Some (Inr u, w1) \<Rightarrow> install_archs pf skia libsDir rest w1)"

text \<open>The \<open>try\<close> block of \<open>main\<close>.\<close>

definition main_try :: "platform \<Rightarrow> SkiaMetadata \<Rightarrow> path \<Rightarrow> world \<Rightarrow> unit outcome" where
  "main_try pf skia libsDir w =
     (let fs1 = (if existsSync (fs w) libsDir then rmSync (fs w) libsDir else fs w) in
      case mkdirSync fs1 libsDir of
        Inl e \<Rightarrow> Some (Inl e, w\<lparr>fs := fs1\<rparr>)
      | Inr fs2 \<Rightarrow>
          if platform_name skia = ''android'' \<and> androidArchs skia \<noteq> None
          then install_archs pf skia libsDir (the (androidArchs skia)) (w\<lparr>fs := fs2\<rparr>)
          else if truthy (assetName skia)
          then downloadAndExtractAsset_postinstall pf skia (the (assetName skia)) libsDir
                 (libSubdir skia) (w\<lparr>fs := fs2\<rparr>)
          else Some (Inr (), w\<lparr>fs := fs2\<rparr>))"

text \<open>
  \<open>main\<close>: the status the process ends with.  A failure removes the libs directory
  and exits with 1; a run that comes to its end exits with 0.
\<close>

definition main :: "platform \<Rightarrow> SkiaMetadata \<Rightarrow> path \<Rightarrow> world \<Rightarrow> (nat \<times> world) option" where
  "main pf skia libsDir w =
     (case main_try pf skia libsDir w of
        None \<Rightarrow> None
      | Some (Inr u, w1) \<Rightarrow> Some (0, w1)
      | Some (Inl error, w1) \<Rightarrow> Some (1, w1\<lparr>fs := rmSync (fs w1) libsDir\<rparr>))"

text \<open>
  The script from its first check on: the environment variable
  \<open>SKIP_SKIA_DOWNLOAD\<close>, \<open>isInstalled()\<close>, then \<open>main()\<close>.  An exception thrown by
  \<open>isInstalled\<close> is not caught and ends the process with status 1.
\<close>

definition postinstall ::
  "platform \<Rightarrow> string option \<Rightarrow> SkiaMetadata \<Rightarrow> path \<Rightarrow> world \<Rightarrow> (nat \<times> world) option" where
  "postinstall pf SKIP_SKIA_DOWNLOAD skia libsDir w =
     (if SKIP_SKIA_DOWNLOAD = Some ''1'' \<or> SKIP_SKIA_DOWNLOAD = Some ''true'' then Some (0, w)
      else
        (case isInstalled skia libsDir (fs w) of
           Inl e \<Rightarrow> Some (1, w)
         | Inr True \<Rightarrow> Some (0, w)
         | Inr False \<Rightarrow> main pf skia libsDir w))"

section \<open>Concrete runs\<close>

text \<open>
  The worlds the properties below are exercised in: a release host that answers
  with a given list of responses, and a file system holding a temporary directory
  and an output directory.
\<close>

definition respond :: "nat \<Rightarrow> string \<Rightarrow> string option \<Rightarrow> http_event" where
  "respond st msg loc =
     Response \<lparr>status = st, statusMessage = msg, location = loc, body = Finished ''archive''\<rparr>"

definition start :: "node \<Rightarrow> http_event list \<Rightarrow> world" where
  "start tree answers =
     \<lparr>fs = tree, net = answers, requests = [], attempts = 0, retries = [], spawned = []\<rparr>"

definition disk :: node where
  "disk = Dir [(''tmp'', Dir []), (''out'', Dir [])]"

text \<open>
  Platforms: a POSIX and a Windows machine, each with a given behaviour of spawned
  commands.  Reading a special file never returns unless said otherwise.
\<close>

definition posix :: "(string \<Rightarrow> string list \<Rightarrow> node \<Rightarrow> child_result \<times> node) \<Rightarrow> platform" where
  "posix sp =
     \<lparr>win32 = False, SystemRoot = None, tmpdir = [''tmp''], mkdtemp_suffix = (\<lambda>t. ''X''),
      spawn = sp, read_special = (\<lambda>n. None), max_depth = 16\<rparr>"

definition windows :: "(string \<Rightarrow> string list \<Rightarrow> node \<Rightarrow> child_result \<times> node) \<Rightarrow> platform" where
  "windows sp =
     \<lparr>win32 = True, SystemRoot = None, tmpdir = [''tmp''], mkdtemp_suffix = (\<lambda>t. ''X''),
      spawn = sp, read_special = (\<lambda>n. None), max_depth = 16\<rparr>"

text \<open>No command is installed.\<close>

definition no_tar :: "string \<Rightarrow> string list \<Rightarrow> node \<Rightarrow> child_result \<times> node" where
  "no_tar command args tree = (ChildError (sys_error ''ENOENT''), tree)"

text \<open>Only the command of the given name is installed; it succeeds and changes nothing.\<close>

definition only_command :: "string \<Rightarrow> string \<Rightarrow> string list \<Rightarrow> node \<Rightarrow> child_result \<times> node" where
  "only_command name command args tree =
     (if command = name then (ChildClosed (Some 0), tree)
      else (ChildError (sys_error ''ENOENT''), tree))"

text \<open>
  Every command succeeds and leaves the given entries in the extraction directory
  of the scratch directory \<open>/tmp/skia-download-X\<close>.
\<close>

definition tar_yields :: "(string \<times> node) list \<Rightarrow> string \<Rightarrow> string list \<Rightarrow> node \<Rightarrow> child_result \<times> node" where
  "tar_yields es command args tree =
     (ChildClosed (Some 0), put tree [''tmp'', ''skia-download-X'', ''extracted''] (Dir es))"

text \<open>
  Archive contents: two framework bundles; the same under \<open>wrapper/ios\<close>; the same
  under \<open>ios\<close> next to a second top-level entry; nothing at all; a regular file next
  to a named pipe, at the top level and one level down.
\<close>

definition ios_frameworks :: "(string \<times> node) list" where
  "ios_frameworks =
     [(''libskia.xcframework'', Dir [(''Info.plist'', File ''plist'')]),
      (''libsvg.xcframework'', Dir [])]"

definition wrapped_archive :: "(string \<times> node) list" where
  "wrapped_archive = [(''wrapper'', Dir [(''ios'', Dir ios_frameworks)])]"

definition flat_archive :: "(string \<times> node) list" where
  "flat_archive = [(''ios'', Dir ios_frameworks), (''README.md'', File ''readme'')]"

definition pipe_archive :: "(string \<times> node) list" where
  "pipe_archive = [(''a.txt'', File ''a''), (''pipe'', FIFO)]"

definition nested_pipe_archive :: "(string \<times> node) list" where
  "nested_pipe_archive = [(''lib'', Dir pipe_archive), (''README.md'', File ''readme'')]"

definition ok_response :: http_event where
  "ok_response = respond 200 ''OK'' None"

text \<open>The disk as it is once an archive with the given entries has been extracted.\<close>

definition extracted_disk :: "(string \<times> node) list \<Rightarrow> node" where
  "extracted_disk es =
     Dir [(''tmp'', Dir [(''skia-download-X'', Dir [(''extracted'', Dir es)])]), (''out'', Dir [])]"

definition scratch_extracted :: path where
  "scratch_extracted = [''tmp'', ''skia-download-X'', ''extracted'']"

text \<open>A POSIX machine on which reading any special file has the given outcome.\<close>

definition posix_reading ::
  "(js_error + string) option \<Rightarrow> (string \<Rightarrow> string list \<Rightarrow> node \<Rightarrow> child_result \<times> node) \<Rightarrow> platform" where
  "posix_reading r sp =
     \<lparr>win32 = False, SystemRoot = None, tmpdir = [''tmp''], mkdtemp_suffix = (\<lambda>t. ''X''),
      spawn = sp, read_special = (\<lambda>n. r), max_depth = 16\<rparr>"

definition headers_config :: ArchConfig where
  "headers_config = \<lparr>artifact = ''skia-graphite-headers'', destSubdir = '''', srcSubdir = ''''\<rparr>"

text \<open>
  An Android package with two architectures, and two states of its \<open>libs\<close>
  directory: only the second architecture installed; the same with a regular file
  where the first architecture's directory would be.
\<close>

definition android_package :: SkiaMetadata where
  "android_package =
     \<lparr>repo = ''shopify/react-native-skia'', releaseTag = ''skia-m144c'',
      platform_name = ''android'',
      androidArchs = Some [\<lparr>arch = ''armeabi-v7a'',
                             arch_assetName = ''skia-android-arm-skia-m144c.tar.gz'',
                             arch_srcSubdir = Some ''armeabi-v7a''\<rparr>,
                           \<lparr>arch = ''arm64-v8a'',
                             arch_assetName = ''skia-android-arm-64-skia-m144c.tar.gz'',
                             arch_srcSubdir = Some ''arm64-v8a''\<rparr>],
      assetName = None, libSubdir = None\<rparr>"

definition partly_installed :: node where
  "partly_installed =
     Dir [(''tmp'', Dir []),
          (''pkg'', Dir [(''libs'', Dir [(''arm64-v8a'', Dir [(''libskia.a'', File ''lib'')])])])]"

definition file_in_the_way :: node where
  "file_in_the_way =
     Dir [(''tmp'', Dir []),
          (''pkg'', Dir [(''libs'', Dir [(''armeabi-v7a'', File ''''),
                                         (''arm64-v8a'', Dir [(''libskia.a'', File ''lib'')])])])]"

section \<open>What a copy should leave behind\<close>

text \<open>
  For stating what \<open>copyDir\<close> produces: a tree without the special files below
  its root, the height of a tree (the recursion depth a copy of it needs), and
  trees whose directories hold each name once.
\<close>

fun strip :: "node \<Rightarrow> node"
  and strip_entries :: "(string \<times> node) list \<Rightarrow> (string \<times> node) list" where
  "strip (Dir es) = Dir (strip_entries es)"
| "strip (File bytes) = File bytes"
| "strip Socket = Socket"
| "strip FIFO = FIFO"
| "strip CharacterDevice = CharacterDevice"
| "strip BlockDevice = BlockDevice"
| "strip_entries [] = []"
| "strip_entries (e # es) =
     (if isSpecial (snd e) then strip_entries es else (fst e, strip (snd e)) # strip_entries es)"

fun height :: "node \<Rightarrow> nat"
  and height_entries :: "(string \<times> node) list \<Rightarrow> nat" where
  "height (Dir es) = Suc (height_entries es)"
| "height (File bytes) = 0"
| "height Socket = 0"
| "height FIFO = 0"
| "height CharacterDevice = 0"
| "height BlockDevice = 0"
| "height_entries [] = 0"
| "height_entries (e # es) = max (height (snd e)) (height_entries es)"

fun wf :: "node \<Rightarrow> bool"
  and wf_entries :: "(string \<times> node) list \<Rightarrow> bool" where
  "wf (Dir es) = (distinct (map fst es) \<and> wf_entries es)"
| "wf (File bytes) = True"
| "wf Socket = True"
| "wf FIFO = True"
| "wf CharacterDevice = True"
| "wf BlockDevice = True"
| "wf_entries [] = True"
| "wf_entries (e # es) = (wf (snd e) \<and> wf_entries es)"

section \<open>Properties of the version derivation\<close>

lemma show_nat_0: "show_nat 0 = ''0''"
  by code_simp

lemma lower_not_digit: "isLowerAZ l \<Longrightarrow> \<not> isDigit l"
  by (simp add: isLowerAZ_def isDigit_def)

lemma match_version_digits:
  assumes "ds \<noteq> []" and "list_all isDigit ds"
  shows "match_version (CHR ''m'' # ds) = Some (ds, None)"
proof -
  from assms(2) have tw: "takeWhile isDigit ds = ds" and dw: "dropWhile isDigit ds = []"
    by (simp_all add: list_all_iff)
  show ?thesis
    using assms(1) by (simp add: match_version_def tw dw)
qed

lemma match_version_letter:
  assumes "ds \<noteq> []" and "list_all isDigit ds" and "isLowerAZ l"
  shows "match_version (CHR ''m'' # ds @ [l]) = Some (ds, Some l)"
proof -
  from assms(2) have all: "\<forall>x\<in>set ds. isDigit x"
    by (simp add: list_all_iff)
  from assms(3) have nd: "\<not> isDigit l"
    by (rule lower_not_digit)
  from all nd have tw: "takeWhile isDigit (ds @ [l]) = ds"
    by (simp add: takeWhile_append2)
  from all nd have dw: "dropWhile isDigit (ds @ [l]) = [l]"
    by (simp add: dropWhile_append2)
  show ?thesis
    using assms(1,3) by (simp add: match_version_def tw dw)
qed

lemma match_version_shape:
  assumes "match_version s = Some (major, sfx)"
  shows "major \<noteq> [] \<and> list_all isDigit major \<and>
         ((sfx = None \<and> s = CHR ''m'' # major) \<or>
          (\<exists>l. sfx = Some l \<and> isLowerAZ l \<and> s = CHR ''m'' # major @ [l]))"
proof (cases s)
  case Nil
  with assms show ?thesis by (simp add: match_version_def)
next
  case (Cons c rest)
  define after where "after = dropWhile isDigit rest"
  have split: "rest = takeWhile isDigit rest @ after"
    by (simp add: after_def)
  have digits: "list_all isDigit (takeWhile isDigit rest)"
    by (simp add: list_all_iff) (meson set_takeWhileD)
  from assms Cons have c: "c = CHR ''m''" and major: "major = takeWhile isDigit rest"
    by (auto simp: match_version_def Let_def split: if_splits list.splits)
  from assms Cons have ne: "major \<noteq> []"
    by (auto simp: match_version_def Let_def split: if_splits list.splits)
  from digits major have dm: "list_all isDigit major"
    by simp
  from split major have split': "rest = major @ after"
    by simp
  from assms Cons c have
    "(after = [] \<and> sfx = None) \<or> (\<exists>l. after = [l] \<and> sfx = Some l \<and> isLowerAZ l)"
    by (auto simp: match_version_def Let_def after_def split: if_splits list.splits)
  then show ?thesis
  proof
    assume a: "after = [] \<and> sfx = None"
    with split' have "rest = major" by simp
    with a Cons c ne dm show ?thesis by simp
  next
    assume "\<exists>l. after = [l] \<and> sfx = Some l \<and> isLowerAZ l"
    then obtain l where l: "after = [l]" "sfx = Some l" "isLowerAZ l" by blast
    with split' have "rest = major @ [l]" by simp
    with l Cons c ne dm show ?thesis by simp
  qed
qed

text \<open>
  Claim C5.  \<open>deriveNpmVersion\<close> maps \<open>m<digits>\<close> to \<open><digits>.0.0\<close> and
  \<open>m<digits><letter>\<close>, for a letter \<open>a\<close> to \<open>z\<close>, to \<open><digits>.<index>.0\<close> where the index
  runs from 1 for \<open>a\<close> to 26 for \<open>z\<close>; every other string is rejected with the
  input-validation error.
\<close>

theorem deriveNpmVersion_contract:
  "(\<forall>ds. ds \<noteq> [] \<and> list_all isDigit ds \<longrightarrow>
      deriveNpmVersion (CHR ''m'' # ds) = Inr (ds @ ''.0.0'')) \<and>
   (\<forall>ds l. ds \<noteq> [] \<and> list_all isDigit ds \<and> isLowerAZ l \<longrightarrow>
      deriveNpmVersion (CHR ''m'' # ds @ [l]) =
        Inr (ds @ ''.'' @ show_nat ((of_char l :: nat) - (of_char CHR ''a'' :: nat) + 1) @ ''.0'') \<and>
      1 \<le> (of_char l :: nat) - (of_char CHR ''a'' :: nat) + 1 \<and> (of_char l :: nat) - (of_char CHR ''a'' :: nat) + 1 \<le> 26) \<and>
   (of_char CHR ''a'' :: nat) - (of_char CHR ''a'' :: nat) + 1 = 1 \<and> (of_char CHR ''z'' :: nat) - (of_char CHR ''a'' :: nat) + 1 = 26 \<and>
   (\<forall>s. \<not> (\<exists>ds. ds \<noteq> [] \<and> list_all isDigit ds \<and> s = CHR ''m'' # ds) \<and>
        \<not> (\<exists>ds l. ds \<noteq> [] \<and> list_all isDigit ds \<and> isLowerAZ l \<and> s = CHR ''m'' # ds @ [l]) \<longrightarrow>
      deriveNpmVersion s =
        Inl (Error (''Invalid skia version format: '' @ s @
                    ''. Expected format: m144 or m144a'')))"
proof (intro conjI allI impI)
  fix ds assume "ds \<noteq> [] \<and> list_all isDigit ds"
  then show "deriveNpmVersion (CHR ''m'' # ds) = Inr (ds @ ''.0.0'')"
    by (simp add: deriveNpmVersion_def match_version_digits show_nat_0)
next
  fix ds l assume "ds \<noteq> [] \<and> list_all isDigit ds \<and> isLowerAZ l"
  then show "deriveNpmVersion (CHR ''m'' # ds @ [l]) =
        Inr (ds @ ''.'' @ show_nat ((of_char l :: nat) - (of_char CHR ''a'' :: nat) + 1) @ ''.0'')"
    by (simp add: deriveNpmVersion_def match_version_letter)
next
  fix ds :: string and l assume "ds \<noteq> [] \<and> list_all isDigit ds \<and> isLowerAZ l"
  then show "1 \<le> (of_char l :: nat) - (of_char CHR ''a'' :: nat) + 1" by simp
next
  fix ds :: string and l assume "ds \<noteq> [] \<and> list_all isDigit ds \<and> isLowerAZ l"
  then show "(of_char l :: nat) - (of_char CHR ''a'' :: nat) + 1 \<le> 26"
    unfolding isLowerAZ_def by simp arith
next
  show "(of_char CHR ''a'' :: nat) - (of_char CHR ''a'' :: nat) + 1 = 1" by simp
next
  show "(of_char CHR ''z'' :: nat) - (of_char CHR ''a'' :: nat) + 1 = 26" by simp
next
  fix s
  assume no: "\<not> (\<exists>ds. ds \<noteq> [] \<and> list_all isDigit ds \<and> s = CHR ''m'' # ds) \<and>
        \<not> (\<exists>ds l. ds \<noteq> [] \<and> list_all isDigit ds \<and> isLowerAZ l \<and> s = CHR ''m'' # ds @ [l])"
  have "match_version s = None"
  proof (cases "match_version s")
    case None
    then show ?thesis .
  next
    case (Some r)
    obtain major sfx where "r = (major, sfx)" by (cases r)
    with Some have "match_version s = Some (major, sfx)" by simp
    from match_version_shape [OF this] no show ?thesis by blast
  qed
  then show "deriveNpmVersion s =
        Inl (Error (''Invalid skia version format: '' @ s @
                    ''. Expected format: m144 or m144a''))"
    by (simp add: deriveNpmVersion_def)
qed

theorem deriveNpmVersion_contract_witness:
  "deriveNpmVersion ''m144'' = Inr ''144.0.0'' \<and>
   deriveNpmVersion ''m144a'' = Inr ''144.1.0'' \<and>
   deriveNpmVersion ''m144c'' = Inr ''144.3.0'' \<and>
   deriveNpmVersion ''m144z'' = Inr ''144.26.0'' \<and>
   deriveNpmVersion ''144'' =
     Inl (Error ''Invalid skia version format: 144. Expected format: m144 or m144a'')"
proof -
  note plain = deriveNpmVersion_contract [THEN conjunct1, rule_format]
  note lettered = deriveNpmVersion_contract [THEN conjunct2, THEN conjunct1, rule_format]
  note other = deriveNpmVersion_contract
    [THEN conjunct2, THEN conjunct2, THEN conjunct2, THEN conjunct2, rule_format]
  have d: "''144'' \<noteq> [] \<and> list_all isDigit ''144''"
    by (simp add: isDigit_def)
  have la: "''144'' \<noteq> [] \<and> list_all isDigit ''144'' \<and> isLowerAZ CHR ''a''"
    and lc: "''144'' \<noteq> [] \<and> list_all isDigit ''144'' \<and> isLowerAZ CHR ''c''"
    and lz: "''144'' \<noteq> [] \<and> list_all isDigit ''144'' \<and> isLowerAZ CHR ''z''"
    by (simp_all add: isLowerAZ_def isDigit_def)
  have sn: "show_nat 1 = ''1''" "show_nat 3 = ''3''" "show_nat 26 = ''26''"
    by code_simp+
  have 1: "deriveNpmVersion ''m144'' = Inr ''144.0.0''"
    using plain [OF d] by simp
  have 2: "deriveNpmVersion ''m144a'' = Inr ''144.1.0''"
    using lettered [OF la, THEN conjunct1] sn by simp
  have 3: "deriveNpmVersion ''m144c'' = Inr ''144.3.0''"
    using lettered [OF lc, THEN conjunct1] sn by simp
  have 4: "deriveNpmVersion ''m144z'' = Inr ''144.26.0''"
    using lettered [OF lz, THEN conjunct1] sn by simp
  have no: "\<not> (\<exists>ds. ds \<noteq> [] \<and> list_all isDigit ds \<and> ''144'' = CHR ''m'' # ds) \<and>
        \<not> (\<exists>ds l. ds \<noteq> [] \<and> list_all isDigit ds \<and> isLowerAZ l \<and> ''144'' = CHR ''m'' # ds @ [l])"
    by simp
  have 5: "deriveNpmVersion ''144'' =
     Inl (Error ''Invalid skia version format: 144. Expected format: m144 or m144a'')"
    using other [OF no] by simp
  from 1 2 3 4 5 show ?thesis by simp
qed

section \<open>Properties of the file system\<close>

lemma lookup_append:
  "lookup t (p @ q) = (case lookup t p of None \<Rightarrow> None | Some n \<Rightarrow> lookup n q)"
  by (induction t p rule: lookup.induct) (simp_all split: option.splits)

lemma lookup_remove_same: "p \<noteq> [] \<Longrightarrow> lookup (remove t p) p = None"
  by (induction t p rule: remove.induct)
     (simp_all add: delete_conv' update_conv' split: option.splits)

lemma lookup_put_same:
  "p \<noteq> [] \<Longrightarrow> lookup t (butlast p) = Some (Dir es) \<Longrightarrow> lookup (put t p v) p = Some v"
proof (induction p arbitrary: t)
  case Nil
  then show ?case by simp
next
  case (Cons x p)
  show ?case
  proof (cases p)
    case Nil
    with Cons.prems show ?thesis
      by (cases t) (simp_all add: update_conv' split: option.splits)
  next
    case (Cons y q)
    with Cons.prems obtain ds c where t: "t = Dir ds" "map_of ds x = Some c"
      "lookup c (butlast p) = Some (Dir es)"
      by (cases t) (auto split: option.splits)
    with Cons.IH [of c] Cons show ?thesis
      by (simp add: update_conv')
  qed
qed

lemma update_absent: "map_of ds n = None \<Longrightarrow> AList.update n v ds = ds @ [(n, v)]"
  by (induction ds) (auto split: if_splits)

lemma lookup_put_other:
  "\<not> prefix q p \<Longrightarrow> \<not> prefix p q \<Longrightarrow> lookup (put t q v) p = lookup t p"
proof (induction t q v arbitrary: p rule: put.induct)
  case (1 n v)
  then show ?case by simp
next
  case (2 es x q v)
  from "2.prems" obtain y p' where p: "p = y # p'"
    by (cases p) auto
  show ?case
  proof (cases "map_of es x")
    case None
    with "2.prems" p show ?thesis
      by (auto simp: update_conv')
  next
    case (Some c)
    show ?thesis
    proof (cases "y = x")
      case True
      with "2.prems" p have "\<not> prefix q p'" "\<not> prefix p' q" by simp_all
      from "2.IH" [OF Some this] Some True p show ?thesis
        by (simp add: update_conv')
    next
      case False
      with Some p show ?thesis by (simp add: update_conv')
    qed
  qed
qed simp_all

lemma put_put_same: "put (put t p a) p b = put t p b"
  by (induction t p a rule: put.induct) (auto simp: update_conv' split: option.splits)

lemma put_put_child: "put (put t (p @ [n]) v) p u = put t p u"
  by (induction t p u rule: put.induct) (auto simp: update_conv' split: option.splits)

lemma lookup_put_child:
  "lookup t p = Some (Dir ds) \<Longrightarrow> map_of ds n = None \<Longrightarrow>
   lookup (put t (p @ [n]) v) p = Some (Dir (ds @ [(n, v)]))"
proof (induction t p arbitrary: ds rule: lookup.induct)
  case (1 t)
  then show ?case by (simp add: update_absent)
next
  case (2 es x p)
  then show ?case by (auto simp: update_conv' split: option.splits)
qed simp_all

lemma mkdirSync_fresh:
  "dest \<noteq> [] \<Longrightarrow> lookup t dest = None \<Longrightarrow> lookup t (butlast dest) = Some (Dir ps) \<Longrightarrow>
   mkdirSync t dest = Inr (put t dest (Dir []))"
proof (induction dest arbitrary: t)
  case Nil
  then show ?case by simp
next
  case (Cons x p)
  show ?case
  proof (cases p)
    case Nil
    with Cons.prems show ?thesis
      by (cases t) (auto split: option.splits)
  next
    case (Cons y q)
    with Cons.prems obtain es c where t: "t = Dir es" "map_of es x = Some c"
      "lookup c p = None" "lookup c (butlast p) = Some (Dir ps)"
      by (cases t) (auto split: option.splits)
    with Cons.IH [of c] Cons show ?thesis
      by simp
  qed
qed

lemma mkdirSync_existing: "lookup t dest = Some (Dir ds) \<Longrightarrow> mkdirSync t dest = Inr t"
proof (induction t dest rule: mkdirSync.induct)
  case (1 es)
  then show ?case by simp
next
  case (3 es x p)
  then show ?case by (auto simp: update_triv split: option.splits)
qed simp_all

lemma strip_entries_append: "strip_entries (xs @ ys) = strip_entries xs @ strip_entries ys"
  by (induction xs) simp_all

lemma strip_entries_keys: "fst ` set (strip_entries es) \<subseteq> fst ` set es"
  by (induction es) auto

lemma map_of_strip_entries_None:
  "n \<notin> fst ` set es \<Longrightarrow> map_of (strip_entries es) n = None"
  using strip_entries_keys [of es] by (auto simp: map_of_eq_None_iff)

lemma map_of_middle:
  "n \<notin> fst ` set xs \<Longrightarrow> map_of (xs @ (n, c) # ys) n = Some c"
  by (simp add: map_of_append map_add_def map_of_eq_None_iff [THEN iffD2] split: option.splits)

lemma lookup_child:
  "lookup t p = Some (Dir es) \<Longrightarrow> lookup t (p @ [n]) = map_of es n"
  by (simp add: lookup_append split: option.splits)

lemma not_prefix_child:
  "\<not> prefix a b \<Longrightarrow> \<not> prefix b a \<Longrightarrow> \<not> prefix (a @ [n]) (b @ [m]) \<and> \<not> prefix (a @ [n]) b \<and> \<not> prefix a (b @ [m])"
  by (auto simp: prefix_def append_eq_append_conv2 Cons_eq_append_conv append_eq_Cons_conv)

lemma copyFileSync_fresh:
  "lookup t src = Some (File bytes) \<Longrightarrow> lookup t dest = Some (Dir ds) \<Longrightarrow> map_of ds n = None \<Longrightarrow>
   copyFileSync rd t src (dest @ [n]) = Some (Inr (), put t (dest @ [n]) (File bytes))"
  by (simp add: copyFileSync_def writeFile_def dirname_def lookup_child)

lemma put_lookup_id: "lookup t p = Some v \<Longrightarrow> put t p v = t"
  by (induction t p v rule: put.induct) (auto simp: update_triv split: option.splits)

lemma copyDir_fresh_both:
  "(\<forall>es ps. lookup t src = Some (Dir es) \<longrightarrow> wf (Dir es) \<longrightarrow> height (Dir es) \<le> fuel \<longrightarrow>
       dest \<noteq> [] \<longrightarrow> lookup t dest = None \<longrightarrow> lookup t (butlast dest) = Some (Dir ps) \<longrightarrow>
       \<not> prefix src dest \<longrightarrow> \<not> prefix dest src \<longrightarrow>
       copyDir rd fuel t src dest = Some (Inr (), put t dest (strip (Dir es))))"
  "(\<forall>done. lookup t' src' = Some (Dir (done @ entries)) \<longrightarrow> distinct (map fst (done @ entries)) \<longrightarrow>
       wf_entries entries \<longrightarrow> height_entries entries \<le> depth \<longrightarrow>
       lookup t' dest' = Some (Dir (strip_entries done)) \<longrightarrow>
       \<not> prefix src' dest' \<longrightarrow> \<not> prefix dest' src' \<longrightarrow>
       copyDir_entries rd' depth t' src' dest' entries =
         Some (Inr (), put t' dest' (Dir (strip_entries (done @ entries)))))"
proof (induction rd fuel t src dest and rd' depth t' src' dest' entries
    rule: copyDir_copyDir_entries.induct)
  case (1 rd fs src dest)
  show ?case by simp
next
  case (2 rd depth t src dest)
  show ?case
  proof (intro allI impI)
    fix es ps
    assume src: "lookup t src = Some (Dir es)" and wf: "wf (Dir es)"
      and h: "height (Dir es) \<le> Suc depth" and ne: "dest \<noteq> []"
      and fresh: "lookup t dest = None" and parent: "lookup t (butlast dest) = Some (Dir ps)"
      and d1: "\<not> prefix src dest" and d2: "\<not> prefix dest src"
    let ?t1 = "put t dest (Dir [])"
    have mk: "mkdirSync t dest = Inr ?t1"
      using ne fresh parent by (rule mkdirSync_fresh)
    have src1: "lookup ?t1 src = Some (Dir es)"
      using src d1 d2 by (simp add: lookup_put_other)
    then have rd1: "readdirSync_withFileTypes ?t1 src = Inr es"
      by (simp add: readdirSync_withFileTypes_def)
    have dest1: "lookup ?t1 dest = Some (Dir (strip_entries []))"
      using lookup_put_same [OF ne parent] by simp
    from "2.IH" [OF mk rd1, rule_format, of "[]"] src1 wf h dest1 d1 d2
    have "copyDir_entries rd depth ?t1 src dest es =
        Some (Inr (), put ?t1 dest (Dir (strip_entries es)))"
      by simp
    with mk rd1 show "copyDir rd (Suc depth) t src dest = Some (Inr (), put t dest (strip (Dir es)))"
      by (simp add: put_put_same)
  qed
next
  case (3 rd depth t src dest)
  show ?case by (simp add: put_lookup_id)
next
  case (4 rd depth t src dest entry entries)
  show ?case
  proof (intro allI impI)
    fix "done"
    assume src: "lookup t src = Some (Dir (done @ entry # entries))"
      and dist: "distinct (map fst (done @ entry # entries))"
      and wf: "wf_entries (entry # entries)"
      and h: "height_entries (entry # entries) \<le> depth"
      and dest: "lookup t dest = Some (Dir (strip_entries done))"
      and d1: "\<not> prefix src dest" and d2: "\<not> prefix dest src"
    obtain n c where entry: "entry = (n, c)" by (cases entry)
    from dist entry have n_new: "n \<notin> fst ` set done"
      by auto
    have "map_of (done @ (n, c) # entries) n = Some c"
      using n_new by (rule map_of_middle)
    with src entry have child: "lookup t (src @ [n]) = Some c"
      using lookup_child [of t src "done @ (n, c) # entries" n] by simp
    then have lst: "lstatSync t (src @ [fst entry]) = Inr c"
      by (simp add: lstatSync_def entry)
    have absent: "map_of (strip_entries done) n = None"
      using n_new by (rule map_of_strip_entries_None)
    have dist': "distinct (map fst ((done @ [entry]) @ entries))"
      using dist by simp
    from wf have wf': "wf_entries entries" by simp
    from h have h': "height_entries entries \<le> depth" by simp
    show "copyDir_entries rd depth t src dest (entry # entries) =
        Some (Inr (), put t dest (Dir (strip_entries (done @ entry # entries))))"
    proof (cases "isSpecial c")
      case True
      have "copyDir_entries rd depth t src dest entries =
          Some (Inr (), put t dest (Dir (strip_entries ((done @ [entry]) @ entries))))"
        using "4.IH"(1) [OF refl refl lst True, rule_format, of "done @ [entry]"]
          src dist' wf' h' dest d1 d2 True entry
        by (simp add: strip_entries_append)
      with lst True show ?thesis
        by (simp add: Let_def)
    next
      case False
      let ?t1 = "put t (dest @ [n]) (strip c)"
      have step: "(if isDirectory (snd entry) then copyDir rd depth t (src @ [fst entry]) (dest @ [fst entry])
             else copyFileSync rd t (src @ [fst entry]) (dest @ [fst entry])) = Some (Inr (), ?t1)"
      proof (cases c)
        case (Dir cs)
        from wf entry Dir have wfc: "wf (Dir cs)" by simp
        from h entry Dir have hc: "height (Dir cs) \<le> depth" by simp
        have fresh: "lookup t (dest @ [n]) = None"
          using dest absent by (simp add: lookup_child)
        have parent: "lookup t (butlast (dest @ [n])) = Some (Dir (strip_entries done))"
          using dest by simp
        from not_prefix_child [OF d1 d2, of n n]
        have dd: "\<not> prefix (src @ [n]) (dest @ [n])" by simp
        from not_prefix_child [OF d2 d1, of n n]
        have dd': "\<not> prefix (dest @ [n]) (src @ [n])" by simp
        have "copyDir rd depth t (src @ [n]) (dest @ [n]) =
            Some (Inr (), put t (dest @ [n]) (strip (Dir cs)))"
          using "4.IH"(2) [OF refl refl lst False, rule_format, of cs "strip_entries done"]
            entry Dir child wfc hc fresh parent dd dd'
          by simp
        with entry Dir show ?thesis by simp
      next
        case (File bytes)
        with entry child dest absent show ?thesis
          by (simp add: copyFileSync_fresh)
      qed (use False in simp_all)
      have src1: "lookup ?t1 src = Some (Dir ((done @ [entry]) @ entries))"
        using src not_prefix_child [OF d2 d1, of n n] not_prefix_child [OF d1 d2, of n n]
        by (simp add: lookup_put_other)
      have dest1: "lookup ?t1 dest = Some (Dir (strip_entries (done @ [entry])))"
        using lookup_put_child [OF dest absent, of "strip c"] False entry
        by (simp add: strip_entries_append)
      have "copyDir_entries rd depth ?t1 src dest entries =
          Some (Inr (), put ?t1 dest (Dir (strip_entries ((done @ [entry]) @ entries))))"
        using "4.IH"(3) [OF refl refl lst False step refl refl, rule_format, of "done @ [entry]"]
          src1 dist' wf' h' dest1 d1 d2
        by simp
      with lst False step show ?thesis
        by (simp add: Let_def put_put_child)
    qed
  qed
qed

lemma copyDir_fresh:
  assumes "lookup t src = Some (Dir es)" and "wf (Dir es)" and "height (Dir es) \<le> fuel"
    and "dest \<noteq> []" and "lookup t dest = None" and "lookup t (butlast dest) = Some (Dir ps)"
    and "\<not> prefix src dest" and "\<not> prefix dest src"
  shows "copyDir rd fuel t src dest = Some (Inr (), put t dest (strip (Dir es)))"
  using copyDir_fresh_both(1) [of t src fuel dest rd] assms by blast

lemma copy_items_fresh:
  "lookup t sourceDir = Some (Dir (done @ todo)) \<Longrightarrow> distinct (map fst (done @ todo)) \<Longrightarrow>
   wf_entries todo \<Longrightarrow> height_entries todo \<le> max_depth pf \<Longrightarrow>
   list_all (\<lambda>e. \<not> isSpecial (snd e)) todo \<Longrightarrow>
   lookup t destDir = Some (Dir (strip_entries done)) \<Longrightarrow>
   \<not> prefix sourceDir destDir \<Longrightarrow> \<not> prefix destDir sourceDir \<Longrightarrow>
   copy_items pf sourceDir destDir (map fst todo) t =
     Some (Inr (), put t destDir (Dir (strip_entries (done @ todo))))"
proof (induction todo arbitrary: t "done")
  case Nil
  then show ?case by (simp add: put_lookup_id)
next
  case (Cons entry todo)
  obtain n c where entry: "entry = (n, c)" by (cases entry)
  from Cons.prems(2) entry have n_new: "n \<notin> fst ` set done"
    by auto
  have "map_of (done @ (n, c) # todo) n = Some c"
    using n_new by (rule map_of_middle)
  with Cons.prems(1) entry have child: "lookup t (sourceDir @ [n]) = Some c"
    using lookup_child [of t sourceDir "done @ (n, c) # todo" n] by simp
  then have st: "statSync t (sourceDir @ [n]) = Inr c"
    by (simp add: statSync_def)
  have absent: "map_of (strip_entries done) n = None"
    using n_new by (rule map_of_strip_entries_None)
  from Cons.prems(5) entry have plain: "\<not> isSpecial c" by simp
  note d1 = Cons.prems(7) and d2 = Cons.prems(8)
  let ?t1 = "put t (destDir @ [n]) (strip c)"
  have step: "(if isDirectory c
               then copyDir (read_special pf) (max_depth pf) t (sourceDir @ [n]) (destDir @ [n])
               else copyFileSync (read_special pf) t (sourceDir @ [n]) (destDir @ [n])) =
      Some (Inr (), ?t1)"
  proof (cases c)
    case (Dir cs)
    from Cons.prems(3) entry Dir have wfc: "wf (Dir cs)" by simp
    from Cons.prems(4) entry Dir have hc: "height (Dir cs) \<le> max_depth pf" by simp
    have fresh: "lookup t (destDir @ [n]) = None"
      using Cons.prems(6) absent by (simp add: lookup_child)
    have parent: "lookup t (butlast (destDir @ [n])) = Some (Dir (strip_entries done))"
      using Cons.prems(6) by simp
    from not_prefix_child [OF d1 d2, of n n]
    have dd: "\<not> prefix (sourceDir @ [n]) (destDir @ [n])" by simp
    from not_prefix_child [OF d2 d1, of n n]
    have dd': "\<not> prefix (destDir @ [n]) (sourceDir @ [n])" by simp
    have "copyDir (read_special pf) (max_depth pf) t (sourceDir @ [n]) (destDir @ [n]) =
        Some (Inr (), put t (destDir @ [n]) (strip (Dir cs)))"
      using child Dir wfc hc fresh parent dd dd'
      by (intro copyDir_fresh) simp_all
    with Dir show ?thesis by simp
  next
    case (File bytes)
    with child Cons.prems(6) absent show ?thesis
      by (simp add: copyFileSync_fresh)
  qed (use plain in simp_all)
  have src1: "lookup ?t1 sourceDir = Some (Dir ((done @ [entry]) @ todo))"
    using Cons.prems(1) not_prefix_child [OF d2 d1, of n n] not_prefix_child [OF d1 d2, of n n]
    by (simp add: lookup_put_other)
  have dest1: "lookup ?t1 destDir = Some (Dir (strip_entries (done @ [entry])))"
    using lookup_put_child [OF Cons.prems(6) absent, of "strip c"] plain entry
    by (simp add: strip_entries_append)
  have "copy_items pf sourceDir destDir (map fst todo) ?t1 =
      Some (Inr (), put ?t1 destDir (Dir (strip_entries ((done @ [entry]) @ todo))))"
  proof (rule Cons.IH [OF src1 _ _ _ _ dest1 d1 d2])
    from Cons.prems(2) show "distinct (map fst ((done @ [entry]) @ todo))" by simp
    from Cons.prems(3) show "wf_entries todo" by simp
    from Cons.prems(4) show "height_entries todo \<le> max_depth pf" by simp
    from Cons.prems(5) show "list_all (\<lambda>e. \<not> isSpecial (snd e)) todo" by simp
  qed
  with st step entry show ?case
    by (simp add: Let_def put_put_child)
qed

lemma lookup_put_same':
  "lookup t p \<noteq> None \<or> (p \<noteq> [] \<and> (\<exists>es. lookup t (butlast p) = Some (Dir es))) \<Longrightarrow>
   lookup (put t p v) p = Some v"
proof (induction t p v rule: put.induct)
  case (1 n v)
  then show ?case by simp
next
  case (2 es x p v)
  then show ?case
    by (cases p) (auto simp: update_conv' split: option.splits)
qed (auto split: if_splits)

lemma not_prefix_append:
  "\<not> prefix a b \<Longrightarrow> \<not> prefix b a \<Longrightarrow> \<not> prefix (a @ x) b \<and> \<not> prefix b (a @ x)"
  by (auto simp: prefix_append dest: append_prefixD)

lemma strip_entries_plain_keys:
  "list_all (\<lambda>e. \<not> isSpecial (snd e)) es \<Longrightarrow> map fst (strip_entries es) = map fst es"
  by (induction es) simp_all

section \<open>Properties of downloadToFile\<close>

lemma shouldRetry_iff: "shouldRetry m k e = (k < m \<and> retryable e)"
  by (auto simp: shouldRetry_def isRateLimit_def retryable_def)

lemma request_thrown:
  "request destPath currentUrl w = Inl (e, w') \<Longrightarrow>
     \<exists>evs. net w = GetThrows e # evs \<and> w' = w\<lparr>net := evs\<rparr>"
  by (auto simp: request.simps [of destPath currentUrl w] Let_def
      split: list.splits http_event.splits if_splits body_outcome.splits sum.splits)

lemma request_accepted:
  "accepted (net w) \<Longrightarrow> \<exists>promise. request destPath currentUrl w = Inr promise"
proof (cases "request destPath currentUrl w")
  case (Inl thrown)
  assume acc: "accepted (net w)"
  obtain e w' where "thrown = (e, w')" by (cases thrown)
  with Inl have "\<exists>evs. net w = GetThrows e # evs \<and> w' = w\<lparr>net := evs\<rparr>"
    by (intro request_thrown) simp
  with acc show ?thesis by auto
next
  case (Inr promise)
  then show ?thesis by simp
qed

lemma request_log:
  "request destPath currentUrl w = Inr (Some (r, w')) \<Longrightarrow>
     retries w' = retries w \<and> attempts w' = attempts w \<and> spawned w' = spawned w \<and>
     prefix (requests w @ [currentUrl]) (requests w')"
proof (induction destPath currentUrl w rule: request.induct)
  case (1 destPath currentUrl w)
  show ?case
  proof (cases "net w")
    case Nil
    with "1.prems" show ?thesis by (simp add: request.simps)
  next
    case (Cons ev evs)
    define w1 where "w1 = w\<lparr>net := evs, requests := requests w @ [currentUrl]\<rparr>"
    have keep: "retries w1 = retries w" "attempts w1 = attempts w" "spawned w1 = spawned w"
      "requests w1 = requests w @ [currentUrl]"
      by (simp_all add: w1_def)
    show ?thesis
    proof (cases ev)
      case (GetThrows e)
      with "1.prems" Cons show ?thesis
        by (simp add: request.simps)
    next
      case (RequestError e)
      with "1.prems" Cons show ?thesis
        by (auto simp: request.simps)
    next
      case (Response res)
      show ?thesis
      proof (cases "is_redirect (status res) \<and> truthy (location res)")
        case True
        with "1.prems" Cons Response
        have "request destPath (the (location res)) w1 = Inr (Some (r, w'))"
          by (simp add: request.simps [of destPath currentUrl w] w1_def split: sum.splits)
        from "1.IH" [OF Cons w1_def Response _ _ this] True
        have "retries w' = retries w1 \<and> attempts w' = attempts w1 \<and> spawned w' = spawned w1 \<and>
          prefix (requests w1 @ [the (location res)]) (requests w')"
          by simp
        moreover from this keep
        have "prefix ((requests w @ [currentUrl]) @ [the (location res)]) (requests w')"
          by simp
        then have "prefix (requests w @ [currentUrl]) (requests w')"
          by (rule append_prefixD)
        ultimately show ?thesis
          using keep by simp
      next
        case False
        with "1.prems" Cons Response show ?thesis
          by (auto simp: request.simps [of destPath currentUrl w] Let_def
              split: if_splits body_outcome.splits sum.splits)
      qed
    qed
  qed
qed

lemma attemptDownload_log:
  "attemptDownload url destPath w = Some (r, w') \<Longrightarrow>
     retries w' = retries w \<and> attempts w' = attempts w + 1 \<and> spawned w' = spawned w"
proof (cases "request destPath url (w\<lparr>attempts := attempts w + 1\<rparr>)")
  case (Inl thrown)
  assume att: "attemptDownload url destPath w = Some (r, w')"
  obtain e w1 where th: "thrown = (e, w1)" by (cases thrown)
  with Inl att have "w' = w1"
    by (simp add: attemptDownload_def)
  moreover from Inl th
  have "\<exists>evs. net (w\<lparr>attempts := attempts w + 1\<rparr>) = GetThrows e # evs \<and>
      w1 = w\<lparr>attempts := attempts w + 1\<rparr>\<lparr>net := evs\<rparr>"
    by (intro request_thrown) simp
  ultimately show ?thesis by auto
next
  case (Inr promise)
  assume att: "attemptDownload url destPath w = Some (r, w')"
  with Inr have "request destPath url (w\<lparr>attempts := attempts w + 1\<rparr>) = Inr (Some (r, w'))"
    by (simp add: attemptDownload_def)
  from request_log [OF this] show ?thesis by simp
qed

lemma downloadWithRetry_log:
  "downloadWithRetry url destPath m k w = Some (r, w') \<Longrightarrow>
     \<exists>new. retries w' = retries w @ new \<and> length new \<le> m - k \<and>
           (\<forall>i<length new. retryable (fst (new ! i)) \<and> snd (new ! i) = 2 ^ (k + i) * 1000) \<and>
           attempts w' = attempts w + length new + 1"
proof (induction url destPath m k w rule: downloadWithRetry.induct)
  case (1 url destPath maxRetries retryCount w)
  from "1.prems" obtain a w1 where att: "attemptDownload url destPath w = Some (a, w1)"
    by (auto simp: downloadWithRetry.simps [of url destPath maxRetries retryCount w]
        split: option.splits)
  note log = attemptDownload_log [OF att]
  show ?case
  proof (cases a)
    case (Inr u)
    with "1.prems" att have "w' = w1"
      by (simp add: downloadWithRetry.simps [of url destPath maxRetries retryCount w])
    with log show ?thesis by simp
  next
    case (Inl error)
    show ?thesis
    proof (cases "shouldRetry maxRetries retryCount error")
      case False
      with "1.prems" att Inl have "w' = w1"
        by (simp add: downloadWithRetry.simps [of url destPath maxRetries retryCount w])
      with log show ?thesis by simp
    next
      case True
      define delay :: nat where "delay = 2 ^ retryCount * 1000"
      define w2 where "w2 = w1\<lparr>retries := retries w1 @ [(error, delay)]\<rparr>"
      from "1.prems" att Inl True
      have rec: "downloadWithRetry url destPath maxRetries (retryCount + 1) w2 = Some (r, w')"
        by (simp add: downloadWithRetry.simps [of url destPath maxRetries retryCount w]
            w2_def delay_def)
      from att Inl have att': "attemptDownload url destPath w = Some (Inl error, w1)"
        by simp
      from "1.IH" [OF att' refl refl True delay_def] rec
      obtain new where new: "retries w' = retries w2 @ new" "length new \<le> maxRetries - (retryCount + 1)"
        "\<forall>i<length new. retryable (fst (new ! i)) \<and> snd (new ! i) = 2 ^ (retryCount + 1 + i) * 1000"
        "attempts w' = attempts w2 + length new + 1"
        by (auto simp: w2_def)
      from True have lt: "retryCount < maxRetries" and re: "retryable error"
        by (simp_all add: shouldRetry_iff)
      let ?all = "(error, delay) # new"
      have 1: "retries w' = retries w @ ?all"
        using new(1) log by (simp add: w2_def)
      have 2: "length ?all \<le> maxRetries - retryCount"
        using new(2) lt by simp
      have 3: "\<forall>i<length ?all. retryable (fst (?all ! i)) \<and> snd (?all ! i) = 2 ^ (retryCount + i) * 1000"
      proof (intro allI impI)
        fix i assume "i < length ?all"
        then show "retryable (fst (?all ! i)) \<and> snd (?all ! i) = 2 ^ (retryCount + i) * 1000"
          using new(3) re by (cases i) (simp_all add: delay_def)
      qed
      have 4: "attempts w' = attempts w + length ?all + 1"
        using new(4) log by (simp add: w2_def)
      from 1 2 3 4 show ?thesis by blast
    qed
  qed
qed


lemma is_redirect_iff: "is_redirect s \<longleftrightarrow> s \<in> {301, 302, 303, 307, 308}"
  by (auto simp: is_redirect_def)

lemma request_GetThrows:
  "net w = GetThrows e # rest \<Longrightarrow>
   request destPath currentUrl w = Inl (e, w\<lparr>net := rest\<rparr>)"
  by (simp add: request.simps [of destPath currentUrl w])

lemma request_RequestError:
  "net w = RequestError e # rest \<Longrightarrow>
   request destPath currentUrl w =
     Inr (Some (Inl e, w\<lparr>net := rest, requests := requests w @ [currentUrl]\<rparr>))"
  by (simp add: request.simps [of destPath currentUrl w])

lemma request_status_error:
  "net w = Response res # rest \<Longrightarrow> \<not> is_redirect (status res) \<Longrightarrow> status res \<noteq> 200 \<Longrightarrow>
   request destPath currentUrl w =
     Inr (Some (Inl (status_error res), w\<lparr>net := rest, requests := requests w @ [currentUrl]\<rparr>))"
  by (simp add: request.simps [of destPath currentUrl w])

lemma request_redirect:
  "net w = Response res # rest \<Longrightarrow> is_redirect (status res) \<Longrightarrow> truthy (location res) \<Longrightarrow>
   accepted rest \<Longrightarrow>
   request destPath currentUrl w =
     request destPath (the (location res)) (w\<lparr>net := rest, requests := requests w @ [currentUrl]\<rparr>)"
  using request_accepted [of "w\<lparr>net := rest, requests := requests w @ [currentUrl]\<rparr>"
      destPath "the (location res)"]
  by (auto simp: request.simps [of destPath currentUrl w])

lemma request_redirect_refused:
  "net w = Response res # GetThrows e # rest \<Longrightarrow> is_redirect (status res) \<Longrightarrow>
   truthy (location res) \<Longrightarrow>
   request destPath currentUrl w = Inr None"
  by (simp add: request.simps [of destPath currentUrl w] request_GetThrows)

lemma request_redirect_without_location:
  "net w = Response res # rest \<Longrightarrow> is_redirect (status res) \<Longrightarrow> \<not> truthy (location res) \<Longrightarrow>
   request destPath currentUrl w =
     Inr (Some (Inl (Error (''Redirect without location for '' @ currentUrl)),
           w\<lparr>net := rest, requests := requests w @ [currentUrl]\<rparr>))"
  by (simp add: request.simps [of destPath currentUrl w])

lemma request_finished:
  "net w = Response res # rest \<Longrightarrow> status res = 200 \<Longrightarrow> body res = Finished bytes \<Longrightarrow>
   writeFile (fs w) destPath bytes = Inr fs1 \<Longrightarrow>
   request destPath currentUrl w =
     Inr (Some (Inr (), w\<lparr>net := rest, requests := requests w @ [currentUrl], fs := fs1\<rparr>))"
  by (simp add: request.simps [of destPath currentUrl w] is_redirect_def)

lemma downloadWithRetry_resolved:
  "attemptDownload url destPath w = Some (Inr u, w1) \<Longrightarrow>
   downloadWithRetry url destPath m k w = Some (Inr u, w1)"
  by (simp add: downloadWithRetry.simps [of url destPath m k w])

lemma downloadWithRetry_rejected:
  "attemptDownload url destPath w = Some (Inl e, w1) \<Longrightarrow> \<not> (k < m \<and> retryable e) \<Longrightarrow>
   downloadWithRetry url destPath m k w = Some (Inl e, w1)"
  by (auto simp: downloadWithRetry.simps [of url destPath m k w] shouldRetry_iff)

lemma downloadWithRetry_retry:
  "attemptDownload url destPath w = Some (Inl e, w1) \<Longrightarrow> k < m \<Longrightarrow> retryable e \<Longrightarrow>
   downloadWithRetry url destPath m k w =
     downloadWithRetry url destPath m (Suc k) (w1\<lparr>retries := retries w1 @ [(e, 2 ^ k * 1000)]\<rparr>)"
  by (simp add: downloadWithRetry.simps [of url destPath m k w] shouldRetry_iff)

lemma status_error_403: "status res = 403 \<Longrightarrow> retryable (status_error res)"
  by (simp add: retryable_def status_error_def)

lemma attempt_403:
  "net w = Response res # rest \<Longrightarrow> status res = 403 \<Longrightarrow>
   attemptDownload url destPath w =
     Some (Inl (status_error res),
           w\<lparr>attempts := attempts w + 1, net := rest, requests := requests w @ [url]\<rparr>)"
  by (simp add: attemptDownload_def request_status_error is_redirect_def)

lemma retry_403:
  "net w = Response res # rest \<Longrightarrow> status res = 403 \<Longrightarrow> k < m \<Longrightarrow>
   downloadWithRetry url destPath m k w =
     downloadWithRetry url destPath m (Suc k)
       (w\<lparr>attempts := attempts w + 1, net := rest, requests := requests w @ [url],
          retries := retries w @ [(status_error res, 2 ^ k * 1000)]\<rparr>)"
  by (simp add: downloadWithRetry_retry [OF attempt_403] status_error_403)

lemma last_403:
  "net w = Response res # rest \<Longrightarrow> status res = 403 \<Longrightarrow> \<not> k < m \<Longrightarrow>
   downloadWithRetry url destPath m k w =
     Some (Inl (status_error res),
           w\<lparr>attempts := attempts w + 1, net := rest, requests := requests w @ [url]\<rparr>)"
  by (simp add: downloadWithRetry_rejected [OF attempt_403])

lemma attempt_200:
  "net w = Response res # rest \<Longrightarrow> status res = 200 \<Longrightarrow> body res = Finished bytes \<Longrightarrow>
   writeFile (fs w) destPath bytes = Inr fs1 \<Longrightarrow>
   downloadWithRetry url destPath m k w =
     Some (Inr (), w\<lparr>attempts := attempts w + 1, net := rest, requests := requests w @ [url],
                      fs := fs1\<rparr>)"
  by (rule downloadWithRetry_resolved) (simp add: attemptDownload_def request_finished)

lemma four_403_then_200:
  assumes net: "net w = [Response r1, Response r2, Response r3, Response r4, Response r5] @ rest"
    and st: "status r1 = 403" "status r2 = 403" "status r3 = 403" "status r4 = 403" "status r5 = 200"
    and body: "body r5 = Finished bytes"
    and wr: "writeFile (fs w) destPath bytes = Inr fs2"
  shows "downloadWithRetry url destPath 5 0 w =
     Some (Inr (), w\<lparr>attempts := attempts w + 5, net := rest,
                      requests := requests w @ [url, url, url, url, url],
                      retries := retries w @ [(status_error r1, 1000), (status_error r2, 2000),
                                              (status_error r3, 4000), (status_error r4, 8000)],
                      fs := fs2\<rparr>)"
proof -
  define w1 where "w1 = w\<lparr>attempts := attempts w + 1, net := [Response r2, Response r3, Response r4, Response r5] @ rest,
      requests := requests w @ [url], retries := retries w @ [(status_error r1, 2 ^ 0 * 1000)]\<rparr>"
  define w2 where "w2 = w1\<lparr>attempts := attempts w1 + 1, net := [Response r3, Response r4, Response r5] @ rest,
      requests := requests w1 @ [url], retries := retries w1 @ [(status_error r2, 2 ^ 1 * 1000)]\<rparr>"
  define w3 where "w3 = w2\<lparr>attempts := attempts w2 + 1, net := [Response r4, Response r5] @ rest,
      requests := requests w2 @ [url], retries := retries w2 @ [(status_error r3, 2 ^ 2 * 1000)]\<rparr>"
  define w4 where "w4 = w3\<lparr>attempts := attempts w3 + 1, net := [Response r5] @ rest,
      requests := requests w3 @ [url], retries := retries w3 @ [(status_error r4, 2 ^ 3 * 1000)]\<rparr>"
  have "downloadWithRetry url destPath 5 0 w = downloadWithRetry url destPath 5 (Suc 0) w1"
    using net st(1) by (simp add: retry_403 [where rest = "[Response r2, Response r3, Response r4, Response r5] @ rest"] w1_def)
  also have "\<dots> = downloadWithRetry url destPath 5 (Suc (Suc 0)) w2"
    using st(2) by (simp add: retry_403 [where rest = "[Response r3, Response r4, Response r5] @ rest"] w1_def w2_def)
  also have "\<dots> = downloadWithRetry url destPath 5 (Suc (Suc (Suc 0))) w3"
    using st(3) by (simp add: retry_403 [where rest = "[Response r4, Response r5] @ rest"] w2_def w3_def)
  also have "\<dots> = downloadWithRetry url destPath 5 (Suc (Suc (Suc (Suc 0)))) w4"
    using st(4) by (simp add: retry_403 [where rest = "[Response r5] @ rest"] w3_def w4_def)
  also have "\<dots> = Some (Inr (), w4\<lparr>attempts := attempts w4 + 1, net := rest, requests := requests w4 @ [url], fs := fs2\<rparr>)"
    using st(5) body wr
    by (intro attempt_200 [where res = r5 and bytes = bytes]) (simp_all add: w4_def w3_def w2_def w1_def)
  finally show ?thesis
    by (simp add: w4_def w3_def w2_def w1_def)
qed
lemma six_403:
  assumes net: "net w = [Response r1, Response r2, Response r3, Response r4, Response r5, Response r6] @ rest"
    and st: "status r1 = 403" "status r2 = 403" "status r3 = 403" "status r4 = 403" "status r5 = 403"
      "status r6 = 403"
  shows "downloadWithRetry url destPath 5 0 w =
     Some (Inl (status_error r6),
           w\<lparr>attempts := attempts w + 6, net := rest,
              requests := requests w @ [url, url, url, url, url, url],
              retries := retries w @ [(status_error r1, 1000), (status_error r2, 2000),
                                      (status_error r3, 4000), (status_error r4, 8000),
                                      (status_error r5, 16000)]\<rparr>)"
proof -
  define w1 where "w1 = w\<lparr>attempts := attempts w + 1, net := [Response r2, Response r3, Response r4, Response r5, Response r6] @ rest,
      requests := requests w @ [url], retries := retries w @ [(status_error r1, 2 ^ 0 * 1000)]\<rparr>"
  define w2 where "w2 = w1\<lparr>attempts := attempts w1 + 1, net := [Response r3, Response r4, Response r5, Response r6] @ rest,
      requests := requests w1 @ [url], retries := retries w1 @ [(status_error r2, 2 ^ 1 * 1000)]\<rparr>"
  define w3 where "w3 = w2\<lparr>attempts := attempts w2 + 1, net := [Response r4, Response r5, Response r6] @ rest,
      requests := requests w2 @ [url], retries := retries w2 @ [(status_error r3, 2 ^ 2 * 1000)]\<rparr>"
  define w4 where "w4 = w3\<lparr>attempts := attempts w3 + 1, net := [Response r5, Response r6] @ rest,
      requests := requests w3 @ [url], retries := retries w3 @ [(status_error r4, 2 ^ 3 * 1000)]\<rparr>"
  define w5 where "w5 = w4\<lparr>attempts := attempts w4 + 1, net := [Response r6] @ rest,
      requests := requests w4 @ [url], retries := retries w4 @ [(status_error r5, 2 ^ 4 * 1000)]\<rparr>"
  have "downloadWithRetry url destPath 5 0 w = downloadWithRetry url destPath 5 (Suc 0) w1"
    using net st(1) by (simp add: retry_403 [where rest = "[Response r2, Response r3, Response r4, Response r5, Response r6] @ rest"] w1_def)
  also have "\<dots> = downloadWithRetry url destPath 5 (Suc (Suc 0)) w2"
    using st(2) by (simp add: retry_403 [where rest = "[Response r3, Response r4, Response r5, Response r6] @ rest"] w1_def w2_def)
  also have "\<dots> = downloadWithRetry url destPath 5 (Suc (Suc (Suc 0))) w3"
    using st(3) by (simp add: retry_403 [where rest = "[Response r4, Response r5, Response r6] @ rest"] w2_def w3_def)
  also have "\<dots> = downloadWithRetry url destPath 5 (Suc (Suc (Suc (Suc 0)))) w4"
    using st(4) by (simp add: retry_403 [where rest = "[Response r5, Response r6] @ rest"] w3_def w4_def)
  also have "\<dots> = downloadWithRetry url destPath 5 (Suc (Suc (Suc (Suc (Suc 0))))) w5"
    using st(5) by (simp add: retry_403 [where rest = "[Response r6] @ rest"] w4_def w5_def)
  also have "\<dots> = Some (Inl (status_error r6), w5\<lparr>attempts := attempts w5 + 1, net := rest, requests := requests w5 @ [url]\<rparr>)"
    using st(6) by (intro last_403) (simp_all add: w5_def)
  finally show ?thesis
    by (simp add: w5_def w4_def w3_def w2_def w1_def)
qed

text \<open>
  Claim C1.  A call of \<open>downloadToFile\<close> with \<open>maxRetries = 5\<close> retries only after a
  failure of a retryable class, at most five times, and sleeps \<open>2 ^ k\<close> seconds
  before retry \<open>k + 1\<close>.  Four responses with status 403 followed by a response 200
  give success after exactly five attempts and delays of 1, 2, 4 and 8 seconds, 15
  seconds in all; six responses with status 403 make the call fail.
\<close>

theorem downloadToFile_retry_policy:
  "(downloadToFile url destPath 5 w = Some (r, w') \<longrightarrow>
      (\<exists>new. retries w' = retries w @ new \<and> length new \<le> 5 \<and>
         (\<forall>k<length new. retryable (fst (new ! k)) \<and> snd (new ! k) = 2 ^ k * 1000) \<and>
         attempts w' = attempts w +
           (case mkdirSync (fs w) (dirname destPath) of Inl e \<Rightarrow> 0 | Inr fs1 \<Rightarrow> length new + 1))) \<and>
   (net w = [Response r1, Response r2, Response r3, Response r4, Response r5] @ rest \<and>
    status r1 = 403 \<and> status r2 = 403 \<and> status r3 = 403 \<and> status r4 = 403 \<and>
    status r5 = 200 \<and> body r5 = Finished bytes \<and>
    mkdirSync (fs w) (dirname destPath) = Inr fs1 \<and> writeFile fs1 destPath bytes = Inr fs2 \<longrightarrow>
      (\<exists>w''. downloadToFile url destPath 5 w = Some (Inr (), w'') \<and>
         attempts w'' = attempts w + 5 \<and>
         map snd (drop (length (retries w)) (retries w'')) = [1000, 2000, 4000, 8000] \<and>
         sum_list (map snd (drop (length (retries w)) (retries w''))) = 15000 \<and>
         net w'' = rest)) \<and>
   (net w = [Response r1, Response r2, Response r3, Response r4, Response r5, Response r6] @ rest \<and>
    status r1 = 403 \<and> status r2 = 403 \<and> status r3 = 403 \<and> status r4 = 403 \<and>
    status r5 = 403 \<and> status r6 = 403 \<and>
    mkdirSync (fs w) (dirname destPath) = Inr fs1 \<longrightarrow>
      (\<exists>w''. downloadToFile url destPath 5 w = Some (Inl (status_error r6), w'') \<and>
         attempts w'' = attempts w + 6 \<and> net w'' = rest))"
proof (intro conjI impI)
  assume run: "downloadToFile url destPath 5 w = Some (r, w')"
  show "\<exists>new. retries w' = retries w @ new \<and> length new \<le> 5 \<and>
         (\<forall>k<length new. retryable (fst (new ! k)) \<and> snd (new ! k) = 2 ^ k * 1000) \<and>
         attempts w' = attempts w +
           (case mkdirSync (fs w) (dirname destPath) of Inl e \<Rightarrow> 0 | Inr fs1 \<Rightarrow> length new + 1)"
  proof (cases "mkdirSync (fs w) (dirname destPath)")
    case (Inl e)
    with run have "w' = w" by (simp add: downloadToFile_def)
    with Inl show ?thesis by simp
  next
    case (Inr fs1)
    with run have "downloadWithRetry url destPath 5 0 (w\<lparr>fs := fs1\<rparr>) = Some (r, w')"
      by (simp add: downloadToFile_def)
    from downloadWithRetry_log [OF this] Inr show ?thesis
      by simp
  qed
next
  assume a: "net w = [Response r1, Response r2, Response r3, Response r4, Response r5] @ rest \<and>
    status r1 = 403 \<and> status r2 = 403 \<and> status r3 = 403 \<and> status r4 = 403 \<and>
    status r5 = 200 \<and> body r5 = Finished bytes \<and>
    mkdirSync (fs w) (dirname destPath) = Inr fs1 \<and> writeFile fs1 destPath bytes = Inr fs2"
  let ?w = "w\<lparr>fs := fs1\<rparr>"
  have "downloadWithRetry url destPath 5 0 ?w =
     Some (Inr (), ?w\<lparr>attempts := attempts ?w + 5, net := rest,
                      requests := requests ?w @ [url, url, url, url, url],
                      retries := retries ?w @ [(status_error r1, 1000), (status_error r2, 2000),
                                              (status_error r3, 4000), (status_error r4, 8000)],
                      fs := fs2\<rparr>)"
    using a by (intro four_403_then_200 [where bytes = bytes and ?r5.0 = r5]) simp_all
  with a show "\<exists>w''. downloadToFile url destPath 5 w = Some (Inr (), w'') \<and>
         attempts w'' = attempts w + 5 \<and>
         map snd (drop (length (retries w)) (retries w'')) = [1000, 2000, 4000, 8000] \<and>
         sum_list (map snd (drop (length (retries w)) (retries w''))) = 15000 \<and>
         net w'' = rest"
    by (simp add: downloadToFile_def)
next
  assume a: "net w = [Response r1, Response r2, Response r3, Response r4, Response r5, Response r6] @ rest \<and>
    status r1 = 403 \<and> status r2 = 403 \<and> status r3 = 403 \<and> status r4 = 403 \<and>
    status r5 = 403 \<and> status r6 = 403 \<and>
    mkdirSync (fs w) (dirname destPath) = Inr fs1"
  let ?w = "w\<lparr>fs := fs1\<rparr>"
  have "downloadWithRetry url destPath 5 0 ?w =
     Some (Inl (status_error r6),
           ?w\<lparr>attempts := attempts ?w + 6, net := rest,
              requests := requests ?w @ [url, url, url, url, url, url],
              retries := retries ?w @ [(status_error r1, 1000), (status_error r2, 2000),
                                      (status_error r3, 4000), (status_error r4, 8000),
                                      (status_error r5, 16000)]\<rparr>)"
    using a by (intro six_403) simp_all
  with a show "\<exists>w''. downloadToFile url destPath 5 w = Some (Inl (status_error r6), w'') \<and>
         attempts w'' = attempts w + 6 \<and> net w'' = rest"
    by (simp add: downloadToFile_def)
qed

theorem downloadToFile_retry_policy_witness:
  "(\<exists>w''. downloadToFile ''https://host/a.tar.gz'' [''tmp'', ''a.tar.gz''] 5
            (start disk [respond 403 ''rate limited'' None, respond 403 ''rate limited'' None,
                         respond 403 ''rate limited'' None, respond 403 ''rate limited'' None,
                         respond 200 ''OK'' None]) = Some (Inr (), w'') \<and>
          attempts w'' = 5 \<and> map snd (retries w'') = [1000, 2000, 4000, 8000] \<and>
          list_all retryable (map fst (retries w''))) \<and>
   (\<exists>w''. downloadToFile ''https://host/a.tar.gz'' [''tmp'', ''a.tar.gz''] 5
            (start disk (replicate 6 (respond 403 ''rate limited'' None))) =
            Some (Inl \<lparr>message = ''Failed to download: 403 rate limited'', statusCode = Some 403,
                       code = None\<rparr>, w'') \<and>
          attempts w'' = 6)"
proof -
  let ?url = "''https://host/a.tar.gz''" and ?dest = "[''tmp'', ''a.tar.gz'']"
  let ?r403 = "\<lparr>status = 403, statusMessage = ''rate limited'', location = None, body = Finished ''archive''\<rparr>"
  let ?r200 = "\<lparr>status = 200, statusMessage = ''OK'', location = None, body = Finished ''archive''\<rparr>"
  let ?fs2 = "Dir [(''tmp'', Dir [(''a.tar.gz'', File ''archive'')]), (''out'', Dir [])]"
  let ?w5 = "start disk [respond 403 ''rate limited'' None, respond 403 ''rate limited'' None,
                         respond 403 ''rate limited'' None, respond 403 ''rate limited'' None,
                         respond 200 ''OK'' None]"
  let ?w6 = "start disk (replicate 6 (respond 403 ''rate limited'' None))"
  have mk: "mkdirSync disk (dirname ?dest) = Inr disk"
    by (simp add: disk_def dirname_def)
  have wr: "writeFile disk ?dest ''archive'' = Inr ?fs2"
    by (simp add: disk_def writeFile_def dirname_def)
  have h5: "net ?w5 = [Response ?r403, Response ?r403, Response ?r403, Response ?r403, Response ?r200] @ [] \<and>
    status ?r403 = 403 \<and> status ?r403 = 403 \<and> status ?r403 = 403 \<and> status ?r403 = 403 \<and>
    status ?r200 = 200 \<and> body ?r200 = Finished ''archive'' \<and>
    mkdirSync (fs ?w5) (dirname ?dest) = Inr disk \<and> writeFile disk ?dest ''archive'' = Inr ?fs2"
    using mk wr by (simp add: start_def respond_def)
  from downloadToFile_retry_policy [of ?url ?dest ?w5, THEN conjunct2, THEN conjunct1, rule_format, OF h5]
  obtain w5 where c5: "downloadToFile ?url ?dest 5 ?w5 = Some (Inr (), w5) \<and>
         attempts w5 = attempts ?w5 + 5 \<and>
         map snd (drop (length (retries ?w5)) (retries w5)) = [1000, 2000, 4000, 8000] \<and>
         sum_list (map snd (drop (length (retries ?w5)) (retries w5))) = 15000 \<and>
         net w5 = []" ..
  from c5 have run5: "downloadToFile ?url ?dest 5 ?w5 = Some (Inr (), w5)" ..
  from c5 have a5: "attempts w5 = attempts ?w5 + 5" by (elim conjE)
  from c5 have d5: "map snd (drop (length (retries ?w5)) (retries w5)) = [1000, 2000, 4000, 8000]"
    by (elim conjE)
  from downloadToFile_retry_policy [of ?url ?dest ?w5 "Inr ()" w5, THEN conjunct1, rule_format, OF run5]
  obtain new where cn: "retries w5 = retries ?w5 @ new \<and> length new \<le> 5 \<and>
         (\<forall>k<length new. retryable (fst (new ! k)) \<and> snd (new ! k) = 2 ^ k * 1000) \<and>
         attempts w5 = attempts ?w5 +
           (case mkdirSync (fs ?w5) (dirname ?dest) of Inl e \<Rightarrow> 0 | Inr fs1 \<Rightarrow> length new + 1)" ..
  from cn have new1: "retries w5 = retries ?w5 @ new" ..
  from cn have new2: "\<forall>k<length new. retryable (fst (new ! k)) \<and> snd (new ! k) = 2 ^ k * 1000"
    by (elim conjE)
  have r0: "retries ?w5 = []" by (simp add: start_def)
  from new1 new2 r0 have all: "list_all retryable (map fst (retries w5))"
    by (simp add: list_all_length)
  have h6: "net ?w6 = [Response ?r403, Response ?r403, Response ?r403, Response ?r403, Response ?r403, Response ?r403] @ [] \<and>
    status ?r403 = 403 \<and> status ?r403 = 403 \<and> status ?r403 = 403 \<and> status ?r403 = 403 \<and>
    status ?r403 = 403 \<and> status ?r403 = 403 \<and>
    mkdirSync (fs ?w6) (dirname ?dest) = Inr disk"
    using mk by (simp add: start_def respond_def numeral_eq_Suc)
  from downloadToFile_retry_policy [of ?url ?dest ?w6, THEN conjunct2, THEN conjunct2, rule_format, OF h6]
  obtain w6 where c6: "downloadToFile ?url ?dest 5 ?w6 = Some (Inl (status_error ?r403), w6) \<and>
         attempts w6 = attempts ?w6 + 6 \<and> net w6 = []" ..
  from c6 have run6: "downloadToFile ?url ?dest 5 ?w6 = Some (Inl (status_error ?r403), w6)" ..
  from c6 have a6: "attempts w6 = attempts ?w6 + 6" by (elim conjE)
  have se: "status_error ?r403 = \<lparr>message = ''Failed to download: 403 rate limited'', statusCode = Some 403, code = None\<rparr>"
    by (simp add: status_error_def) code_simp
  have at0: "attempts ?w5 = 0" "attempts ?w6 = 0" by (simp_all add: start_def)
  from d5 r0 have d5': "map snd (retries w5) = [1000, 2000, 4000, 8000]" by simp
  from run6 se have run6': "downloadToFile ?url ?dest 5 ?w6 =
      Some (Inl \<lparr>message = ''Failed to download: 403 rate limited'', statusCode = Some 403,
                 code = None\<rparr>, w6)" by simp
  from a5 at0 have a5': "attempts w5 = 5" by simp
  from a6 at0 have a6': "attempts w6 = 6" by simp
  have "\<exists>w''. downloadToFile ?url ?dest 5 ?w5 = Some (Inr (), w'') \<and>
          attempts w'' = 5 \<and> map snd (retries w'') = [1000, 2000, 4000, 8000] \<and>
          list_all retryable (map fst (retries w''))"
    by (intro exI [of _ w5] conjI) (fact run5 a5' d5' all)+
  moreover have "\<exists>w''. downloadToFile ?url ?dest 5 ?w6 =
      Some (Inl \<lparr>message = ''Failed to download: 403 rate limited'', statusCode = Some 403,
                 code = None\<rparr>, w'') \<and> attempts w'' = 6"
    by (intro exI [of _ w6] conjI) (fact run6' a6')+
  ultimately show ?thesis by (rule conjI)
qed

lemma show_nat_404: "show_nat 404 = ''404''"
  by code_simp

lemma redirect_error_retryable:
  "retryable (Error (''Redirect without location for '' @ u)) = str_includes u ''rate limit''"
  by (simp add: retryable_def Error_def)

lemma status_404_retryable:
  "status res = 404 \<Longrightarrow> retryable (status_error res) = str_includes (statusMessage res) ''rate limit''"
  by (simp add: retryable_def status_error_def show_nat_404)

text \<open>
  Claim C3, as stated, fails: the retry policy looks for ``rate limit'' in the
  message of every error, and the message of a response other than 200 carries the
  reason phrase the server sent.  Here the first answer is a 404 whose reason
  phrase is ``rate limit exceeded''; the call sleeps one second, tries again and
  succeeds, after two attempts.
\<close>

theorem not_found_retried_counterexample:
  "downloadToFile ''https://host/a.tar.gz'' [''tmp'', ''a.tar.gz''] 5
     (start disk [respond 404 ''rate limit exceeded'' None, respond 200 ''OK'' None]) =
     Some (Inr (),
           \<lparr>fs = Dir [(''tmp'', Dir [(''a.tar.gz'', File ''archive'')]), (''out'', Dir [])],
              net = [],
              requests = [''https://host/a.tar.gz'', ''https://host/a.tar.gz''],
              attempts = 2,
              retries = [(\<lparr>message = ''Failed to download: 404 rate limit exceeded'',
                           statusCode = Some 404, code = None\<rparr>, 1000)],
              spawned = []\<rparr>)"
  by code_simp

text \<open>
  Claim C3, amended.  A failure outside the retryable classes (status 403, a
  message containing ``rate limit'', \<open>ECONNRESET\<close>, \<open>ETIMEDOUT\<close>) ends the call at
  once: the error of the attempt is the error of the call, no delay is slept and no
  further attempt is made, so a first attempt that fails this way is the only one.
  A response 404 is such a failure when its reason phrase does not contain ``rate
  limit'', a redirect without \<open>Location\<close> when the URL does not, and an error of the
  request when its message does not and its code is neither \<open>ECONNRESET\<close> nor
  \<open>ETIMEDOUT\<close>.
\<close>

theorem nonretryable_failure_propagates:
  "(attemptDownload url destPath w = Some (Inl error, w1) \<and> \<not> retryable error \<longrightarrow>
      downloadWithRetry url destPath maxRetries retryCount w = Some (Inl error, w1) \<and>
      attempts w1 = attempts w + 1 \<and> retries w1 = retries w) \<and>
   (mkdirSync (fs w) (dirname destPath) = Inr fs1 \<and>
    attemptDownload url destPath (w\<lparr>fs := fs1\<rparr>) = Some (Inl error, w1) \<and> \<not> retryable error \<longrightarrow>
      downloadToFile url destPath maxRetries w = Some (Inl error, w1) \<and>
      attempts w1 = attempts w + 1 \<and> retries w1 = retries w) \<and>
   (mkdirSync (fs w) (dirname destPath) = Inr fs1 \<and> net w = Response res # rest \<and>
    status res = 404 \<and> \<not> str_includes (statusMessage res) ''rate limit'' \<longrightarrow>
      downloadToFile url destPath maxRetries w =
        Some (Inl (status_error res),
              w\<lparr>fs := fs1, attempts := attempts w + 1, net := rest,
                 requests := requests w @ [url]\<rparr>)) \<and>
   (mkdirSync (fs w) (dirname destPath) = Inr fs1 \<and> net w = Response res # rest \<and>
    is_redirect (status res) \<and> \<not> truthy (location res) \<and> \<not> str_includes url ''rate limit'' \<longrightarrow>
      downloadToFile url destPath maxRetries w =
        Some (Inl (Error (''Redirect without location for '' @ url)),
              w\<lparr>fs := fs1, attempts := attempts w + 1, net := rest,
                 requests := requests w @ [url]\<rparr>)) \<and>
   (mkdirSync (fs w) (dirname destPath) = Inr fs1 \<and> net w = RequestError e # rest \<and>
    \<not> retryable e \<longrightarrow>
      downloadToFile url destPath maxRetries w =
        Some (Inl e, w\<lparr>fs := fs1, attempts := attempts w + 1, net := rest,
                        requests := requests w @ [url]\<rparr>))"
proof (intro conjI impI)
  assume a: "attemptDownload url destPath w = Some (Inl error, w1) \<and> \<not> retryable error"
  then show "downloadWithRetry url destPath maxRetries retryCount w = Some (Inl error, w1)"
    by (simp add: downloadWithRetry_rejected)
  from a attemptDownload_log [of url destPath w "Inl error" w1]
  show "attempts w1 = attempts w + 1" and "retries w1 = retries w"
    by simp_all
next
  assume a: "mkdirSync (fs w) (dirname destPath) = Inr fs1 \<and>
    attemptDownload url destPath (w\<lparr>fs := fs1\<rparr>) = Some (Inl error, w1) \<and> \<not> retryable error"
  then show "downloadToFile url destPath maxRetries w = Some (Inl error, w1)"
    by (simp add: downloadToFile_def downloadWithRetry_rejected)
  from a attemptDownload_log [of url destPath "w\<lparr>fs := fs1\<rparr>" "Inl error" w1]
  show "attempts w1 = attempts w + 1" and "retries w1 = retries w"
    by simp_all
next
  assume a: "mkdirSync (fs w) (dirname destPath) = Inr fs1 \<and> net w = Response res # rest \<and>
    status res = 404 \<and> \<not> str_includes (statusMessage res) ''rate limit''"
  then have "attemptDownload url destPath (w\<lparr>fs := fs1\<rparr>) =
      Some (Inl (status_error res),
            w\<lparr>fs := fs1, attempts := attempts w + 1, net := rest, requests := requests w @ [url]\<rparr>)"
    by (simp add: attemptDownload_def request_status_error is_redirect_def)
  moreover from a have "\<not> retryable (status_error res)"
    by (simp add: status_404_retryable)
  ultimately show "downloadToFile url destPath maxRetries w =
        Some (Inl (status_error res),
              w\<lparr>fs := fs1, attempts := attempts w + 1, net := rest,
                 requests := requests w @ [url]\<rparr>)"
    using a by (simp add: downloadToFile_def downloadWithRetry_rejected)
next
  assume a: "mkdirSync (fs w) (dirname destPath) = Inr fs1 \<and> net w = Response res # rest \<and>
    is_redirect (status res) \<and> \<not> truthy (location res) \<and> \<not> str_includes url ''rate limit''"
  then have "attemptDownload url destPath (w\<lparr>fs := fs1\<rparr>) =
      Some (Inl (Error (''Redirect without location for '' @ url)),
            w\<lparr>fs := fs1, attempts := attempts w + 1, net := rest, requests := requests w @ [url]\<rparr>)"
    by (simp add: attemptDownload_def request_redirect_without_location)
  moreover from a have "\<not> retryable (Error (''Redirect without location for '' @ url))"
    by (simp only: redirect_error_retryable) simp
  ultimately show "downloadToFile url destPath maxRetries w =
        Some (Inl (Error (''Redirect without location for '' @ url)),
              w\<lparr>fs := fs1, attempts := attempts w + 1, net := rest,
                 requests := requests w @ [url]\<rparr>)"
    using a by (simp add: downloadToFile_def downloadWithRetry_rejected)
next
  assume a: "mkdirSync (fs w) (dirname destPath) = Inr fs1 \<and> net w = RequestError e # rest \<and>
    \<not> retryable e"
  then have "attemptDownload url destPath (w\<lparr>fs := fs1\<rparr>) =
      Some (Inl e, w\<lparr>fs := fs1, attempts := attempts w + 1, net := rest, requests := requests w @ [url]\<rparr>)"
    by (simp add: attemptDownload_def request_RequestError)
  with a show "downloadToFile url destPath maxRetries w =
        Some (Inl e, w\<lparr>fs := fs1, attempts := attempts w + 1, net := rest,
                        requests := requests w @ [url]\<rparr>)"
    by (simp add: downloadToFile_def downloadWithRetry_rejected)
qed

theorem nonretryable_failure_propagates_witness:
  "downloadToFile ''https://host/a.tar.gz'' [''tmp'', ''a.tar.gz''] 5
     (start disk [respond 404 ''Not Found'' None, respond 200 ''OK'' None]) =
     Some (Inl \<lparr>message = ''Failed to download: 404 Not Found'', statusCode = Some 404, code = None\<rparr>,
           \<lparr>fs = disk, net = [respond 200 ''OK'' None], requests = [''https://host/a.tar.gz''],
              attempts = 1, retries = [], spawned = []\<rparr>)"
proof -
  let ?url = "''https://host/a.tar.gz''" and ?dest = "[''tmp'', ''a.tar.gz'']"
  let ?res = "\<lparr>status = 404, statusMessage = ''Not Found'', location = None, body = Finished ''archive''\<rparr>"
  let ?w = "start disk [respond 404 ''Not Found'' None, respond 200 ''OK'' None]"
  have h: "mkdirSync (fs ?w) (dirname ?dest) = Inr disk \<and> net ?w = Response ?res # [respond 200 ''OK'' None] \<and>
    status ?res = 404 \<and> \<not> str_includes (statusMessage ?res) ''rate limit''"
    by (simp add: start_def respond_def disk_def dirname_def)
  have se: "status_error ?res = \<lparr>message = ''Failed to download: 404 Not Found'', statusCode = Some 404, code = None\<rparr>"
    by (simp add: status_error_def show_nat_404)
  from nonretryable_failure_propagates
    [of ?url ?dest ?w _ _ 5 _ disk ?res "[respond 200 ''OK'' None]",
     THEN conjunct2, THEN conjunct2, THEN conjunct1, rule_format, OF h]
  show ?thesis
    by (simp add: se start_def)
qed

text \<open>
  Claim C4, as stated, fails: the error of a redirect without \<open>Location\<close> carries
  the URL in its message, and a message containing ``rate limit'' is retried.  Here
  the first answer is a 302 without \<open>Location\<close>; the call sleeps one second, tries
  again and succeeds.
\<close>

theorem redirect_without_location_counterexample:
  "downloadToFile ''https://host/rate limit.tar.gz'' [''tmp'', ''a.tar.gz''] 5
     (start disk [respond 302 ''Found'' None, respond 200 ''OK'' None]) =
     Some (Inr (),
           \<lparr>fs = Dir [(''tmp'', Dir [(''a.tar.gz'', File ''archive'')]), (''out'', Dir [])],
              net = [],
              requests = [''https://host/rate limit.tar.gz'', ''https://host/rate limit.tar.gz''],
              attempts = 2,
              retries = [(Error ''Redirect without location for https://host/rate limit.tar.gz'', 1000)],
              spawned = []\<rparr>)"
proof -
  let ?url = "''https://host/rate limit.tar.gz''" and ?dest = "[''tmp'', ''a.tar.gz'']"
  let ?w = "start disk [respond 302 ''Found'' None, respond 200 ''OK'' None]"
  let ?e = "Error (''Redirect without location for '' @ ?url)"
  let ?w1 = "?w\<lparr>attempts := 1, net := [respond 200 ''OK'' None], requests := [?url]\<rparr>"
  have mk: "mkdirSync (fs ?w) (dirname ?dest) = Inr disk"
    by (simp add: start_def disk_def dirname_def)
  have att: "attemptDownload ?url ?dest ?w = Some (Inl ?e, ?w1)"
    by (simp add: attemptDownload_def start_def respond_def is_redirect_def
        request_redirect_without_location [where rest = "[respond 200 ''OK'' None]"])
  have re: "retryable ?e"
    by (simp only: redirect_error_retryable) simp
  have step: "downloadWithRetry ?url ?dest 5 0 ?w =
      downloadWithRetry ?url ?dest 5 (Suc 0) (?w1\<lparr>retries := retries ?w1 @ [(?e, 2 ^ 0 * 1000)]\<rparr>)"
    using att re by (intro downloadWithRetry_retry) simp_all
  have fin: "downloadWithRetry ?url ?dest 5 (Suc 0) (?w1\<lparr>retries := retries ?w1 @ [(?e, 2 ^ 0 * 1000)]\<rparr>) =
      Some (Inr (), \<lparr>fs = Dir [(''tmp'', Dir [(''a.tar.gz'', File ''archive'')]), (''out'', Dir [])],
              net = [], requests = [?url, ?url], attempts = 2, retries = [(?e, 1000)], spawned = []\<rparr>)"
    by (simp add: attempt_200 [where rest = "[]" and bytes = "''archive''"
          and ?fs1.0 = "Dir [(''tmp'', Dir [(''a.tar.gz'', File ''archive'')]), (''out'', Dir [])]"]
        start_def respond_def disk_def writeFile_def dirname_def)
  from mk step fin show ?thesis
    by (simp add: downloadToFile_def start_def)
qed

text \<open>
  Claim C4, amended.  A response with status 301, 302, 303, 307 or 308 and a
  non-empty \<open>Location\<close> that \<open>https.get\<close> takes makes the same attempt issue the
  next GET against that value: the attempt goes on as the request of that URL does,
  and when it ends the log of requests holds the two URLs one after the other and
  the count of attempts is the same.  Without \<open>Location\<close> (or with an empty one)
  the attempt fails at once with \<open>Redirect without location for <url>\<close>, and this
  failure is not retried provided the URL, which is part of the message, does not
  contain ``rate limit''.
\<close>

theorem redirect_following:
  "(net w = Response res # rest \<and> status res \<in> {301, 302, 303, 307, 308} \<and>
    location res = Some l \<and> l \<noteq> [] \<and> accepted rest \<longrightarrow>
      request destPath currentUrl w =
        request destPath l (w\<lparr>net := rest, requests := requests w @ [currentUrl]\<rparr>) \<and>
      (\<forall>r w'. request destPath currentUrl w = Inr (Some (r, w')) \<longrightarrow>
         prefix (requests w @ [currentUrl, l]) (requests w') \<and> attempts w' = attempts w)) \<and>
   (net w = Response res # rest \<and> status res \<in> {301, 302, 303, 307, 308} \<and>
    (location res = None \<or> location res = Some []) \<longrightarrow>
      request destPath currentUrl w =
        Inr (Some (Inl (Error (''Redirect without location for '' @ currentUrl)),
                   w\<lparr>net := rest, requests := requests w @ [currentUrl]\<rparr>))) \<and>
   (attemptDownload url destPath w =
      Some (Inl (Error (''Redirect without location for '' @ currentUrl)), w1) \<and>
    \<not> str_includes currentUrl ''rate limit'' \<longrightarrow>
      downloadWithRetry url destPath maxRetries retryCount w =
        Some (Inl (Error (''Redirect without location for '' @ currentUrl)), w1) \<and>
      retries w1 = retries w \<and> attempts w1 = attempts w + 1)"
proof (intro conjI impI allI)
  assume a: "net w = Response res # rest \<and> status res \<in> {301, 302, 303, 307, 308} \<and>
    location res = Some l \<and> l \<noteq> [] \<and> accepted rest"
  then have "is_redirect (status res)" and "truthy (location res)" and "the (location res) = l"
    by (simp_all add: is_redirect_iff)
  with a show follow: "request destPath currentUrl w =
        request destPath l (w\<lparr>net := rest, requests := requests w @ [currentUrl]\<rparr>)"
    using request_redirect [of w res rest destPath currentUrl] by simp
  fix r w'
  assume "request destPath currentUrl w = Inr (Some (r, w'))"
  with follow
  have "request destPath l (w\<lparr>net := rest, requests := requests w @ [currentUrl]\<rparr>) =
      Inr (Some (r, w'))"
    by simp
  from request_log [OF this]
  show "prefix (requests w @ [currentUrl, l]) (requests w')" and "attempts w' = attempts w"
    by simp_all
next
  assume a: "net w = Response res # rest \<and> status res \<in> {301, 302, 303, 307, 308} \<and>
    (location res = None \<or> location res = Some [])"
  then have "is_redirect (status res)" and "\<not> truthy (location res)"
    by (auto simp: is_redirect_iff)
  with a show "request destPath currentUrl w =
        Inr (Some (Inl (Error (''Redirect without location for '' @ currentUrl)),
                   w\<lparr>net := rest, requests := requests w @ [currentUrl]\<rparr>))"
    using request_redirect_without_location [of w res rest destPath currentUrl] by simp
next
  assume a: "attemptDownload url destPath w =
      Some (Inl (Error (''Redirect without location for '' @ currentUrl)), w1) \<and>
    \<not> str_includes currentUrl ''rate limit''"
  then have nr: "\<not> retryable (Error (''Redirect without location for '' @ currentUrl))"
    by (simp only: redirect_error_retryable) simp
  with a show "downloadWithRetry url destPath maxRetries retryCount w =
        Some (Inl (Error (''Redirect without location for '' @ currentUrl)), w1)"
    by (simp add: downloadWithRetry_rejected)
  from a attemptDownload_log [of url destPath w _ w1]
  show "retries w1 = retries w" and "attempts w1 = attempts w + 1"
    by simp_all
qed

theorem redirect_following_witness:
  "downloadToFile ''https://host/a.tar.gz'' [''tmp'', ''a.tar.gz''] 5
     (start disk [respond 302 ''Found'' (Some ''https://cdn/a.tar.gz''), respond 200 ''OK'' None]) =
     Some (Inr (),
           \<lparr>fs = Dir [(''tmp'', Dir [(''a.tar.gz'', File ''archive'')]), (''out'', Dir [])],
              net = [], requests = [''https://host/a.tar.gz'', ''https://cdn/a.tar.gz''],
              attempts = 1, retries = [], spawned = []\<rparr>) \<and>
   downloadToFile ''https://host/a.tar.gz'' [''tmp'', ''a.tar.gz''] 5
     (start disk [respond 302 ''Found'' None, respond 200 ''OK'' None]) =
     Some (Inl (Error ''Redirect without location for https://host/a.tar.gz''),
           \<lparr>fs = disk, net = [respond 200 ''OK'' None], requests = [''https://host/a.tar.gz''],
              attempts = 1, retries = [], spawned = []\<rparr>)"
proof -
  let ?url = "''https://host/a.tar.gz''" and ?dest = "[''tmp'', ''a.tar.gz'']"
  let ?ok = "respond 200 ''OK'' None"
  let ?r1 = "\<lparr>status = 302, statusMessage = ''Found'', location = Some ''https://cdn/a.tar.gz'',
               body = Finished ''archive''\<rparr>"
  let ?r2 = "\<lparr>status = 302, statusMessage = ''Found'', location = None, body = Finished ''archive''\<rparr>"
  let ?wa = "(start disk [respond 302 ''Found'' (Some ''https://cdn/a.tar.gz''), ?ok])\<lparr>attempts := 1\<rparr>"
  let ?wb = "(start disk [respond 302 ''Found'' None, ?ok])\<lparr>attempts := 1\<rparr>"
  have ha: "net ?wa = Response ?r1 # [?ok] \<and> status ?r1 \<in> {301, 302, 303, 307, 308} \<and>
    location ?r1 = Some ''https://cdn/a.tar.gz'' \<and> ''https://cdn/a.tar.gz'' \<noteq> [] \<and>
    accepted [?ok]"
    by (simp add: start_def respond_def)
  note follow = redirect_following [where w = ?wa and res = ?r1 and rest = "[?ok]"
      and l = "''https://cdn/a.tar.gz''" and destPath = ?dest and currentUrl = ?url,
      THEN conjunct1, THEN mp, OF ha, THEN conjunct1]
  have ok: "request ?dest ''https://cdn/a.tar.gz'' (?wa\<lparr>net := [?ok], requests := requests ?wa @ [?url]\<rparr>) =
      Inr (Some (Inr (), \<lparr>fs = Dir [(''tmp'', Dir [(''a.tar.gz'', File ''archive'')]), (''out'', Dir [])],
              net = [], requests = [?url, ''https://cdn/a.tar.gz''],
              attempts = 1, retries = [], spawned = []\<rparr>))"
    by (simp add: request_finished [where rest = "[]" and bytes = "''archive''"
          and ?fs1.0 = "Dir [(''tmp'', Dir [(''a.tar.gz'', File ''archive'')]), (''out'', Dir [])]"]
        start_def respond_def disk_def writeFile_def dirname_def)
  have atta: "attemptDownload ?url ?dest (start disk [respond 302 ''Found'' (Some ''https://cdn/a.tar.gz''), ?ok]) =
      Some (Inr (), \<lparr>fs = Dir [(''tmp'', Dir [(''a.tar.gz'', File ''archive'')]), (''out'', Dir [])],
              net = [], requests = [?url, ''https://cdn/a.tar.gz''],
              attempts = 1, retries = [], spawned = []\<rparr>)"
    using follow ok by (simp add: attemptDownload_def start_def)
  have mk: "mkdirSync disk (dirname ?dest) = Inr disk"
    by (simp add: disk_def dirname_def)
  have 1: "downloadToFile ?url ?dest 5 (start disk [respond 302 ''Found'' (Some ''https://cdn/a.tar.gz''), ?ok]) =
     Some (Inr (), \<lparr>fs = Dir [(''tmp'', Dir [(''a.tar.gz'', File ''archive'')]), (''out'', Dir [])],
              net = [], requests = [?url, ''https://cdn/a.tar.gz''],
              attempts = 1, retries = [], spawned = []\<rparr>)"
    using mk downloadWithRetry_resolved [OF atta, of 5 0]
    by (simp add: downloadToFile_def start_def)
  have hb: "net ?wb = Response ?r2 # [?ok] \<and> status ?r2 \<in> {301, 302, 303, 307, 308} \<and>
    (location ?r2 = None \<or> location ?r2 = Some [])"
    by (simp add: start_def respond_def)
  note stop = redirect_following [where w = ?wb and res = ?r2 and rest = "[?ok]"
      and destPath = ?dest and currentUrl = ?url,
      THEN conjunct2, THEN conjunct1, THEN mp, OF hb]
  have attb: "attemptDownload ?url ?dest (start disk [respond 302 ''Found'' None, ?ok]) =
      Some (Inl (Error (''Redirect without location for '' @ ?url)),
            \<lparr>fs = disk, net = [?ok], requests = [?url], attempts = 1, retries = [], spawned = []\<rparr>)"
    using stop by (simp add: attemptDownload_def start_def)
  have hc: "attemptDownload ?url ?dest (start disk [respond 302 ''Found'' None, ?ok]) =
      Some (Inl (Error (''Redirect without location for '' @ ?url)),
            \<lparr>fs = disk, net = [?ok], requests = [?url], attempts = 1, retries = [], spawned = []\<rparr>) \<and>
    \<not> str_includes ?url ''rate limit''"
    using attb by simp
  note no_retry = redirect_following [where destPath = ?dest and currentUrl = ?url and url = ?url
      and w = "start disk [respond 302 ''Found'' None, ?ok]" and maxRetries = 5 and retryCount = 0,
      THEN conjunct2, THEN conjunct2, THEN mp, OF hc, THEN conjunct1]
  have 2: "downloadToFile ?url ?dest 5 (start disk [respond 302 ''Found'' None, ?ok]) =
     Some (Inl (Error ''Redirect without location for https://host/a.tar.gz''),
           \<lparr>fs = disk, net = [?ok], requests = [?url], attempts = 1, retries = [], spawned = []\<rparr>)"
    using mk no_retry by (simp add: downloadToFile_def start_def)
  from 1 2 show ?thesis by (rule conjI)
qed

text \<open>
  A \<open>Location\<close> that \<open>https.get\<close> refuses, as Node does a relative reference such
  as \<open>/releases/a.tar.gz\<close>, is outside the amended claim: the throw happens inside
  the callback of the response, the promise of the attempt is never settled and the
  call never ends.
\<close>

lemma redirect_to_refused_location:
  "net w = Response res # GetThrows e # rest \<Longrightarrow> status res \<in> {301, 302, 303, 307, 308} \<Longrightarrow>
   location res = Some l \<Longrightarrow> l \<noteq> [] \<Longrightarrow>
   attemptDownload url destPath w = None \<and>
   downloadWithRetry url destPath maxRetries retryCount w = None"
proof -
  assume a: "net w = Response res # GetThrows e # rest" "status res \<in> {301, 302, 303, 307, 308}"
    "location res = Some l" "l \<noteq> []"
  then have "request destPath url (w\<lparr>attempts := attempts w + 1\<rparr>) = Inr None"
    by (intro request_redirect_refused [where res = res and e = e and rest = rest])
       (simp_all add: is_redirect_iff)
  then have att: "attemptDownload url destPath w = None"
    by (simp add: attemptDownload_def)
  then show ?thesis
    by (simp add: downloadWithRetry.simps [of url destPath maxRetries retryCount w])
qed

lemma refused_location_example:
  "downloadToFile ''https://host/a.tar.gz'' [''tmp'', ''a.tar.gz''] 5
     (start disk [respond 302 ''Found'' (Some ''/releases/a.tar.gz''),
                  GetThrows (TypeError ''Invalid URL''), respond 200 ''OK'' None]) = None"
  by code_simp

section \<open>Properties of extractTarGz\<close>

lemma runCommand_spawned: "spawned (snd (runCommand pf c args w)) = spawned w @ [c]"
  by (simp add: runCommand_def Let_def split: prod.splits child_result.splits)

lemma runCommand_resolves:
  "fst (runCommand pf c args w) = Inr () \<longleftrightarrow> fst (spawn pf c args (fs w)) = ChildClosed (Some 0)"
  by (simp add: runCommand_def Let_def split: prod.splits child_result.splits)

lemma runCommand_ChildError:
  "fst (spawn pf c args (fs w)) = ChildError e \<Longrightarrow> fst (runCommand pf c args w) = Inl e"
  by (cases "spawn pf c args (fs w)") (simp add: runCommand_def)

lemma runCommand_exit_code:
  "fst (spawn pf c args (fs w)) = ChildClosed n \<Longrightarrow> n \<noteq> Some 0 \<Longrightarrow>
   fst (runCommand pf c args w) =
     Inl (Error (''Command '' @ c @ '' exited with code '' @ show_code n))"
  by (cases "spawn pf c args (fs w)") (simp add: runCommand_def)

lemma length_outcomes [simp]: "length (outcomes pf args cs w) = length cs"
  by (induction cs arbitrary: w) simp_all

lemma outcomes_eq_Nil [simp]: "outcomes pf args cs w = [] \<longleftrightarrow> cs = []"
  by (cases cs) simp_all

lemma extract_loop_step:
  "extract_loop pf args (c # cs) le w =
     (case fst (runCommand pf c args w) of
        Inr u \<Rightarrow> (Inr (), snd (runCommand pf c args w))
      | Inl err \<Rightarrow> extract_loop pf args cs (Some (recorded c err)) (snd (runCommand pf c args w)))"
  by (cases "runCommand pf c args w") (simp add: recorded_def split: sum.splits)

lemma extract_loop_first_success:
  "i < length cs \<Longrightarrow> fst (outcomes pf args cs w ! i) = Inr () \<Longrightarrow>
   (\<forall>j<i. fst (outcomes pf args cs w ! j) \<noteq> Inr ()) \<Longrightarrow>
   extract_loop pf args cs le w = (Inr (), snd (outcomes pf args cs w ! i))"
proof (induction cs arbitrary: i w le)
  case Nil
  then show ?case by simp
next
  case (Cons c cs)
  show ?case
  proof (cases i)
    case 0
    with Cons.prems show ?thesis
      by (simp add: extract_loop_step del: extract_loop.simps(2))
  next
    case (Suc i')
    with Cons.prems have "fst (runCommand pf c args w) \<noteq> Inr ()"
      by auto
    then obtain err where err: "fst (runCommand pf c args w) = Inl err"
      by (cases "fst (runCommand pf c args w)") auto
    let ?w1 = "snd (runCommand pf c args w)"
    have "extract_loop pf args cs (Some (recorded c err)) ?w1 =
        (Inr (), snd (outcomes pf args cs ?w1 ! i'))"
    proof (rule Cons.IH)
      from Cons.prems Suc show "i' < length cs" by simp
      from Cons.prems Suc show "fst (outcomes pf args cs ?w1 ! i') = Inr ()" by simp
      from Cons.prems Suc show "\<forall>j<i'. fst (outcomes pf args cs ?w1 ! j) \<noteq> Inr ()"
        by auto
    qed
    with err Suc show ?thesis
      by (simp add: extract_loop_step del: extract_loop.simps(2))
  qed
qed

lemma outcomes_spawned:
  "i < length cs \<Longrightarrow> spawned (snd (outcomes pf args cs w ! i)) = spawned w @ take (Suc i) cs"
proof (induction cs arbitrary: i w)
  case Nil
  then show ?case by simp
next
  case (Cons c cs)
  then show ?case
    by (cases i) (simp_all add: runCommand_spawned)
qed

lemma extract_loop_all_fail:
  "cs \<noteq> [] \<Longrightarrow> (\<forall>j<length cs. fst (outcomes pf args cs w ! j) \<noteq> Inr ()) \<Longrightarrow>
   \<exists>err. fst (last (outcomes pf args cs w)) = Inl err \<and>
         extract_loop pf args cs le w =
           (Inl (Some (recorded (last cs) err)), snd (last (outcomes pf args cs w)))"
proof (induction cs arbitrary: w le)
  case Nil
  then show ?case by simp
next
  case (Cons c cs)
  from Cons.prems(2) have "fst (runCommand pf c args w) \<noteq> Inr ()"
    by auto
  then obtain err where err: "fst (runCommand pf c args w) = Inl err"
    by (cases "fst (runCommand pf c args w)") auto
  let ?w1 = "snd (runCommand pf c args w)"
  show ?case
  proof (cases "cs = []")
    case True
    with err show ?thesis
      by (simp add: extract_loop_step del: extract_loop.simps(2))
  next
    case False
    from Cons.prems(2) have "\<forall>j<length cs. fst (outcomes pf args cs ?w1 ! j) \<noteq> Inr ()"
      by auto
    from Cons.IH [OF False this, of "Some (recorded c err)"] obtain err' where
      "fst (last (outcomes pf args cs ?w1)) = Inl err'"
      "extract_loop pf args cs (Some (recorded c err)) ?w1 =
         (Inl (Some (recorded (last cs) err')), snd (last (outcomes pf args cs ?w1)))"
      by auto
    with err False show ?thesis
      by (simp add: extract_loop_step del: extract_loop.simps(2))
  qed
qed

lemma candidates_nonempty: "candidates pf \<noteq> []" "candidates_postinstall pf \<noteq> []"
  by (simp_all add: candidates_def candidates_postinstall_def)

lemma recorded_ENOENT:
  "code e = Some ''ENOENT'' \<Longrightarrow> recorded c e = Error (''Command '' @ c @ '' not found'')"
  by (simp add: recorded_def)

text \<open>
  Claim C7.  \<open>extractTarGz\<close> runs the candidates in their fixed order, each in the
  world its predecessor left and each at most once.  It returns at the first one
  that exits with code 0, and the later candidates are not run.  When none
  succeeds it throws an error whose message ends with the message kept for the
  last candidate: \<open>Command <name> not found\<close> for a candidate that is missing
  (\<open>ENOENT\<close>), the candidate's error otherwise.  The caller does not try again: a
  failed extraction is the result of the \<open>try\<close> block.
\<close>

theorem extractTarGz_candidate_search:
  assumes mk: "mkdirSync (fs w) destDir = Inr fs1"
    and args: "args = [''-xzf'', path_string pf archivePath, ''-C'', path_string pf destDir]"
    and outs: "outs = outcomes pf args (candidates pf) (w\<lparr>fs := fs1\<rparr>)"
    and outs': "outs' = outcomes pf args (candidates_postinstall pf) (w\<lparr>fs := fs1\<rparr>)"
  shows
   "(i < length (candidates pf) \<and> fst (outs ! i) = Inr () \<and> (\<forall>j<i. fst (outs ! j) \<noteq> Inr ()) \<longrightarrow>
       extractTarGz pf archivePath destDir w = (Inr (), snd (outs ! i)) \<and>
       spawned (snd (outs ! i)) = spawned w @ take (Suc i) (candidates pf)) \<and>
    ((\<forall>j<length (candidates pf). fst (outs ! j) \<noteq> Inr ()) \<longrightarrow>
       (\<exists>err. fst (last outs) = Inl err \<and>
          extractTarGz pf archivePath destDir w =
            (Inl (Error (''Failed to extract: '' @ message (recorded (last (candidates pf)) err))),
             snd (last outs)) \<and>
          spawned (snd (last outs)) = spawned w @ candidates pf)) \<and>
    (i < length (candidates_postinstall pf) \<and> fst (outs' ! i) = Inr () \<and>
     (\<forall>j<i. fst (outs' ! j) \<noteq> Inr ()) \<longrightarrow>
       extractTarGz_postinstall pf archivePath destDir w = (Inr (), snd (outs' ! i)) \<and>
       spawned (snd (outs' ! i)) = spawned w @ take (Suc i) (candidates_postinstall pf)) \<and>
    ((\<forall>j<length (candidates_postinstall pf). fst (outs' ! j) \<noteq> Inr ()) \<longrightarrow>
       (\<exists>err. fst (last outs') = Inl err \<and>
          extractTarGz_postinstall pf archivePath destDir w =
            (Inl (Error (''Failed to extract '' @ basename archivePath @
                         ''. Please install a compatible tar binary. Last error: '' @
                         message (recorded (last (candidates_postinstall pf)) err))),
             snd (last outs')) \<and>
          spawned (snd (last outs')) = spawned w @ candidates_postinstall pf)) \<and>
    (fst (runCommand pf c args w0) = Inr () \<longleftrightarrow>
       fst (spawn pf c args (fs w0)) = ChildClosed (Some 0)) \<and>
    (fst (spawn pf c args (fs w0)) = ChildError e \<and> code e = Some ''ENOENT'' \<longrightarrow>
       fst (runCommand pf c args w0) = Inl e \<and>
       recorded c e = Error (''Command '' @ c @ '' not found'')) \<and>
    (downloadToFile url archivePath 5 w0 = Some (Inr (), w1) \<and>
     extract archivePath extractDir w1 = (Inl err, w2) \<longrightarrow>
       try_block extract place url archivePath extractDir w0 = Some (Inl err, w2))"
proof (intro conjI impI)
  let ?w = "w\<lparr>fs := fs1\<rparr>"
  have sp: "spawned ?w = spawned w" by simp
  {
    assume a: "i < length (candidates pf) \<and> fst (outs ! i) = Inr () \<and>
      (\<forall>j<i. fst (outs ! j) \<noteq> Inr ())"
    then have "extract_loop pf args (candidates pf) None ?w = (Inr (), snd (outs ! i))"
      unfolding outs by (intro extract_loop_first_success) simp_all
    then show "extractTarGz pf archivePath destDir w = (Inr (), snd (outs ! i))"
      using mk by (simp add: extractTarGz_def args [symmetric])
    from a show "spawned (snd (outs ! i)) = spawned w @ take (Suc i) (candidates pf)"
      unfolding outs using outcomes_spawned [of i "candidates pf" pf args ?w] by simp
  }
  {
    assume a: "\<forall>j<length (candidates pf). fst (outs ! j) \<noteq> Inr ()"
    from extract_loop_all_fail [OF candidates_nonempty(1) a [unfolded outs], of None]
    obtain err where err: "fst (last outs) = Inl err"
      "extract_loop pf args (candidates pf) None ?w =
         (Inl (Some (recorded (last (candidates pf)) err)), snd (last outs))"
      unfolding outs by auto
    have "spawned (snd (last outs)) = spawned w @ candidates pf"
      unfolding outs
      using outcomes_spawned [of "length (candidates pf) - 1" "candidates pf" pf args ?w]
        candidates_nonempty(1) [of pf]
      by (simp add: last_conv_nth)
    with err mk show "\<exists>err. fst (last outs) = Inl err \<and>
          extractTarGz pf archivePath destDir w =
            (Inl (Error (''Failed to extract: '' @ message (recorded (last (candidates pf)) err))),
             snd (last outs)) \<and>
          spawned (snd (last outs)) = spawned w @ candidates pf"
      by (simp add: extractTarGz_def args [symmetric])
  }
  {
    assume a: "i < length (candidates_postinstall pf) \<and> fst (outs' ! i) = Inr () \<and>
      (\<forall>j<i. fst (outs' ! j) \<noteq> Inr ())"
    then have "extract_loop pf args (candidates_postinstall pf) None ?w = (Inr (), snd (outs' ! i))"
      unfolding outs' by (intro extract_loop_first_success) simp_all
    then show "extractTarGz_postinstall pf archivePath destDir w = (Inr (), snd (outs' ! i))"
      using mk by (simp add: extractTarGz_postinstall_def args [symmetric])
    from a show "spawned (snd (outs' ! i)) = spawned w @ take (Suc i) (candidates_postinstall pf)"
      unfolding outs' using outcomes_spawned [of i "candidates_postinstall pf" pf args ?w] by simp
  }
  {
    assume a: "\<forall>j<length (candidates_postinstall pf). fst (outs' ! j) \<noteq> Inr ()"
    from extract_loop_all_fail [OF candidates_nonempty(2) a [unfolded outs'], of None]
    obtain err where err: "fst (last outs') = Inl err"
      "extract_loop pf args (candidates_postinstall pf) None ?w =
         (Inl (Some (recorded (last (candidates_postinstall pf)) err)), snd (last outs'))"
      unfolding outs' by auto
    have "spawned (snd (last outs')) = spawned w @ candidates_postinstall pf"
      unfolding outs'
      using outcomes_spawned [of "length (candidates_postinstall pf) - 1" "candidates_postinstall pf" pf args ?w]
        candidates_nonempty(2) [of pf]
      by (simp add: last_conv_nth)
    with err mk show "\<exists>err. fst (last outs') = Inl err \<and>
          extractTarGz_postinstall pf archivePath destDir w =
            (Inl (Error (''Failed to extract '' @ basename archivePath @
                         ''. Please install a compatible tar binary. Last error: '' @
                         message (recorded (last (candidates_postinstall pf)) err))),
             snd (last outs')) \<and>
          spawned (snd (last outs')) = spawned w @ candidates_postinstall pf"
      by (simp add: extractTarGz_postinstall_def args [symmetric])
  }
  show "fst (runCommand pf c args w0) = Inr () \<longleftrightarrow>
       fst (spawn pf c args (fs w0)) = ChildClosed (Some 0)"
    by (rule runCommand_resolves)
  {
    assume a: "fst (spawn pf c args (fs w0)) = ChildError e \<and> code e = Some ''ENOENT''"
    then show "fst (runCommand pf c args w0) = Inl e"
      by (simp add: runCommand_ChildError)
    from a show "recorded c e = Error (''Command '' @ c @ '' not found'')"
      by (simp add: recorded_ENOENT)
  }
  {
    assume "downloadToFile url archivePath 5 w0 = Some (Inr (), w1) \<and>
      extract archivePath extractDir w1 = (Inl err, w2)"
    then show "try_block extract place url archivePath extractDir w0 = Some (Inl err, w2)"
      by (simp add: try_block_def)
  }
qed

theorem extractTarGz_candidate_search_witness:
  "fst (extractTarGz (windows (only_command (system_tar (windows no_tar))))
          [''tmp'', ''a.tar.gz''] [''tmp'', ''x''] (start disk [])) = Inr () \<and>
   spawned (snd (extractTarGz (windows (only_command (system_tar (windows no_tar))))
          [''tmp'', ''a.tar.gz''] [''tmp'', ''x''] (start disk []))) =
     [''tar.exe'', system_tar (windows no_tar)] \<and>
   fst (extractTarGz (posix no_tar) [''tmp'', ''a.tar.gz''] [''tmp'', ''x''] (start disk [])) =
     Inl (Error ''Failed to extract: Command tar not found'') \<and>
   spawned (snd (extractTarGz (posix no_tar) [''tmp'', ''a.tar.gz''] [''tmp'', ''x''] (start disk []))) =
     [''tar'']"
proof -
  let ?sys = "system_tar (windows no_tar)"
  let ?pw = "windows (only_command ?sys)" and ?pp = "posix no_tar"
  let ?a = "[''tmp'', ''a.tar.gz'']" and ?d = "[''tmp'', ''x'']"
  let ?w = "start disk []"
  let ?fs1 = "Dir [(''tmp'', Dir [(''x'', Dir [])]), (''out'', Dir [])]"
  let ?argsw = "[''-xzf'', path_string ?pw ?a, ''-C'', path_string ?pw ?d]"
  let ?argsp = "[''-xzf'', path_string ?pp ?a, ''-C'', path_string ?pp ?d]"
  have mk: "mkdirSync (fs ?w) ?d = Inr ?fs1"
    by (simp add: start_def disk_def)
  have sys: "system_tar ?pw = ?sys"
    by (simp add: system_tar_def windows_def)
  have ne: "''tar.exe'' \<noteq> ?sys"
    by (simp add: system_tar_def windows_def)
  have cw: "candidates ?pw = [''tar.exe'', ?sys]"
    by (simp add: candidates_def sys) (simp add: windows_def)
  have cp: "candidates ?pp = [''tar'']"
    by (simp add: candidates_def posix_def)
  have r0: "fst (runCommand ?pw ''tar.exe'' ?argsw (?w\<lparr>fs := ?fs1\<rparr>)) = Inl (sys_error ''ENOENT'')"
    using ne by (simp add: runCommand_def windows_def only_command_def)
  have r1: "fst (runCommand ?pw ?sys ?argsw (snd (runCommand ?pw ''tar.exe'' ?argsw (?w\<lparr>fs := ?fs1\<rparr>)))) = Inr ()"
    by (simp add: runCommand_def windows_def only_command_def)
  have hw: "1 < length (candidates ?pw) \<and>
      fst (outcomes ?pw ?argsw (candidates ?pw) (?w\<lparr>fs := ?fs1\<rparr>) ! 1) = Inr () \<and>
      (\<forall>j<1. fst (outcomes ?pw ?argsw (candidates ?pw) (?w\<lparr>fs := ?fs1\<rparr>) ! j) \<noteq> Inr ())"
    using r0 r1 by (simp add: cw)
  note win = extractTarGz_candidate_search [OF mk refl refl refl, where pf = ?pw and archivePath = ?a
      and i = 1, THEN conjunct1, THEN mp, OF hw]
  have p0: "fst (runCommand ?pp ''tar'' ?argsp (?w\<lparr>fs := ?fs1\<rparr>)) = Inl (sys_error ''ENOENT'')"
    by (simp add: runCommand_def posix_def no_tar_def)
  have hp: "\<forall>j<length (candidates ?pp).
      fst (outcomes ?pp ?argsp (candidates ?pp) (?w\<lparr>fs := ?fs1\<rparr>) ! j) \<noteq> Inr ()"
    using p0 by (simp add: cp)
  from extractTarGz_candidate_search [OF mk refl refl refl, where pf = ?pp and archivePath = ?a,
      THEN conjunct2, THEN conjunct1, rule_format, OF hp [rule_format]]
  obtain err where px: "fst (last (outcomes ?pp ?argsp (candidates ?pp) (?w\<lparr>fs := ?fs1\<rparr>))) = Inl err \<and>
          extractTarGz ?pp ?a ?d ?w =
            (Inl (Error (''Failed to extract: '' @ message (recorded (last (candidates ?pp)) err))),
             snd (last (outcomes ?pp ?argsp (candidates ?pp) (?w\<lparr>fs := ?fs1\<rparr>)))) \<and>
          spawned (snd (last (outcomes ?pp ?argsp (candidates ?pp) (?w\<lparr>fs := ?fs1\<rparr>)))) =
            spawned ?w @ candidates ?pp" ..
  from px p0 have err: "err = sys_error ''ENOENT''"
    by (simp add: cp)
  have msg: "message (recorded ''tar'' (sys_error ''ENOENT'')) = ''Command tar not found''"
    by (simp add: recorded_def sys_error_def Error_def)
  from win have 1: "fst (extractTarGz ?pw ?a ?d ?w) = Inr ()"
    by simp
  from win have 2: "spawned (snd (extractTarGz ?pw ?a ?d ?w)) = [''tar.exe'', ?sys]"
    by (simp add: cw start_def)
  from px err msg have 3: "fst (extractTarGz ?pp ?a ?d ?w) =
      Inl (Error ''Failed to extract: Command tar not found'')"
    by (simp add: cp)
  from px have 4: "spawned (snd (extractTarGz ?pp ?a ?d ?w)) = [''tar'']"
    by (simp add: cp start_def)
  from 1 2 3 4 show ?thesis by (intro conjI)
qed

section \<open>Properties of the payload copy\<close>

text \<open>
  The payload copy into a destination that is absent (its parent being a
  directory) or an empty directory: the destination ends up holding the entries of
  the payload root, their subtrees without special files.
\<close>

lemma copy_contents_fresh:
  assumes src: "lookup (fs w) sourceDir = Some (Dir items)"
    and wf: "wf (Dir items)" and h: "height_entries items \<le> max_depth pf"
    and plain: "list_all (\<lambda>e. \<not> isSpecial (snd e)) items"
    and dest: "lookup (fs w) destDir = Some (Dir []) \<or>
               (destDir \<noteq> [] \<and> lookup (fs w) destDir = None \<and>
                (\<exists>ps. lookup (fs w) (butlast destDir) = Some (Dir ps)))"
    and d1: "\<not> prefix sourceDir destDir" and d2: "\<not> prefix destDir sourceDir"
  shows "copy_contents pf sourceDir destDir w =
      Some (Inr (), w\<lparr>fs := put (fs w) destDir (Dir (strip_entries items))\<rparr>)"
proof -
  let ?t1 = "put (fs w) destDir (Dir [])"
  from dest have mk: "mkdirSync (fs w) destDir = Inr ?t1"
  proof
    assume e: "lookup (fs w) destDir = Some (Dir [])"
    then show ?thesis
      by (simp add: mkdirSync_existing put_lookup_id)
  next
    assume "destDir \<noteq> [] \<and> lookup (fs w) destDir = None \<and>
      (\<exists>ps. lookup (fs w) (butlast destDir) = Some (Dir ps))"
    then show ?thesis
      by (auto intro: mkdirSync_fresh)
  qed
  from dest have dest1: "lookup ?t1 destDir = Some (Dir (strip_entries []))"
  proof
    assume "lookup (fs w) destDir = Some (Dir [])"
    then show ?thesis by (simp add: put_lookup_id)
  next
    assume "destDir \<noteq> [] \<and> lookup (fs w) destDir = None \<and>
      (\<exists>ps. lookup (fs w) (butlast destDir) = Some (Dir ps))"
    then show ?thesis
      by (auto simp: lookup_put_same)
  qed
  have src1: "lookup ?t1 sourceDir = Some (Dir ([] @ items))"
    using src d1 d2 by (simp add: lookup_put_other)
  then have rd: "readdirSync ?t1 sourceDir = Inr (map fst items)"
    by (simp add: readdirSync_def)
  have "copy_items pf sourceDir destDir (map fst items) ?t1 =
      Some (Inr (), put ?t1 destDir (Dir (strip_entries ([] @ items))))"
    using wf h plain by (intro copy_items_fresh [OF src1 _ _ _ _ dest1 d1 d2]) simp_all
  with mk rd show ?thesis
    by (simp add: copy_contents_def put_put_same)
qed

lemma sourceDir_of_wrapper:
  assumes "lookup tree extractDir = Some (Dir [(name, Dir ds)])"
  shows "sourceDir_of tree extractDir [name] sub =
      Inr (if truthy sub \<and> (\<exists>es. map_of ds (the sub) = Some (Dir es))
           then extractDir @ [name, the sub] else extractDir @ [name])"
proof -
  from assms have w: "lookup tree (extractDir @ [name]) = Some (Dir ds)"
    by (simp add: lookup_child)
  then have s: "lookup tree ((extractDir @ [name]) @ [the sub]) = map_of ds (the sub)"
    by (rule lookup_child)
  show ?thesis
  proof (cases "map_of ds (the sub)")
    case None
    with w s show ?thesis
      by (simp add: sourceDir_of_def statSync_def existsSync_def Let_def)
  next
    case (Some n)
    with w s show ?thesis
      by (cases n) (simp_all add: sourceDir_of_def statSync_def existsSync_def Let_def)
  qed
qed

lemma sourceDir_of_no_wrapper:
  assumes "lookup tree extractDir = Some (Dir es)"
    and "length es \<noteq> 1 \<or> \<not> isDirectory (snd (hd es))"
  shows "sourceDir_of tree extractDir (map fst es) sub = Inr extractDir"
proof (cases "length es = 1")
  case False
  then show ?thesis by (simp add: sourceDir_of_def)
next
  case True
  then obtain n c where es: "es = [(n, c)]"
    by (cases es) auto
  with assms have "lookup tree (extractDir @ [n]) = Some c" and "\<not> isDirectory c"
    by (simp_all add: lookup_child)
  with es show ?thesis
    by (simp add: sourceDir_of_def statSync_def)
qed

lemma sourceDir_of_artifact_agrees:
  assumes "lookup tree extractDir = Some (Dir es)"
    and "\<forall>name ds n. es = [(name, Dir ds)] \<longrightarrow> map_of ds (the sub) = Some n \<longrightarrow> isDirectory n"
  shows "sourceDir_of_artifact tree extractDir (map fst es) sub =
         sourceDir_of tree extractDir (map fst es) sub"
proof (cases "length es = 1")
  case False
  then show ?thesis by (simp add: sourceDir_of_def sourceDir_of_artifact_def)
next
  case True
  then obtain name c where es: "es = [(name, c)]"
    by (cases es) auto
  with assms have c: "lookup tree (extractDir @ [name]) = Some c"
    by (simp add: lookup_child)
  show ?thesis
  proof (cases c)
    case (Dir ds)
    with c have "lookup tree (extractDir @ [name]) = Some (Dir ds)"
      by simp
    then have s: "lookup tree ((extractDir @ [name]) @ [the sub]) = map_of ds (the sub)"
      by (rule lookup_child)
    show ?thesis
    proof (cases "map_of ds (the sub)")
      case None
      with es c Dir s show ?thesis
        by (simp add: sourceDir_of_def sourceDir_of_artifact_def statSync_def existsSync_def Let_def)
    next
      case (Some n)
      with assms(2) es Dir have "isDirectory n" by simp
      with es c Dir s Some show ?thesis
        by (simp add: sourceDir_of_def sourceDir_of_artifact_def statSync_def existsSync_def Let_def)
    qed
  next
    case (File b)
    with es c show ?thesis
      by (simp add: sourceDir_of_def sourceDir_of_artifact_def statSync_def)
  qed (use es c in \<open>simp_all add: sourceDir_of_def sourceDir_of_artifact_def statSync_def\<close>)
qed

section \<open>Properties of downloadAndExtractAsset\<close>

lemma mkdtempSync_creates:
  assumes "mkdtempSync pf tree = Inr (tempDir, fs1)"
  shows "tempDir \<noteq> []" and "lookup fs1 tempDir = Some (Dir [])" and "\<not> existsSync tree tempDir"
proof -
  let ?t = "tmpdir pf @ [''skia-download-'' @ mkdtemp_suffix pf tree]"
  from assms obtain es where es: "lookup tree (tmpdir pf) = Some (Dir es)"
    and ne: "\<not> existsSync tree ?t" and td: "tempDir = ?t" and fs1: "fs1 = put tree ?t (Dir [])"
    by (auto simp: mkdtempSync_def Let_def split: option.splits node.splits if_splits)
  from td show "tempDir \<noteq> []" by simp
  from es have "lookup tree (butlast ?t) = Some (Dir es)" by simp
  from lookup_put_same [OF _ this, of "Dir []"] td fs1 show "lookup fs1 tempDir = Some (Dir [])"
    by simp
  from ne td show "\<not> existsSync tree tempDir" by simp
qed

lemma with_cleanup_Some:
  "with_cleanup tempDir x = Some (r, w') \<longleftrightarrow>
     (\<exists>w1. x = Some (r, w1) \<and> w' = w1\<lparr>fs := rmSync (fs w1) tempDir\<rparr>)"
  by (auto simp: with_cleanup_def split: option.splits sum.splits)

text \<open>
  Claim C8.  Whenever a call of \<open>downloadAndExtractAsset\<close> ends, by returning or
  by throwing, the scratch directory it made is gone, and its result is the result
  of the \<open>try\<close> block: the error thrown inside is the error the caller sees.  The
  directory did exist while the block ran.  When the scratch directory cannot be
  made, nothing else is done.
\<close>

theorem scratch_directory_removed:
  "(mkdtempSync pf (fs w) = Inr (tempDir, fs1) \<and>
    downloadAndExtractAsset pf art tag destDir sub w = Some (r, w') \<longrightarrow>
      existsSync fs1 tempDir \<and> \<not> existsSync (fs w') tempDir \<and>
      (\<exists>w1. try_block (extractTarGz pf)
               (place_contents pf (tempDir @ [''extracted'']) destDir sub)
               (github_url REPO tag (art @ ''-'' @ tag @ ''.tar.gz''))
               (tempDir @ [art @ ''-'' @ tag @ ''.tar.gz''])
               (tempDir @ [''extracted'']) (w\<lparr>fs := fs1\<rparr>) = Some (r, w1) \<and>
            w' = w1\<lparr>fs := rmSync (fs w1) tempDir\<rparr>)) \<and>
   (mkdtempSync pf (fs w) = Inl e \<longrightarrow>
      downloadAndExtractAsset pf art tag destDir sub w = Some (Inl e, w))"
proof (intro conjI impI)
  assume a: "mkdtempSync pf (fs w) = Inr (tempDir, fs1) \<and>
    downloadAndExtractAsset pf art tag destDir sub w = Some (r, w')"
  then have mk: "mkdtempSync pf (fs w) = Inr (tempDir, fs1)" ..
  note made = mkdtempSync_creates [OF mk]
  from made(2) show "existsSync fs1 tempDir"
    by (simp add: existsSync_def)
  from a have "with_cleanup tempDir
      (try_block (extractTarGz pf)
         (place_contents pf (tempDir @ [''extracted'']) destDir sub)
         (github_url REPO tag (art @ ''-'' @ tag @ ''.tar.gz''))
         (tempDir @ [art @ ''-'' @ tag @ ''.tar.gz''])
         (tempDir @ [''extracted'']) (w\<lparr>fs := fs1\<rparr>)) = Some (r, w')"
    by (clarsimp simp: downloadAndExtractAsset_def Let_def)
  then show ex: "\<exists>w1. try_block (extractTarGz pf)
               (place_contents pf (tempDir @ [''extracted'']) destDir sub)
               (github_url REPO tag (art @ ''-'' @ tag @ ''.tar.gz''))
               (tempDir @ [art @ ''-'' @ tag @ ''.tar.gz''])
               (tempDir @ [''extracted'']) (w\<lparr>fs := fs1\<rparr>) = Some (r, w1) \<and>
            w' = w1\<lparr>fs := rmSync (fs w1) tempDir\<rparr>"
    by (simp only: with_cleanup_Some)
  then obtain w1 where "w' = w1\<lparr>fs := rmSync (fs w1) tempDir\<rparr>" by blast
  with made(1) show "\<not> existsSync (fs w') tempDir"
    by (simp add: existsSync_def rmSync_def lookup_remove_same)
next
  assume "mkdtempSync pf (fs w) = Inl e"
  then show "downloadAndExtractAsset pf art tag destDir sub w = Some (Inl e, w)"
    by (simp add: downloadAndExtractAsset_def Let_def)
qed

theorem scratch_directory_removed_witness:
  "downloadAndExtractAsset (posix (tar_yields wrapped_archive)) ''skia-apple-ios-xcframeworks''
     ''skia-m144c'' [''out'', ''libs''] (Some ''ios'') (start disk [respond 404 ''Not Found'' None]) =
     Some (Inl \<lparr>message = ''Failed to download: 404 Not Found'', statusCode = Some 404, code = None\<rparr>,
           \<lparr>fs = disk, net = [],
              requests = [''https://github.com/shopify/react-native-skia/releases/download/skia-m144c/skia-apple-ios-xcframeworks-skia-m144c.tar.gz''],
              attempts = 1, retries = [], spawned = []\<rparr>) \<and>
   existsSync (Dir [(''tmp'', Dir [(''skia-download-X'', Dir [])]), (''out'', Dir [])])
     [''tmp'', ''skia-download-X''] \<and>
   \<not> existsSync disk [''tmp'', ''skia-download-X''] \<and>
   \<not> existsSync
      (fs (snd (the (downloadAndExtractAsset (posix (tar_yields wrapped_archive))
         ''skia-apple-ios-xcframeworks'' ''skia-m144c'' [''out'', ''libs''] (Some ''ios'')
         (start disk [ok_response]))))) [''tmp'', ''skia-download-X'']"
proof -
  let ?pf = "posix (tar_yields wrapped_archive)"
  let ?bad = "start disk [respond 404 ''Not Found'' None]" and ?good = "start disk [ok_response]"
  let ?temp = "[''tmp'', ''skia-download-X'']"
  let ?fs1 = "Dir [(''tmp'', Dir [(''skia-download-X'', Dir [])]), (''out'', Dir [])]"
  let ?e = "\<lparr>message = ''Failed to download: 404 Not Found'', statusCode = Some 404, code = None\<rparr>"
  let ?w' = "\<lparr>fs = disk, net = [],
              requests = [''https://github.com/shopify/react-native-skia/releases/download/skia-m144c/skia-apple-ios-xcframeworks-skia-m144c.tar.gz''],
              attempts = 1, retries = [], spawned = []\<rparr>"
  have run_bad: "downloadAndExtractAsset ?pf ''skia-apple-ios-xcframeworks'' ''skia-m144c''
      [''out'', ''libs''] (Some ''ios'') ?bad = Some (Inl ?e, ?w')"
    by code_simp
  have mk_bad: "mkdtempSync ?pf (fs ?bad) = Inr (?temp, ?fs1)"
    by code_simp
  have mk_good: "mkdtempSync ?pf (fs ?good) = Inr (?temp, ?fs1)"
    by code_simp
  define r :: "js_error + unit" where "r = Inr ()"
  define w'' where "w'' = \<lparr>fs = Dir [(''tmp'', Dir []),
        (''out'', Dir [(''libs'', Dir [(''libskia.xcframework'', Dir [(''Info.plist'', File ''plist'')]),
                                       (''libsvg.xcframework'', Dir [])])])],
      net = [],
      requests = [''https://github.com/shopify/react-native-skia/releases/download/skia-m144c/skia-apple-ios-xcframeworks-skia-m144c.tar.gz''],
      attempts = 1, retries = [], spawned = [''tar'']\<rparr>"
  have run_good: "downloadAndExtractAsset ?pf ''skia-apple-ios-xcframeworks''
      ''skia-m144c'' [''out'', ''libs''] (Some ''ios'') ?good = Some (r, w'')"
    unfolding r_def w''_def by code_simp
  from mk_bad run_bad have hb: "mkdtempSync ?pf (fs ?bad) = Inr (?temp, ?fs1) \<and>
      downloadAndExtractAsset ?pf ''skia-apple-ios-xcframeworks'' ''skia-m144c''
        [''out'', ''libs''] (Some ''ios'') ?bad = Some (Inl ?e, ?w')" ..
  note bad = scratch_directory_removed [THEN conjunct1, THEN mp, OF hb]
  from mk_good run_good have hg: "mkdtempSync ?pf (fs ?good) = Inr (?temp, ?fs1) \<and>
      downloadAndExtractAsset ?pf ''skia-apple-ios-xcframeworks'' ''skia-m144c''
        [''out'', ''libs''] (Some ''ios'') ?good = Some (r, w'')" ..
  note good = scratch_directory_removed [THEN conjunct1, THEN mp, OF hg]
  from bad have 2: "existsSync ?fs1 ?temp" ..
  from bad have 3: "\<not> existsSync disk ?temp" by simp
  from good run_good have 4: "\<not> existsSync (fs (snd (the (downloadAndExtractAsset ?pf
      ''skia-apple-ios-xcframeworks'' ''skia-m144c'' [''out'', ''libs''] (Some ''ios'') ?good)))) ?temp"
    by simp
  from run_bad 2 3 4 show ?thesis by (intro conjI)
qed

section \<open>Payload discovery\<close>

text \<open>
  Claim C2, as stated, fails: with several top-level entries the subdirectory
  named by \<open>sourceSubdir\<close> is not descended into, although it exists as a directory
  directly under the root.  The extraction directory stays the payload root, and
  the destination receives \<open>ios\<close> and \<open>README.md\<close> instead of the frameworks.
\<close>

theorem payload_root_counterexample:
  "isDirectory (the (lookup (Dir [(''extracted'', Dir flat_archive)]) [''extracted'', ''ios''])) \<and>
   sourceDir_of (Dir [(''extracted'', Dir flat_archive)]) [''extracted''] (map fst flat_archive)
     (Some ''ios'') = Inr [''extracted''] \<and>
   downloadAndExtractAsset (posix (tar_yields flat_archive)) ''skia-apple-ios-xcframeworks''
     ''skia-m144c'' [''out'', ''libs''] (Some ''ios'') (start disk [ok_response]) =
     Some (Inr (),
           \<lparr>fs = Dir [(''tmp'', Dir []),
                      (''out'', Dir [(''libs'', Dir [(''ios'', Dir ios_frameworks),
                                                     (''README.md'', File ''readme'')])])],
              net = [],
              requests = [''https://github.com/shopify/react-native-skia/releases/download/skia-m144c/skia-apple-ios-xcframeworks-skia-m144c.tar.gz''],
              attempts = 1, retries = [], spawned = [''tar'']\<rparr>)"
  by code_simp

text \<open>
  Claim C2, amended.  In \<open>downloadAndExtractAsset\<close> a single top-level entry that
  is a directory becomes the payload root, and a non-empty \<open>sourceSubdir\<close> that
  names a directory directly under that wrapper is descended into as well.  In
  every other case, whatever \<open>sourceSubdir\<close> is, the extraction directory itself is
  the payload root.  \<open>downloadArtifact\<close> finds the same root whenever the entry
  that \<open>sourceSubdir\<close> names under the wrapper is absent or a directory.
  Consequently a tree \<open>wrapper/<sub>/<items>\<close> staged with that \<open>sourceSubdir\<close>
  into a destination that is new or empty leaves exactly the names of the items in
  the destination.
\<close>

theorem payload_discovery:
  "(lookup tree extractDir = Some (Dir [(name, Dir ds)]) \<longrightarrow>
      readdirSync tree extractDir = Inr [name] \<and>
      sourceDir_of tree extractDir [name] sub =
        Inr (if truthy sub \<and> (\<exists>es. map_of ds (the sub) = Some (Dir es))
             then extractDir @ [name, the sub] else extractDir @ [name])) \<and>
   (lookup tree extractDir = Some (Dir es) \<and> (length es \<noteq> 1 \<or> \<not> isDirectory (snd (hd es))) \<longrightarrow>
      readdirSync tree extractDir = Inr (map fst es) \<and>
      sourceDir_of tree extractDir (map fst es) sub = Inr extractDir) \<and>
   (lookup tree extractDir = Some (Dir es) \<and>
    (\<forall>name ds n. es = [(name, Dir ds)] \<longrightarrow> map_of ds (the sub) = Some n \<longrightarrow> isDirectory n) \<longrightarrow>
      sourceDir_of_artifact tree extractDir (map fst es) sub =
      sourceDir_of tree extractDir (map fst es) sub) \<and>
   (lookup (fs w) extractDir = Some (Dir [(name, Dir ds)]) \<and> s \<noteq> [] \<and>
    map_of ds s = Some (Dir items) \<and> wf (Dir items) \<and> height_entries items \<le> max_depth pf \<and>
    list_all (\<lambda>e. \<not> isSpecial (snd e)) items \<and>
    (lookup (fs w) destDir = Some (Dir []) \<or>
     (destDir \<noteq> [] \<and> lookup (fs w) destDir = None \<and>
      (\<exists>ps. lookup (fs w) (butlast destDir) = Some (Dir ps)))) \<and>
    \<not> prefix extractDir destDir \<and> \<not> prefix destDir extractDir \<longrightarrow>
      (\<exists>w'. place_contents pf extractDir destDir (Some s) w = Some (Inr (), w') \<and>
            place_contents_artifact pf extractDir destDir (Some s) w = Some (Inr (), w') \<and>
            readdirSync (fs w') destDir = Inr (map fst items)))"
proof (intro conjI impI)
  assume a: "lookup tree extractDir = Some (Dir [(name, Dir ds)])"
  then show "readdirSync tree extractDir = Inr [name]"
    by (simp add: readdirSync_def)
  from a show "sourceDir_of tree extractDir [name] sub =
        Inr (if truthy sub \<and> (\<exists>es. map_of ds (the sub) = Some (Dir es))
             then extractDir @ [name, the sub] else extractDir @ [name])"
    by (rule sourceDir_of_wrapper)
next
  assume a: "lookup tree extractDir = Some (Dir es) \<and>
    (length es \<noteq> 1 \<or> \<not> isDirectory (snd (hd es)))"
  then show "readdirSync tree extractDir = Inr (map fst es)"
    by (simp add: readdirSync_def)
  from a show "sourceDir_of tree extractDir (map fst es) sub = Inr extractDir"
    by (intro sourceDir_of_no_wrapper) simp_all
next
  assume "lookup tree extractDir = Some (Dir es) \<and>
    (\<forall>name ds n. es = [(name, Dir ds)] \<longrightarrow> map_of ds (the sub) = Some n \<longrightarrow> isDirectory n)"
  then show "sourceDir_of_artifact tree extractDir (map fst es) sub =
      sourceDir_of tree extractDir (map fst es) sub"
    by (intro sourceDir_of_artifact_agrees) simp_all
next
  assume a: "lookup (fs w) extractDir = Some (Dir [(name, Dir ds)]) \<and> s \<noteq> [] \<and>
    map_of ds s = Some (Dir items) \<and> wf (Dir items) \<and> height_entries items \<le> max_depth pf \<and>
    list_all (\<lambda>e. \<not> isSpecial (snd e)) items \<and>
    (lookup (fs w) destDir = Some (Dir []) \<or>
     (destDir \<noteq> [] \<and> lookup (fs w) destDir = None \<and>
      (\<exists>ps. lookup (fs w) (butlast destDir) = Some (Dir ps)))) \<and>
    \<not> prefix extractDir destDir \<and> \<not> prefix destDir extractDir"
  let ?root = "extractDir @ [name, s]"
  let ?w' = "w\<lparr>fs := put (fs w) destDir (Dir (strip_entries items))\<rparr>"
  from a have top: "lookup (fs w) extractDir = Some (Dir [(name, Dir ds)])" by simp
  from a have sub: "map_of ds s = Some (Dir items)" "s \<noteq> []" by simp_all
  from top have listing: "readdirSync (fs w) extractDir = Inr [name]"
    by (simp add: readdirSync_def)
  from sourceDir_of_wrapper [OF top, of "Some s"] sub
  have root: "sourceDir_of (fs w) extractDir [name] (Some s) = Inr ?root"
    by simp
  have "sourceDir_of_artifact (fs w) extractDir (map fst [(name, Dir ds)]) (Some s) =
      sourceDir_of (fs w) extractDir (map fst [(name, Dir ds)]) (Some s)"
    using top sub by (intro sourceDir_of_artifact_agrees) simp_all
  with root have root': "sourceDir_of_artifact (fs w) extractDir [name] (Some s) = Inr ?root"
    by simp
  from top have "lookup (fs w) (extractDir @ [name]) = Some (Dir ds)"
    by (simp add: lookup_child)
  from lookup_child [OF this, of s] sub have src: "lookup (fs w) ?root = Some (Dir items)"
    by simp
  from a have d: "\<not> prefix ?root destDir" "\<not> prefix destDir ?root"
    using not_prefix_append [of extractDir destDir "[name, s]"] by simp_all
  have copy: "copy_contents pf ?root destDir w = Some (Inr (), ?w')"
    using a by (intro copy_contents_fresh [OF src _ _ _ _ d]) simp_all
  from listing root copy have 1: "place_contents pf extractDir destDir (Some s) w = Some (Inr (), ?w')"
    by (simp add: place_contents_def)
  from listing root' copy
  have 2: "place_contents_artifact pf extractDir destDir (Some s) w = Some (Inr (), ?w')"
    by (simp add: place_contents_artifact_def)
  from a have "lookup (put (fs w) destDir (Dir (strip_entries items))) destDir =
      Some (Dir (strip_entries items))"
    by (intro lookup_put_same') auto
  with a have 3: "readdirSync (fs ?w') destDir = Inr (map fst items)"
    by (simp add: readdirSync_def strip_entries_plain_keys)
  from 1 2 3 show "\<exists>w'. place_contents pf extractDir destDir (Some s) w = Some (Inr (), w') \<and>
            place_contents_artifact pf extractDir destDir (Some s) w = Some (Inr (), w') \<and>
            readdirSync (fs w') destDir = Inr (map fst items)"
    by (intro exI [of _ ?w'] conjI)
qed

theorem payload_discovery_witness:
  "(\<exists>w'. place_contents (posix no_tar) scratch_extracted [''out'', ''libs''] (Some ''ios'')
             (start (extracted_disk wrapped_archive) []) = Some (Inr (), w') \<and>
          readdirSync (fs w') [''out'', ''libs''] =
            Inr [''libskia.xcframework'', ''libsvg.xcframework'']) \<and>
   sourceDir_of (extracted_disk flat_archive) scratch_extracted (map fst flat_archive)
     (Some ''ios'') = Inr scratch_extracted"
proof -
  let ?pf = "posix no_tar" and ?dest = "[''out'', ''libs'']"
  let ?w = "start (extracted_disk wrapped_archive) []"
  have h: "lookup (fs ?w) scratch_extracted = Some (Dir [(''wrapper'', Dir [(''ios'', Dir ios_frameworks)])]) \<and>
    ''ios'' \<noteq> [] \<and>
    map_of [(''ios'', Dir ios_frameworks)] ''ios'' = Some (Dir ios_frameworks) \<and>
    wf (Dir ios_frameworks) \<and> height_entries ios_frameworks \<le> max_depth ?pf \<and>
    list_all (\<lambda>e. \<not> isSpecial (snd e)) ios_frameworks \<and>
    (lookup (fs ?w) ?dest = Some (Dir []) \<or>
     (?dest \<noteq> [] \<and> lookup (fs ?w) ?dest = None \<and>
      (\<exists>ps. lookup (fs ?w) (butlast ?dest) = Some (Dir ps)))) \<and>
    \<not> prefix scratch_extracted ?dest \<and> \<not> prefix ?dest scratch_extracted"
    by (simp add: start_def extracted_disk_def scratch_extracted_def wrapped_archive_def
        ios_frameworks_def posix_def)
  from payload_discovery [where w = ?w and extractDir = scratch_extracted and name = "''wrapper''"
      and ds = "[(''ios'', Dir ios_frameworks)]" and s = "''ios''" and items = ios_frameworks
      and pf = ?pf and destDir = ?dest,
      THEN conjunct2, THEN conjunct2, THEN conjunct2, THEN mp, OF h]
  obtain w' where c: "place_contents ?pf scratch_extracted ?dest (Some ''ios'') ?w = Some (Inr (), w') \<and>
      place_contents_artifact ?pf scratch_extracted ?dest (Some ''ios'') ?w = Some (Inr (), w') \<and>
      readdirSync (fs w') ?dest = Inr (map fst ios_frameworks)" ..
  then have 1: "\<exists>w'. place_contents ?pf scratch_extracted ?dest (Some ''ios'') ?w = Some (Inr (), w') \<and>
          readdirSync (fs w') ?dest = Inr [''libskia.xcframework'', ''libsvg.xcframework'']"
    by (intro exI [of _ w']) (simp add: ios_frameworks_def)
  have g: "lookup (extracted_disk flat_archive) scratch_extracted = Some (Dir flat_archive) \<and>
    (length flat_archive \<noteq> 1 \<or> \<not> isDirectory (snd (hd flat_archive)))"
    by (simp add: extracted_disk_def scratch_extracted_def flat_archive_def)
  from payload_discovery [where tree = "extracted_disk flat_archive" and extractDir = scratch_extracted
      and es = flat_archive and sub = "Some ''ios''",
      THEN conjunct2, THEN conjunct1, THEN mp, OF g]
  have 2: "sourceDir_of (extracted_disk flat_archive) scratch_extracted (map fst flat_archive)
     (Some ''ios'') = Inr scratch_extracted"
    by simp
  from 1 2 show ?thesis by (rule conjI)
qed

section \<open>Empty archives and special files\<close>

text \<open>
  Claim C6 holds for \<open>downloadAndExtractAsset\<close> and fails for \<open>downloadArtifact\<close>.
  When the extraction directory lists no entry, the block of
  \<open>downloadAndExtractAsset\<close> throws \<open>Archive extracted but no contents found\<close> and
  leaves the world as it found it: nothing is copied, the destination is not even
  created.  The block of \<open>downloadArtifact\<close> has no such test: it creates the
  destination, copies nothing and returns.
\<close>

theorem empty_extraction:
  "(readdirSync (fs w) extractDir = Inr [] \<longrightarrow>
      place_contents pf extractDir destDir sub w =
        Some (Inl (Error ''Archive extracted but no contents found''), w)) \<and>
   (readdirSync (fs w) extractDir = Inr [] \<and> mkdirSync (fs w) destDir = Inr fs1 \<and>
    readdirSync fs1 extractDir = Inr [] \<longrightarrow>
      place_contents_artifact pf extractDir destDir sub w = Some (Inr (), w\<lparr>fs := fs1\<rparr>)) \<and>
   (mkdtempSync pf (fs w) = Inr (tempDir, fs1) \<and>
    downloadToFile (github_url REPO tag (art @ ''-'' @ tag @ ''.tar.gz''))
      (tempDir @ [art @ ''-'' @ tag @ ''.tar.gz'']) 5 (w\<lparr>fs := fs1\<rparr>) = Some (Inr (), w1) \<and>
    extractTarGz pf (tempDir @ [art @ ''-'' @ tag @ ''.tar.gz'']) (tempDir @ [''extracted'']) w1 =
      (Inr (), w2) \<and>
    readdirSync (fs w2) (tempDir @ [''extracted'']) = Inr [] \<longrightarrow>
      downloadAndExtractAsset pf art tag destDir sub w =
        Some (Inl (Error ''Archive extracted but no contents found''),
              w2\<lparr>fs := rmSync (fs w2) tempDir\<rparr>))"
proof (intro conjI impI)
  assume "readdirSync (fs w) extractDir = Inr []"
  then show "place_contents pf extractDir destDir sub w =
        Some (Inl (Error ''Archive extracted but no contents found''), w)"
    by (simp add: place_contents_def)
next
  assume a: "readdirSync (fs w) extractDir = Inr [] \<and> mkdirSync (fs w) destDir = Inr fs1 \<and>
    readdirSync fs1 extractDir = Inr []"
  then have "sourceDir_of_artifact (fs w) extractDir [] sub = Inr extractDir"
    by (simp add: sourceDir_of_artifact_def)
  with a show "place_contents_artifact pf extractDir destDir sub w = Some (Inr (), w\<lparr>fs := fs1\<rparr>)"
    by (simp add: place_contents_artifact_def copy_contents_def)
next
  assume a: "mkdtempSync pf (fs w) = Inr (tempDir, fs1) \<and>
    downloadToFile (github_url REPO tag (art @ ''-'' @ tag @ ''.tar.gz''))
      (tempDir @ [art @ ''-'' @ tag @ ''.tar.gz'']) 5 (w\<lparr>fs := fs1\<rparr>) = Some (Inr (), w1) \<and>
    extractTarGz pf (tempDir @ [art @ ''-'' @ tag @ ''.tar.gz'']) (tempDir @ [''extracted'']) w1 =
      (Inr (), w2) \<and>
    readdirSync (fs w2) (tempDir @ [''extracted'']) = Inr []"
  then have "place_contents pf (tempDir @ [''extracted'']) destDir sub w2 =
      Some (Inl (Error ''Archive extracted but no contents found''), w2)"
    by (simp add: place_contents_def)
  with a show "downloadAndExtractAsset pf art tag destDir sub w =
        Some (Inl (Error ''Archive extracted but no contents found''),
              w2\<lparr>fs := rmSync (fs w2) tempDir\<rparr>)"
    by (simp add: downloadAndExtractAsset_def Let_def try_block_def with_cleanup_def)
qed

theorem empty_extraction_witness:
  "place_contents (posix no_tar) scratch_extracted [''out''] (Some '''')
     (start (extracted_disk []) []) =
     Some (Inl (Error ''Archive extracted but no contents found''), start (extracted_disk []) []) \<and>
   place_contents_artifact (posix no_tar) scratch_extracted [''out''] (Some '''')
     (start (extracted_disk []) []) = Some (Inr (), start (extracted_disk []) []) \<and>
   downloadArtifact (posix (tar_yields [])) headers_config ''m144c'' [''out''] True
     (start disk [ok_response]) =
     Some (Inr (),
           \<lparr>fs = disk, net = [],
              requests = [''https://github.com/shopify/react-native-skia/releases/download/skia-graphite-m144c/skia-graphite-headers-skia-graphite-m144c.tar.gz''],
              attempts = 1, retries = [], spawned = [''tar'']\<rparr>) \<and>
   downloadAndExtractAsset (posix (tar_yields [])) ''skia-graphite-headers'' ''skia-graphite-m144c''
     [''out''] (Some ''headers'') (start disk [ok_response]) =
     Some (Inl (Error ''Archive extracted but no contents found''),
           \<lparr>fs = disk, net = [],
              requests = [''https://github.com/shopify/react-native-skia/releases/download/skia-graphite-m144c/skia-graphite-headers-skia-graphite-m144c.tar.gz''],
              attempts = 1, retries = [], spawned = [''tar'']\<rparr>)"
proof -
  let ?w = "start (extracted_disk []) []"
  have h1: "readdirSync (fs ?w) scratch_extracted = Inr []"
    by (simp add: start_def extracted_disk_def scratch_extracted_def readdirSync_def)
  have h2: "readdirSync (fs ?w) scratch_extracted = Inr [] \<and>
      mkdirSync (fs ?w) [''out''] = Inr (extracted_disk []) \<and>
      readdirSync (extracted_disk []) scratch_extracted = Inr []"
    by (simp add: start_def extracted_disk_def scratch_extracted_def readdirSync_def)
  note 1 = empty_extraction [THEN conjunct1, THEN mp, OF h1, of "posix no_tar" "[''out'']" "Some ''''"]
  from empty_extraction [THEN conjunct2, THEN conjunct1, THEN mp, OF h2, of "posix no_tar" "Some ''''"]
  have 2: "place_contents_artifact (posix no_tar) scratch_extracted [''out''] (Some '''') ?w =
      Some (Inr (), ?w)"
    by (simp add: start_def)
  have 3: "downloadArtifact (posix (tar_yields [])) headers_config ''m144c'' [''out''] True
     (start disk [ok_response]) =
     Some (Inr (),
           \<lparr>fs = disk, net = [],
              requests = [''https://github.com/shopify/react-native-skia/releases/download/skia-graphite-m144c/skia-graphite-headers-skia-graphite-m144c.tar.gz''],
              attempts = 1, retries = [], spawned = [''tar'']\<rparr>)"
    by code_simp
  have 4: "downloadAndExtractAsset (posix (tar_yields [])) ''skia-graphite-headers'' ''skia-graphite-m144c''
     [''out''] (Some ''headers'') (start disk [ok_response]) =
     Some (Inl (Error ''Archive extracted but no contents found''),
           \<lparr>fs = disk, net = [],
              requests = [''https://github.com/shopify/react-native-skia/releases/download/skia-graphite-m144c/skia-graphite-headers-skia-graphite-m144c.tar.gz''],
              attempts = 1, retries = [], spawned = [''tar'']\<rparr>)"
    by code_simp
  from 1 2 3 4 show ?thesis by (intro conjI)
qed

text \<open>
  Claim C9 holds for \<open>copyDir\<close> and fails for the loop of \<open>downloadAndExtractAsset\<close>
  that copies the items of the payload root: that loop tests only whether an item
  is a directory and hands everything else to \<open>copyFileSync\<close>.  For a payload root
  holding \<open>a.txt\<close> and a named pipe, whatever reading the pipe does on the platform:
  the call never returns, or it throws the platform's error after \<open>a.txt\<close> has been
  copied, or it returns with a destination entry for the pipe.  It never skips the
  pipe in silence.  The same two entries one level down, copied by \<open>copyDir\<close>, give
  \<open>lib/a.txt\<close> alone.
\<close>

theorem top_level_special_file:
  "downloadAndExtractAsset (posix_reading r (tar_yields pipe_archive)) ''skia-android-arm''
     ''skia-m144c'' [''out'', ''libs''] None (start disk [ok_response]) =
     (case r of
        None \<Rightarrow> None
      | Some (Inl e) \<Rightarrow>
          Some (Inl e,
                \<lparr>fs = Dir [(''tmp'', Dir []), (''out'', Dir [(''libs'', Dir [(''a.txt'', File ''a'')])])],
                   net = [],
                   requests = [''https://github.com/shopify/react-native-skia/releases/download/skia-m144c/skia-android-arm-skia-m144c.tar.gz''],
                   attempts = 1, retries = [], spawned = [''tar'']\<rparr>)
      | Some (Inr bytes) \<Rightarrow>
          Some (Inr (),
                \<lparr>fs = Dir [(''tmp'', Dir []),
                           (''out'', Dir [(''libs'', Dir [(''a.txt'', File ''a''),
                                                          (''pipe'', File bytes)])])],
                   net = [],
                   requests = [''https://github.com/shopify/react-native-skia/releases/download/skia-m144c/skia-android-arm-skia-m144c.tar.gz''],
                   attempts = 1, retries = [], spawned = [''tar'']\<rparr>)) \<and>
   downloadAndExtractAsset (posix_reading r (tar_yields nested_pipe_archive)) ''skia-android-arm''
     ''skia-m144c'' [''out'', ''libs''] None (start disk [ok_response]) =
     Some (Inr (),
           \<lparr>fs = Dir [(''tmp'', Dir []),
                      (''out'', Dir [(''libs'', Dir [(''lib'', Dir [(''a.txt'', File ''a'')]),
                                                     (''README.md'', File ''readme'')])])],
              net = [],
              requests = [''https://github.com/shopify/react-native-skia/releases/download/skia-m144c/skia-android-arm-skia-m144c.tar.gz''],
              attempts = 1, retries = [], spawned = [''tar'']\<rparr>)"
proof (cases r)
  case None
  then show ?thesis
    by simp code_simp
next
  case (Some a)
  show ?thesis
  proof (cases a)
    case (Inl e)
    with Some show ?thesis
      by simp code_simp
  next
    case (Inr bytes)
    with Some show ?thesis
      by simp code_simp
  qed
qed

section \<open>The installed check of postinstall.mjs\<close>

lemma some_arch_installed_found:
  assumes "\<forall>b\<in>set pre. lookup tree (libsDir @ [arch b]) = None \<or>
                         (\<exists>es. lookup tree (libsDir @ [arch b]) = Some (Dir es))"
    and "lookup tree (libsDir @ [arch a]) = Some (Dir files)"
    and "list_ex (\<lambda>f. endsWith f ''.a'') (map fst files)"
  shows "some_arch_installed tree libsDir (pre @ a # post) = Inr True"
  using assms
proof (induction pre)
  case Nil
  then show ?case
    by (simp add: existsSync_def readdirSync_def)
next
  case (Cons b pre)
  from Cons.prems(1) have b: "lookup tree (libsDir @ [arch b]) = None \<or>
      (\<exists>es. lookup tree (libsDir @ [arch b]) = Some (Dir es))"
    by simp
  from Cons have rest: "some_arch_installed tree libsDir (pre @ a # post) = Inr True"
    by simp
  from b show ?case
  proof
    assume "lookup tree (libsDir @ [arch b]) = None"
    with rest show ?thesis
      by (simp add: existsSync_def)
  next
    assume "\<exists>es. lookup tree (libsDir @ [arch b]) = Some (Dir es)"
    then obtain es where "lookup tree (libsDir @ [arch b]) = Some (Dir es)" ..
    with rest show ?thesis
      by (simp add: existsSync_def readdirSync_def)
  qed
qed

text \<open>
  Claim C10, as stated, fails: \<open>isInstalled\<close> lists every configured architecture
  path that exists, and \<open>readdirSync\<close> throws on one that is not a directory.  Here
  the second architecture is installed, but the path of the first is a regular
  file: the exception is not caught and the process ends with status 1.
\<close>

theorem installed_counterexample:
  "lookup file_in_the_way [''pkg'', ''libs'', ''arm64-v8a''] =
     Some (Dir [(''libskia.a'', File ''lib'')]) \<and>
   endsWith ''libskia.a'' ''.a'' \<and>
   isInstalled android_package [''pkg'', ''libs''] file_in_the_way = Inl (sys_error ''ENOTDIR'') \<and>
   postinstall (posix no_tar) None android_package [''pkg'', ''libs'']
     (start file_in_the_way [ok_response]) = Some (1, start file_in_the_way [ok_response])"
  by code_simp

text \<open>
  Claim C10, amended.  When \<open>isInstalled()\<close> returns true the script ends with
  status 0 and leaves the world as it is: no request is made and the libs
  directory is not touched.  It returns true for a non-empty libs directory of an
  Android package when some configured architecture directory lists an entry
  ending in \<open>.a\<close> and every architecture configured before it names a path that is
  absent or a directory; of an Apple package when a top-level entry ends in
  \<open>.xcframework\<close>; of any other package always.  A package with one architecture
  installed and the others absent is therefore not downloaded again.
\<close>

theorem installed_packages_are_kept:
  "(isInstalled skia libsDir (fs w) = Inr True \<longrightarrow>
      postinstall pf skip skia libsDir w = Some (0, w)) \<and>
   (lookup tree libsDir = Some (Dir entries) \<and> entries \<noteq> [] \<and>
    platform_name skia = ''android'' \<and> androidArchs skia = Some (pre @ a # post) \<and>
    (\<forall>b\<in>set pre. lookup tree (libsDir @ [arch b]) = None \<or>
                   (\<exists>es. lookup tree (libsDir @ [arch b]) = Some (Dir es))) \<and>
    lookup tree (libsDir @ [arch a]) = Some (Dir files) \<and>
    list_ex (\<lambda>f. endsWith f ''.a'') (map fst files) \<longrightarrow>
      isInstalled skia libsDir tree = Inr True) \<and>
   (lookup tree libsDir = Some (Dir entries) \<and> platform_name skia = ''apple'' \<and>
    list_ex (\<lambda>e. endsWith e ''.xcframework'') (map fst entries) \<longrightarrow>
      isInstalled skia libsDir tree = Inr True) \<and>
   (lookup tree libsDir = Some (Dir entries) \<and> entries \<noteq> [] \<and>
    platform_name skia \<noteq> ''android'' \<and> platform_name skia \<noteq> ''apple'' \<longrightarrow>
      isInstalled skia libsDir tree = Inr True)"
proof (intro conjI impI)
  assume "isInstalled skia libsDir (fs w) = Inr True"
  then show "postinstall pf skip skia libsDir w = Some (0, w)"
    by (simp add: postinstall_def)
next
  assume a: "lookup tree libsDir = Some (Dir entries) \<and> entries \<noteq> [] \<and>
    platform_name skia = ''android'' \<and> androidArchs skia = Some (pre @ a # post) \<and>
    (\<forall>b\<in>set pre. lookup tree (libsDir @ [arch b]) = None \<or>
                   (\<exists>es. lookup tree (libsDir @ [arch b]) = Some (Dir es))) \<and>
    lookup tree (libsDir @ [arch a]) = Some (Dir files) \<and>
    list_ex (\<lambda>f. endsWith f ''.a'') (map fst files)"
  then have p1: "\<forall>b\<in>set pre. lookup tree (libsDir @ [arch b]) = None \<or>
                   (\<exists>es. lookup tree (libsDir @ [arch b]) = Some (Dir es))"
    and p2: "lookup tree (libsDir @ [arch a]) = Some (Dir files)"
    and p3: "list_ex (\<lambda>f. endsWith f ''.a'') (map fst files)"
    by simp_all
  have "some_arch_installed tree libsDir (pre @ a # post) = Inr True"
    using p1 p2 p3 by (rule some_arch_installed_found)
  with a show "isInstalled skia libsDir tree = Inr True"
    by (simp add: isInstalled_def existsSync_def readdirSync_def)
next
  assume a: "lookup tree libsDir = Some (Dir entries) \<and> platform_name skia = ''apple'' \<and>
    list_ex (\<lambda>e. endsWith e ''.xcframework'') (map fst entries)"
  then have "entries \<noteq> []" by auto
  with a show "isInstalled skia libsDir tree = Inr True"
    by (simp add: isInstalled_def existsSync_def readdirSync_def)
next
  assume "lookup tree libsDir = Some (Dir entries) \<and> entries \<noteq> [] \<and>
    platform_name skia \<noteq> ''android'' \<and> platform_name skia \<noteq> ''apple''"
  then show "isInstalled skia libsDir tree = Inr True"
    by (simp add: isInstalled_def existsSync_def readdirSync_def)
qed

theorem installed_packages_are_kept_witness:
  "isInstalled android_package [''pkg'', ''libs''] partly_installed = Inr True \<and>
   postinstall (posix no_tar) None android_package [''pkg'', ''libs'']
     (start partly_installed [ok_response]) = Some (0, start partly_installed [ok_response])"
proof -
  let ?a1 = "\<lparr>arch = ''armeabi-v7a'', arch_assetName = ''skia-android-arm-skia-m144c.tar.gz'',
               arch_srcSubdir = Some ''armeabi-v7a''\<rparr>"
  let ?a2 = "\<lparr>arch = ''arm64-v8a'', arch_assetName = ''skia-android-arm-64-skia-m144c.tar.gz'',
               arch_srcSubdir = Some ''arm64-v8a''\<rparr>"
  let ?libs = "[''pkg'', ''libs'']"
  have h: "lookup partly_installed ?libs = Some (Dir [(''arm64-v8a'', Dir [(''libskia.a'', File ''lib'')])]) \<and>
    [(''arm64-v8a'', Dir [(''libskia.a'', File ''lib'')])] \<noteq> [] \<and>
    platform_name android_package = ''android'' \<and>
    androidArchs android_package = Some ([?a1] @ ?a2 # []) \<and>
    (\<forall>b\<in>set [?a1]. lookup partly_installed (?libs @ [arch b]) = None \<or>
                   (\<exists>es. lookup partly_installed (?libs @ [arch b]) = Some (Dir es))) \<and>
    lookup partly_installed (?libs @ [arch ?a2]) = Some (Dir [(''libskia.a'', File ''lib'')]) \<and>
    list_ex (\<lambda>f. endsWith f ''.a'') (map fst [(''libskia.a'', File ''lib'')])"
  proof -
    have e: "endsWith ''libskia.a'' ''.a''" by code_simp
    then show ?thesis
      by (simp add: partly_installed_def android_package_def)
  qed
  note 1 = installed_packages_are_kept [THEN conjunct2, THEN conjunct1, THEN mp, OF h]
  have "isInstalled android_package ?libs (fs (start partly_installed [ok_response])) = Inr True"
    using 1 by (simp add: start_def)
  from installed_packages_are_kept [THEN conjunct1, THEN mp, OF this, of "posix no_tar" None]
  have 2: "postinstall (posix no_tar) None android_package ?libs
     (start partly_installed [ok_response]) = Some (0, start partly_installed [ok_response])" .
  from 1 2 show ?thesis by (rule conjI)
qed

end
